(* ===== verification/Go_Prelude.thy ===== *)
theory Go_Prelude
  imports Main "HOL-Library.Multiset" "HOL-Library.List_Lexorder" "HOL-Library.Char_ord"
begin

text \<open>
  The part of Go every component of the model shares.

  \<^item> Machine integers: an \<open>int64\<close> or \<open>int32\<close> value is an \<open>int\<close>
    in the range of its width; where the source's arithmetic can leave that range the
    result is passed through \<open>wrap64\<close> or \<open>wrap32\<close> (two's complement).
  \<^item> Time: a \<open>time.Time\<close> is the number of nanoseconds since the Unix epoch, the
    zero \<open>time.Time\<close> is \<open>zero_time\<close>, and \<open>time.Sub\<close> saturates at
    the bounds of \<open>time.Duration\<close> as the library does.
  \<^item> Protobuf timestamps: seconds and nanoseconds, with the validity check of
    \<open>timestamppb\<close>.
  \<^item> Sorting: \<open>sort_slice\<close> orders a list by a strict "less" function.
    \<open>sort.Slice\<close> does not specify the order of elements that compare equal; the
    lemmas about it say when the result does not depend on that choice.
  \<^item> Errors: a fallible function returns \<open>'e + 'a\<close>, \<open>Inl\<close> being the error.
\<close>

named_theorems go_int \<open>range facts for wrapped machine integers\<close>
named_theorems go_sort \<open>facts about sorted slices\<close>

section \<open>Machine integers\<close>

type_synonym int64 = int
type_synonym int32 = int

definition MaxInt64 :: int64 where
  "MaxInt64 = 2 ^ 63 - 1"

definition MinInt64 :: int64 where
  "MinInt64 = - (2 ^ 63)"

definition is_int64 :: "int \<Rightarrow> bool" where
  "is_int64 x \<longleftrightarrow> MinInt64 \<le> x \<and> x \<le> MaxInt64"

definition wrap64 :: "int \<Rightarrow> int64" where
  "wrap64 x = signed_take_bit 63 x"

definition is_int32 :: "int \<Rightarrow> bool" where
  "is_int32 x \<longleftrightarrow> - (2 ^ 31) \<le> x \<and> x < 2 ^ 31"

definition wrap32 :: "int \<Rightarrow> int32" where
  "wrap32 x = signed_take_bit 31 x"

lemma wrap64_id [go_int]: "is_int64 x \<Longrightarrow> wrap64 x = x"
  by (simp add: is_int64_def MinInt64_def MaxInt64_def wrap64_def signed_take_bit_int_eq_self)

lemma wrap64_range [go_int]: "is_int64 (wrap64 x)"
  using signed_take_bit_int_less_exp [of 63 x]
    signed_take_bit_int_greater_eq_minus_exp [of 63 x]
  by (simp add: is_int64_def MinInt64_def MaxInt64_def wrap64_def)

lemma wrap32_id [go_int]: "is_int32 x \<Longrightarrow> wrap32 x = x"
  by (simp add: is_int32_def wrap32_def signed_take_bit_int_eq_self)

lemma wrap32_range [go_int]: "is_int32 (wrap32 x)"
  using signed_take_bit_int_less_exp [of 31 x]
    signed_take_bit_int_greater_eq_minus_exp [of 31 x]
  by (simp add: is_int32_def wrap32_def)

lemma is_int64_between [go_int]:
  "is_int64 a \<Longrightarrow> is_int64 b \<Longrightarrow> a \<le> x \<Longrightarrow> x \<le> b \<Longrightarrow> is_int64 x"
  by (simp add: is_int64_def)

lemma is_int64_zero [simp]: "is_int64 0"
  by (simp add: is_int64_def MinInt64_def MaxInt64_def)

lemma is_int64_diff_nonneg [go_int]:
  "is_int64 a \<Longrightarrow> 0 \<le> b \<Longrightarrow> b \<le> a \<Longrightarrow> is_int64 (a - b)"
  by (simp add: is_int64_def MinInt64_def MaxInt64_def)

text \<open>Go's integer division truncates towards zero.\<close>

definition go_div :: "int \<Rightarrow> int \<Rightarrow> int" where
  "go_div a b = sgn a * sgn b * (\<bar>a\<bar> div \<bar>b\<bar>)"

lemma go_div_nonneg: "0 \<le> a \<Longrightarrow> 0 < b \<Longrightarrow> go_div a b = a div b"
  by (cases "a = 0") (simp_all add: go_div_def)

section \<open>Time\<close>

type_synonym gotime = int
type_synonym duration = int

definition second :: duration where
  "second = 1000000000"

definition minute :: duration where
  "minute = 60 * second"

definition zero_time :: gotime where
  "zero_time = - 62135596800 * second"

definition is_zero_time :: "gotime \<Rightarrow> bool" where
  "is_zero_time t \<longleftrightarrow> t = zero_time"

definition time_sub :: "gotime \<Rightarrow> gotime \<Rightarrow> duration" where
  "time_sub t u = max MinInt64 (min MaxInt64 (t - u))"

lemma time_sub_le_iff:
  "is_int64 d \<Longrightarrow> d < MaxInt64 \<Longrightarrow> time_sub t u \<le> d \<longleftrightarrow> t - u \<le> d"
  by (auto simp: time_sub_def is_int64_def MinInt64_def MaxInt64_def)

record timestamp =
  ts_seconds :: int64
  ts_nanos :: int32

definition as_time :: "timestamp \<Rightarrow> gotime" where
  "as_time t = ts_seconds t * second + ts_nanos t"

text \<open>\<open>timestamppb.Timestamp.CheckValid\<close>: between year 1 and year 9999, nanoseconds
  in range.\<close>

definition timestamp_valid :: "timestamp \<Rightarrow> bool" where
  "timestamp_valid t \<longleftrightarrow>
     - 62135596800 \<le> ts_seconds t \<and> ts_seconds t \<le> 253402300799 \<and>
     0 \<le> ts_nanos t \<and> ts_nanos t < 1000000000"

section \<open>Sorting\<close>

fun insert_by :: "('a \<Rightarrow> 'a \<Rightarrow> bool) \<Rightarrow> 'a \<Rightarrow> 'a list \<Rightarrow> 'a list" where
  "insert_by lt x [] = [x]"
| "insert_by lt x (y # ys) =
     (if lt y x then y # insert_by lt x ys else x # y # ys)"

fun sort_slice :: "('a \<Rightarrow> 'a \<Rightarrow> bool) \<Rightarrow> 'a list \<Rightarrow> 'a list" where
  "sort_slice lt [] = []"
| "sort_slice lt (x # xs) = insert_by lt x (sort_slice lt xs)"

lemma set_insert_by [simp]: "set (insert_by lt x xs) = insert x (set xs)"
  by (induction xs) auto

lemma set_sort_slice [simp]: "set (sort_slice lt xs) = set xs"
  by (induction xs) auto

lemma mset_insert_by [simp]: "mset (insert_by lt x xs) = add_mset x (mset xs)"
  by (induction xs) auto

lemma mset_sort_slice [simp]: "mset (sort_slice lt xs) = mset xs"
  by (induction xs) auto

lemma length_insert_by [simp]: "length (insert_by lt x xs) = Suc (length xs)"
  by (induction xs) auto

lemma length_sort_slice [simp]: "length (sort_slice lt xs) = length xs"
  by (induction xs) auto

lemma distinct_insert_by [simp]:
  "distinct (insert_by lt x xs) \<longleftrightarrow> x \<notin> set xs \<and> distinct xs"
  by (induction xs) auto

lemma distinct_sort_slice [simp]: "distinct (sort_slice lt xs) \<longleftrightarrow> distinct xs"
  by (induction xs) auto

lemma distinct_map_insert_by [simp]:
  "distinct (map f (insert_by lt x xs)) \<longleftrightarrow> f x \<notin> f ` set xs \<and> distinct (map f xs)"
  by (induction xs) auto

lemma distinct_map_sort_slice [simp]:
  "distinct (map f (sort_slice lt xs)) \<longleftrightarrow> distinct (map f xs)"
  by (induction xs) auto

text \<open>
  The contract a comparison function has to meet: a strict order that is total up to
  elements with equal keys (a strict weak order), the documented requirement of
  \<open>sort.Slice\<close>.
\<close>

locale strict_weak_order =
  fixes lt :: "'a \<Rightarrow> 'a \<Rightarrow> bool"
  assumes irrefl: "\<not> lt x x"
    and trans: "lt x y \<Longrightarrow> lt y z \<Longrightarrow> lt x z"
    and negtrans: "lt x z \<Longrightarrow> lt x y \<or> lt y z"
begin

lemma asym: "lt x y \<Longrightarrow> \<not> lt y x"
  using irrefl trans by blast

lemma insert_by_sorted:
  "sorted_wrt (\<lambda>a b. \<not> lt b a) xs \<Longrightarrow>
   sorted_wrt (\<lambda>a b. \<not> lt b a) (insert_by lt x xs)"
proof (induction xs)
  case (Cons y ys)
  then show ?case using asym negtrans by fastforce
qed simp

lemma sort_slice_sorted: "sorted_wrt (\<lambda>a b. \<not> lt b a) (sort_slice lt xs)"
  by (induction xs) (simp_all add: insert_by_sorted)

lemma sorted_strict:
  assumes "sorted_wrt (\<lambda>a b. \<not> lt b a) xs" "distinct xs"
    and "\<And>a b. a \<in> set xs \<Longrightarrow> b \<in> set xs \<Longrightarrow> a \<noteq> b \<Longrightarrow> lt a b \<or> lt b a"
  shows "sorted_wrt lt xs"
  using assms
proof (induction xs)
  case (Cons x xs)
  then show ?case by (auto; blast)
qed simp

lemma sorted_wrt_unique:
  assumes "sorted_wrt lt xs" "sorted_wrt lt ys" "set xs = set ys"
  shows "xs = ys"
  using assms
proof (induction xs arbitrary: ys)
  case Nil
  then show ?case by simp
next
  case (Cons x xs)
  then obtain y ys' where ys: "ys = y # ys'" by (cases ys) auto
  have "x = y"
  proof (rule ccontr)
    assume "x \<noteq> y"
    then have "x \<in> set ys'" "y \<in> set xs"
      using Cons.prems(3) ys by auto
    then have "lt x y" "lt y x"
      using Cons.prems(1,2) ys by auto
    then show False using asym by blast
  qed
  moreover from Cons.prems ys have "x \<notin> set xs" "y \<notin> set ys'"
    using irrefl by auto
  ultimately have "set xs = set ys'"
    using Cons.prems(3) ys by auto
  with Cons.IH Cons.prems ys \<open>x = y\<close> show ?case by simp
qed

text \<open>Sorting is deterministic where distinct elements are ordered: every sorted
  arrangement of the same elements, in particular the one an unstable algorithm
  computes, is the model's.\<close>

lemma sort_slice_determined:
  assumes "distinct xs"
    and "\<And>a b. a \<in> set xs \<Longrightarrow> b \<in> set xs \<Longrightarrow> a \<noteq> b \<Longrightarrow> lt a b \<or> lt b a"
    and "distinct ys" "set ys = set xs" "sorted_wrt (\<lambda>a b. \<not> lt b a) ys"
  shows "ys = sort_slice lt xs"
proof (rule sorted_wrt_unique)
  show "sorted_wrt lt ys"
    by (rule sorted_strict) (use assms in auto)
  show "sorted_wrt lt (sort_slice lt xs)"
    by (rule sorted_strict [OF sort_slice_sorted]) (use assms in auto)
qed (use assms in simp)

end

section \<open>Result type\<close>

fun is_ok :: "'e + 'a \<Rightarrow> bool" where
  "is_ok (Inl e) = False"
| "is_ok (Inr x) = True"

lemma is_ok_iff: "is_ok r \<longleftrightarrow> (\<exists>x. r = Inr x)"
  by (cases r) auto

fun bind_result :: "'e + 'a \<Rightarrow> ('a \<Rightarrow> 'e + 'b) \<Rightarrow> 'e + 'b" where
  "bind_result (Inl e) f = Inl e"
| "bind_result (Inr x) f = f x"

lemma bind_result_Inr_iff [simp]:
  "bind_result r f = Inr y \<longleftrightarrow> (\<exists>x. r = Inr x \<and> f x = Inr y)"
  by (cases r) auto

lemma bind_result_cong [fundef_cong]:
  "r = s \<Longrightarrow> (\<And>x. s = Inr x \<Longrightarrow> f x = g x) \<Longrightarrow> bind_result r f = bind_result s g"
  by (cases s) auto

text \<open>A validation loop: the first error of a list of checks, in order.\<close>

fun check_all :: "('a \<Rightarrow> 'e option) \<Rightarrow> 'a list \<Rightarrow> 'e option" where
  "check_all f [] = None"
| "check_all f (x # xs) = (case f x of Some e \<Rightarrow> Some e | None \<Rightarrow> check_all f xs)"

lemma check_all_None_iff [simp]: "check_all f xs = None \<longleftrightarrow> (\<forall>x\<in>set xs. f x = None)"
  by (induction xs) (auto split: option.splits)

text \<open>A loop that appends one result per element and returns on the first error.\<close>

fun map_result :: "('a \<Rightarrow> 'e + 'b) \<Rightarrow> 'a list \<Rightarrow> 'e + 'b list" where
  "map_result f [] = Inr []"
| "map_result f (x # xs) =
     bind_result (f x) (\<lambda>y. bind_result (map_result f xs) (\<lambda>ys. Inr (y # ys)))"

lemma map_result_Inr_iff:
  "map_result f xs = Inr ys \<longleftrightarrow> list_all2 (\<lambda>x y. f x = Inr y) xs ys"
proof (induction xs arbitrary: ys)
  case Nil
  then show ?case by (cases ys) auto
next
  case (Cons x xs)
  then show ?case by (cases ys) auto
qed

fun result_error :: "'e + 'a \<Rightarrow> 'e option" where
  "result_error (Inl e) = Some e"
| "result_error (Inr x) = None"

text \<open>A conditional append of one element.\<close>

definition emit :: "bool \<Rightarrow> 'a \<Rightarrow> 'a list" where
  "emit b x = (if b then [x] else [])"

lemma emit_True [simp]: "emit True x = [x]"
  by (simp add: emit_def)

lemma emit_False [simp]: "emit False x = []"
  by (simp add: emit_def)

lemma in_set_emit [simp]: "y \<in> set (emit b x) \<longleftrightarrow> b \<and> y = x"
  by (cases b) (simp_all add: emit_def)

lemma distinct_emit [simp]: "distinct (emit b x)"
  by (simp add: emit_def)

lemma map_emit [simp]: "map f (emit b x) = emit b (f x)"
  by (simp add: emit_def)

lemma length_emit [simp]: "length (emit b x) = of_bool b"
  by (simp add: emit_def)

lemma emit_eq_Nil [simp]: "emit b x = [] \<longleftrightarrow> \<not> b"
  by (simp add: emit_def)

end
