(* ===== verification/Go_Text.thy ===== *)
theory Go_Text
  imports Go_Prelude "HOL-Library.Sublist"
begin

text \<open>
  Go strings as byte sequences (\<open>char list\<close>, one \<open>char\<close> per byte), with the
  functions of \<open>strings\<close>, \<open>unicode/utf8\<close> and \<open>encoding/base64\<close>
  that the components call, written out at byte level:
  \<open>TrimSpace\<close>, \<open>ToLower\<close>, \<open>Split\<close>, \<open>Cut\<close>,
  \<open>utf8.ValidString\<close>, \<open>utf8.RuneStart\<close>, \<open>ToValidUTF8\<close>,
  \<open>base64.RawURLEncoding\<close> and the decimal format of integers.
  \<open>strings.ToLower\<close> is exact on ASCII; on a string with another byte it is the
  case table of package \<open>unicode\<close>, passed as the parameter \<open>ul\<close>.
  The lemmas are the ones the components share: \<open>TrimSpace\<close> is idempotent,
  base64 is injective and produces no separator, splitting and joining are inverse,
  truncation at a rune start keeps a string valid UTF-8.
\<close>

section \<open>Bytes\<close>

definition byte :: "char \<Rightarrow> nat" where
  "byte c = of_char c"

definition is_ascii :: "string \<Rightarrow> bool" where
  "is_ascii s \<longleftrightarrow> list_all (\<lambda>c. byte c < 128) s"

definition is_lower_char :: "char \<Rightarrow> bool" where
  "is_lower_char c \<longleftrightarrow> 97 \<le> byte c \<and> byte c \<le> 122"

definition is_upper_char :: "char \<Rightarrow> bool" where
  "is_upper_char c \<longleftrightarrow> 65 \<le> byte c \<and> byte c \<le> 90"

definition is_digit_char :: "char \<Rightarrow> bool" where
  "is_digit_char c \<longleftrightarrow> 48 \<le> byte c \<and> byte c \<le> 57"

definition is_lower_alnum :: "char \<Rightarrow> bool" where
  "is_lower_alnum c \<longleftrightarrow> is_lower_char c \<or> is_digit_char c"

definition is_alnum :: "char \<Rightarrow> bool" where
  "is_alnum c \<longleftrightarrow> is_lower_char c \<or> is_upper_char c \<or> is_digit_char c"

definition is_lower_hex :: "char \<Rightarrow> bool" where
  "is_lower_hex c \<longleftrightarrow> is_digit_char c \<or> (97 \<le> byte c \<and> byte c \<le> 102)"

text \<open>The shape \<open>^E(?:M*E)?$\<close> of the label patterns: the first and the last byte are in
  the class \<open>E\<close>, all bytes are in the class \<open>M\<close>.\<close>

definition label_shape :: "(char \<Rightarrow> bool) \<Rightarrow> (char \<Rightarrow> bool) \<Rightarrow> string \<Rightarrow> bool" where
  "label_shape E M s \<longleftrightarrow> s \<noteq> [] \<and> E (hd s) \<and> E (last s) \<and> list_all M s"

section \<open>Trimming\<close>

function strip :: "string list \<Rightarrow> string \<Rightarrow> string" where
  "strip ws s =
     (case find (\<lambda>w. w \<noteq> [] \<and> prefix w s) ws of
        None \<Rightarrow> s
      | Some w \<Rightarrow> strip ws (drop (length w) s))"
  by pat_completeness auto
termination
proof (relation "measure (\<lambda>(ws, s). length s)", goal_cases)
  case (2 ws s w)
  then have "w \<noteq> []" "prefix w s"
    by (auto simp: find_Some_iff)
  then show ?case
    by (auto simp: prefix_def)
qed simp

declare strip.simps [simp del]

text \<open>The UTF-8 encodings of the runes \<open>unicode.IsSpace\<close> accepts.\<close>

definition space_runes :: "string list" where
  "space_runes =
     [[CHR 0x09], [CHR 0x0A], [CHR 0x0B], [CHR 0x0C], [CHR 0x0D], [CHR 0x20],
      [CHR 0xC2, CHR 0x85], [CHR 0xC2, CHR 0xA0], [CHR 0xE1, CHR 0x9A, CHR 0x80],
      [CHR 0xE2, CHR 0x80, CHR 0x80], [CHR 0xE2, CHR 0x80, CHR 0x81],
      [CHR 0xE2, CHR 0x80, CHR 0x82], [CHR 0xE2, CHR 0x80, CHR 0x83],
      [CHR 0xE2, CHR 0x80, CHR 0x84], [CHR 0xE2, CHR 0x80, CHR 0x85],
      [CHR 0xE2, CHR 0x80, CHR 0x86], [CHR 0xE2, CHR 0x80, CHR 0x87],
      [CHR 0xE2, CHR 0x80, CHR 0x88], [CHR 0xE2, CHR 0x80, CHR 0x89],
      [CHR 0xE2, CHR 0x80, CHR 0x8A], [CHR 0xE2, CHR 0x80, CHR 0xA8],
      [CHR 0xE2, CHR 0x80, CHR 0xA9], [CHR 0xE2, CHR 0x80, CHR 0xAF],
      [CHR 0xE2, CHR 0x81, CHR 0x9F], [CHR 0xE3, CHR 0x80, CHR 0x80]]"

definition trim_left :: "string \<Rightarrow> string" where
  "trim_left s = strip space_runes s"

definition trim_right :: "string \<Rightarrow> string" where
  "trim_right s = rev (strip (map rev space_runes) (rev s))"

definition trim_space :: "string \<Rightarrow> string" where
  "trim_space s = trim_right (trim_left s)"

section \<open>Case, splitting\<close>

definition lower_char :: "char \<Rightarrow> char" where
  "lower_char c = (if is_upper_char c then char_of (byte c + 32) else c)"

definition to_lower :: "(string \<Rightarrow> string) \<Rightarrow> string \<Rightarrow> string" where
  "to_lower ul s = (if is_ascii s then map lower_char s else ul s)"

text \<open>What normalisation relies on of the case table: lower case of lower case is lower
  case.\<close>

definition lower_idem :: "(string \<Rightarrow> string) \<Rightarrow> bool" where
  "lower_idem ul \<longleftrightarrow> (\<forall>s. to_lower ul (to_lower ul s) = to_lower ul s)"

fun split_on :: "char \<Rightarrow> string \<Rightarrow> string list" where
  "split_on c [] = [[]]"
| "split_on c (x # xs) =
     (if x = c then [] # split_on c xs
      else case split_on c xs of
             [] \<Rightarrow> [[x]]
           | y # ys \<Rightarrow> (x # y) # ys)"

fun join_with :: "string \<Rightarrow> string list \<Rightarrow> string" where
  "join_with sep [] = []"
| "join_with sep [s] = s"
| "join_with sep (s # t # ss) = s @ sep @ join_with sep (t # ss)"

definition cut_on :: "char \<Rightarrow> string \<Rightarrow> (string \<times> string) option" where
  "cut_on c s =
     (if c \<in> set s then Some (takeWhile (\<lambda>x. x \<noteq> c) s, tl (dropWhile (\<lambda>x. x \<noteq> c) s))
      else None)"

definition trim_prefix :: "string \<Rightarrow> string \<Rightarrow> string" where
  "trim_prefix p s = (if prefix p s then drop (length p) s else s)"

section \<open>UTF-8\<close>

definition cont_byte :: "char \<Rightarrow> bool" where
  "cont_byte c \<longleftrightarrow> 128 \<le> byte c \<and> byte c \<le> 191"

definition rune_start :: "char \<Rightarrow> bool" where
  "rune_start c \<longleftrightarrow> \<not> cont_byte c"

text \<open>The length of the well-formed encoding a byte sequence starts with, 0 if there is
  none.\<close>

definition second_ok :: "nat \<Rightarrow> char \<Rightarrow> bool" where
  "second_ok b c \<longleftrightarrow> cont_byte c \<and>
     (b = 224 \<longrightarrow> 160 \<le> byte c) \<and> (b = 237 \<longrightarrow> byte c \<le> 159) \<and>
     (b = 240 \<longrightarrow> 144 \<le> byte c) \<and> (b = 244 \<longrightarrow> byte c \<le> 143)"

definition lead_len :: "nat \<Rightarrow> nat" where
  "lead_len b =
     (if b < 128 then 1
      else if 194 \<le> b \<and> b \<le> 223 then 2
      else if 224 \<le> b \<and> b \<le> 239 then 3
      else if 240 \<le> b \<and> b \<le> 244 then 4
      else 0)"

fun rune_len :: "string \<Rightarrow> nat" where
  "rune_len [] = 0"
| "rune_len (c # cs) =
     (let n = lead_len (byte c); rest = take (n - 1) cs
      in if n \<le> 1 then n
         else if length rest = n - 1 \<and> second_ok (byte c) (hd rest) \<and> list_all cont_byte rest
         then n else 0)"

function valid_utf8 :: "string \<Rightarrow> bool" where
  "valid_utf8 s =
     (if s = [] then True
      else if rune_len s = 0 then False
      else valid_utf8 (drop (rune_len s) s))"
  by pat_completeness auto
termination by (relation "measure length") auto

declare valid_utf8.simps [simp del]

text \<open>\<open>strings.ToValidUTF8\<close>: every maximal run of bytes that do not start a well-formed
  rune is replaced once.\<close>

function to_valid_from :: "string \<Rightarrow> bool \<Rightarrow> string \<Rightarrow> string" where
  "to_valid_from r bad s =
     (if s = [] then []
      else if rune_len s = 0
      then (if bad then [] else r) @ to_valid_from r True (tl s)
      else take (rune_len s) s @ to_valid_from r False (drop (rune_len s) s))"
  by pat_completeness auto
termination by (relation "measure (\<lambda>(r, bad, s). length s)") auto

declare to_valid_from.simps [simp del]

definition to_valid_utf8 :: "string \<Rightarrow> string \<Rightarrow> string" where
  "to_valid_utf8 s r = to_valid_from r False s"

section \<open>Base64 and decimal\<close>

definition b64_digits :: string where
  "b64_digits = ''ABCDEFGHIJKLMNOPQRSTUVWXYZabcdefghijklmnopqrstuvwxyz0123456789-_''"

definition b64_digit :: "nat \<Rightarrow> char" where
  "b64_digit n = b64_digits ! (n mod 64)"

fun base64_raw_url :: "string \<Rightarrow> string" where
  "base64_raw_url [] = []"
| "base64_raw_url [a] = [b64_digit (byte a div 4), b64_digit ((byte a mod 4) * 16)]"
| "base64_raw_url [a, b] =
     [b64_digit (byte a div 4), b64_digit ((byte a mod 4) * 16 + byte b div 16),
      b64_digit ((byte b mod 16) * 4)]"
| "base64_raw_url (a # b # c # cs) =
     b64_digit (byte a div 4) # b64_digit ((byte a mod 4) * 16 + byte b div 16) #
     b64_digit ((byte b mod 16) * 4 + byte c div 64) # b64_digit (byte c mod 64) #
     base64_raw_url cs"

fun fmt_nat :: "nat \<Rightarrow> string" where
  "fmt_nat n =
     (if n < 10 then [char_of (48 + n)] else fmt_nat (n div 10) @ [char_of (48 + n mod 10)])"

declare fmt_nat.simps [simp del]

definition fmt_int :: "int \<Rightarrow> string" where
  "fmt_int i = (if i < 0 then ''-'' @ fmt_nat (nat (- i)) else fmt_nat (nat i))"

section \<open>Lemmas on trimming\<close>

lemma strip_suffix: "suffix (strip ws s) s"
proof (induction ws s rule: strip.induct)
  case (1 ws s)
  show ?case
  proof (cases "find (\<lambda>w. w \<noteq> [] \<and> prefix w s) ws")
    case None
    then show ?thesis by (simp add: strip.simps)
  next
    case (Some w)
    with 1 have "suffix (strip ws (drop (length w) s)) (drop (length w) s)" by blast
    moreover have "suffix (drop (length w) s) s" by (simp add: suffix_drop)
    ultimately show ?thesis
      using Some by (subst strip.simps) (auto intro: suffix_order.trans)
  qed
qed

lemma strip_no_prefix:
  "w \<in> set ws \<Longrightarrow> w \<noteq> [] \<Longrightarrow> \<not> prefix w (strip ws s)"
proof (induction ws s rule: strip.induct)
  case (1 ws s)
  show ?case
  proof (cases "find (\<lambda>w. w \<noteq> [] \<and> prefix w s) ws")
    case None
    then have "strip ws s = s" by (subst strip.simps) simp
    with None 1(2,3) show ?thesis by (auto simp: find_None_iff)
  next
    case (Some v)
    with 1 show ?thesis by (subst strip.simps) simp
  qed
qed

lemma strip_fixed:
  "(\<And>w. w \<in> set ws \<Longrightarrow> w \<noteq> [] \<Longrightarrow> \<not> prefix w s) \<Longrightarrow> strip ws s = s"
  by (subst strip.simps) (auto split: option.splits simp: find_Some_iff in_set_conv_nth)

lemma strip_idem [simp]: "strip ws (strip ws s) = strip ws s"
  by (rule strip_fixed) (simp add: strip_no_prefix)

lemma trim_right_prefix: "prefix (trim_right s) s"
  using strip_suffix [of "map rev space_runes" "rev s"]
  by (simp add: trim_right_def suffix_to_prefix)

lemma trim_left_trim_right: "trim_left (trim_right (trim_left s)) = trim_right (trim_left s)"
proof -
  have "\<not> prefix w (trim_right (trim_left s))" if "w \<in> set space_runes" "w \<noteq> []" for w
    using strip_no_prefix [OF that, of s] trim_right_prefix [of "trim_left s"]
    by (auto simp: trim_left_def intro: prefix_order.trans)
  then show ?thesis by (simp add: trim_left_def strip_fixed)
qed

lemma trim_space_idem [simp]: "trim_space (trim_space s) = trim_space s"
  by (simp add: trim_space_def trim_left_trim_right) (simp add: trim_right_def)

lemma strip_hd:
  assumes "\<forall>w\<in>set ws. w \<noteq> [] \<longrightarrow> hd w \<noteq> c"
  shows "strip ws (c # s) = c # s"
proof (rule strip_fixed)
  fix w assume "w \<in> set ws" "w \<noteq> []"
  with assms show "\<not> prefix w (c # s)" by (cases w) auto
qed

lemma space_runes_not_alnum:
  "\<forall>w\<in>set space_runes. w \<noteq> [] \<and> \<not> is_alnum (hd w) \<and> \<not> is_alnum (last w)"
  by code_simp

lemma trim_space_alnum:
  assumes "s \<noteq> []" "is_alnum (hd s)" "is_alnum (last s)"
  shows "trim_space s = s"
proof -
  from assms obtain c t where s: "s = c # t" "is_alnum c" by (cases s) auto
  with space_runes_not_alnum have "trim_left s = s"
    unfolding trim_left_def by (auto intro: strip_hd)
  moreover from assms obtain d u where r: "rev s = d # u" "is_alnum d"
    by (cases "rev s") (auto simp: last_rev hd_rev dest: arg_cong [of _ _ hd])
  with space_runes_not_alnum have "strip (map rev space_runes) (rev s) = rev s"
    by (auto simp: hd_rev intro!: strip_hd)
  ultimately show ?thesis by (simp add: trim_space_def trim_right_def)
qed

lemma lower_char_idem [simp]: "lower_char (lower_char c) = lower_char c"
  by (auto simp: lower_char_def is_upper_char_def byte_def take_bit_nat_eq_self)

lemma lower_char_ascii: "byte c < 128 \<Longrightarrow> byte (lower_char c) < 128"
  by (auto simp: lower_char_def is_upper_char_def byte_def take_bit_nat_eq_self)

lemma lower_idem_id: "lower_idem (\<lambda>s. s)"
  by (auto simp: lower_idem_def to_lower_def is_ascii_def list_all_iff lower_char_ascii)

section \<open>Lemmas on splitting\<close>

lemma split_on_nonempty [simp]: "split_on c s \<noteq> []"
  by (induction s) (auto split: list.splits)

lemma join_split: "join_with [c] (split_on c s) = s"
proof (induction s)
  case (Cons x xs)
  then show ?case
    by (cases "split_on c xs" rule: remdups_adj.cases) (auto split: list.splits)
qed simp

lemma split_on_pieces: "p \<in> set (split_on c s) \<Longrightarrow> c \<notin> set p"
proof (induction s arbitrary: p)
  case (Cons x xs)
  then show ?case by (auto split: if_splits list.splits)
qed simp

lemma split_on_two:
  assumes "split_on c s = [a, b]"
  shows "s = a @ c # b" "c \<notin> set a" "c \<notin> set b"
proof -
  show "s = a @ c # b" using join_split [of c s] assms by simp
  show "c \<notin> set a" "c \<notin> set b" using split_on_pieces [of _ c s] assms by simp_all
qed

text \<open>A separator that occurs in neither part determines the parts.\<close>

lemma append_sep_inject:
  "c \<notin> set a \<Longrightarrow> c \<notin> set a' \<Longrightarrow> a @ c # b = a' @ c # b' \<longleftrightarrow> a = a' \<and> b = b'"
proof (induction a arbitrary: a')
  case Nil
  then show ?case by (cases a') auto
next
  case (Cons x xs)
  then show ?case by (cases a') auto
qed

lemma append_sep_inject_right:
  assumes "c \<notin> set b" "c \<notin> set b'"
  shows "a @ c # b = a' @ c # b' \<longleftrightarrow> a = a' \<and> b = b'"
proof -
  have "a @ c # b = a' @ c # b' \<longleftrightarrow> rev b @ c # rev a = rev b' @ c # rev a'"
    by (metis append.assoc append_Cons append_Nil rev_append rev_rev_ident rev.simps(2))
  also have "\<dots> \<longleftrightarrow> b = b' \<and> a = a'"
    using assms append_sep_inject [of c "rev b" "rev b'" "rev a" "rev a'"] by simp
  finally show ?thesis by blast
qed

lemma cut_on_sep: "c \<notin> set a \<Longrightarrow> cut_on c (a @ c # b) = Some (a, b)"
  by (induction a) (auto simp: cut_on_def)

lemma cut_on_Some: "cut_on c s = Some (a, b) \<Longrightarrow> s = a @ c # b \<and> c \<notin> set a"
proof -
  assume cut: "cut_on c s = Some (a, b)"
  then have "c \<in> set s" by (simp add: cut_on_def split: if_splits)
  then obtain x y where "s = x @ c # y" "c \<notin> set x" using split_list_first by metis
  with cut cut_on_sep [of c x y] show ?thesis by simp
qed

lemma split_on_append_sep:
  "c \<notin> set a \<Longrightarrow> split_on c (a @ c # b) = a # split_on c b"
  by (induction a) auto

lemma split_on_no_sep: "c \<notin> set a \<Longrightarrow> split_on c a = [a]"
  by (induction a) auto

section \<open>Lemmas on base64\<close>

lemma byte_less_256 [simp]: "byte c < 256"
  by (simp add: byte_def)

lemma byte_eq_iff [simp]: "byte c = byte d \<longleftrightarrow> c = d"
  by (simp add: byte_def)

lemma b64_digits_props: "distinct b64_digits \<and> length b64_digits = 64 \<and> CHR ''/'' \<notin> set b64_digits"
  by code_simp

lemma b64_digit_inject [simp]:
  "m < 64 \<Longrightarrow> n < 64 \<Longrightarrow> b64_digit m = b64_digit n \<longleftrightarrow> m = n"
  using b64_digits_props by (simp add: b64_digit_def nth_eq_iff_index_eq)

lemma b64_digit_no_slash: "b64_digit n \<noteq> CHR ''/''"
proof -
  have "b64_digit n \<in> set b64_digits"
    using b64_digits_props by (simp add: b64_digit_def)
  with b64_digits_props show ?thesis by metis
qed

lemma base64_no_slash: "CHR ''/'' \<notin> set (base64_raw_url s)"
  by (induction s rule: base64_raw_url.induct) (simp_all add: b64_digit_no_slash [symmetric])

lemma digit_pair_inject:
  fixes x y k :: nat
  assumes "x * k + y = x' * k + y'" "y < k" "y' < k"
  shows "x = x' \<and> y = y'"
proof -
  have "(x * k + y) div k = x" "(x' * k + y') div k = x'"
    using assms(2,3) by auto
  with assms(1) show ?thesis by auto
qed

lemma sextets_inject:
  fixes a b c :: nat
  assumes "a < 256" "b < 256" "c < 256" "a' < 256" "b' < 256" "c' < 256"
    and "a div 4 = a' div 4"
    and "(a mod 4) * 16 + b div 16 = (a' mod 4) * 16 + b' div 16"
    and "(b mod 16) * 4 + c div 64 = (b' mod 16) * 4 + c' div 64"
    and "c mod 64 = c' mod 64"
  shows "a = a' \<and> b = b' \<and> c = c'"
proof -
  have "b div 16 < 16" "b' div 16 < 16" "c div 64 < 4" "c' div 64 < 4"
    using assms(2,3,5,6) by auto
  then have "a mod 4 = a' mod 4 \<and> b div 16 = b' div 16"
    "b mod 16 = b' mod 16 \<and> c div 64 = c' div 64"
    using assms(8,9) by (intro digit_pair_inject; simp)+
  with assms(7,10) show ?thesis by (metis div_mult_mod_eq)
qed

lemma sextet_bounds [simp]:
  "byte a div 4 < 64" "(byte a mod 4) * 16 < 64" "(byte a mod 4) * 16 + byte b div 16 < 64"
  "(byte b mod 16) * 4 < 64" "(byte b mod 16) * 4 + byte c div 64 < 64" "byte c mod 64 < 64"
  using byte_less_256 [of a] byte_less_256 [of b] byte_less_256 [of c] by linarith+

lemma length_base64: "length (base64_raw_url s) = (4 * length s + 2) div 3"
  by (induction s rule: base64_raw_url.induct) auto

lemma base64_inject: "base64_raw_url s = base64_raw_url t \<Longrightarrow> s = t"
proof (induction s arbitrary: t rule: base64_raw_url.induct)
  case 1
  then show ?case by (cases t rule: base64_raw_url.cases) auto
next
  case (2 a)
  then show ?case
    using sextets_inject [of "byte a" 0 0 "byte (hd t)" 0 0]
    by (cases t rule: base64_raw_url.cases) auto
next
  case (3 a b)
  then show ?case
    using sextets_inject [of "byte a" "byte b" 0 "byte (hd t)" "byte (t ! 1)" 0]
    by (cases t rule: base64_raw_url.cases) auto
next
  case (4 a b c cs)
  then show ?case
    using sextets_inject
      [of "byte a" "byte b" "byte c" "byte (hd t)" "byte (t ! 1)" "byte (t ! 2)"]
    by (cases t rule: base64_raw_url.cases) auto
qed

section \<open>Lemmas on UTF-8\<close>

lemma rune_len_le: "rune_len s \<le> length s"
  by (cases s) (auto simp: Let_def)

lemma rune_len_append:
  assumes "0 < rune_len s"
  shows "rune_len (take (rune_len s) s @ t) = rune_len s"
proof (cases s)
  case (Cons c cs)
  define n where "n = lead_len (byte c)"
  show ?thesis
  proof (cases "n \<le> 1")
    case True
    with assms Cons have "n = 1" by (auto simp: Let_def n_def [symmetric])
    with Cons show ?thesis by (simp add: Let_def n_def [symmetric])
  next
    case False
    with assms Cons have len: "rune_len s = n" "length (take (n - 1) cs) = n - 1"
      by (auto simp: Let_def n_def [symmetric] split: if_splits)
    then have "take n s = c # take (n - 1) cs" "n - 1 \<le> length cs"
      using Cons False by (auto simp: take_Cons')
    with len assms Cons False show ?thesis
      by (auto simp: Let_def n_def [symmetric] split: if_splits)
  qed
qed (use assms in simp)

lemma rune_len_cont:
  assumes "0 < i" "i < rune_len s"
  shows "cont_byte (s ! i)"
proof (cases s)
  case (Cons c cs)
  define n where "n = lead_len (byte c)"
  from assms Cons have "rune_len s = n" "list_all cont_byte (take (n - 1) cs)"
      "length (take (n - 1) cs) = n - 1"
    by (auto simp: Let_def n_def [symmetric] split: if_splits)
  with assms Cons show ?thesis
    by (auto simp: list_all_length nth_Cons' dest: spec [of _ "i - 1"])
qed (use assms in simp)

lemma valid_utf8_Nil [simp]: "valid_utf8 []"
  by (simp add: valid_utf8.simps)

lemma valid_utf8_rune_append:
  assumes "0 < rune_len s"
  shows "valid_utf8 (take (rune_len s) s @ t) \<longleftrightarrow> valid_utf8 t"
proof -
  have "rune_len s \<le> length s" by (rule rune_len_le)
  then show ?thesis
    using assms rune_len_append [OF assms, of t]
    by (subst valid_utf8.simps) (cases s, auto)
qed

lemma valid_utf8_append: "valid_utf8 s \<Longrightarrow> valid_utf8 t \<Longrightarrow> valid_utf8 (s @ t)"
proof (induction s rule: valid_utf8.induct)
  case (1 s)
  show ?case
  proof (cases "s = []")
    case False
    with 1(2) have n: "0 < rune_len s" "valid_utf8 (drop (rune_len s) s)"
      by (subst (asm) valid_utf8.simps, simp split: if_splits)+
    with 1 False have "valid_utf8 (drop (rune_len s) s @ t)" by blast
    then have "valid_utf8 (take (rune_len s) s @ drop (rune_len s) s @ t)"
      by (simp add: valid_utf8_rune_append n)
    then show ?thesis by (simp add: append.assoc [symmetric] del: append.assoc)
  qed (use 1 in simp)
qed

lemma valid_utf8_take:
  assumes "valid_utf8 s" "k < length s" "rune_start (s ! k)"
  shows "valid_utf8 (take k s)"
  using assms
proof (induction s arbitrary: k rule: valid_utf8.induct)
  case (1 s)
  let ?n = "rune_len s"
  from 1(2,3) have n: "0 < ?n" "valid_utf8 (drop ?n s)" "s \<noteq> []"
    by (subst (asm) valid_utf8.simps, simp split: if_splits)+
  show ?case
  proof (cases "k < ?n")
    case True
    with 1(4) rune_len_cont [of k s] show ?thesis
      by (cases k) (auto simp: rune_start_def)
  next
    case False
    then have "take k s = take ?n s @ take (k - ?n) (drop ?n s)"
      by (metis linorder_not_less append_take_drop_id le_add_diff_inverse take_add)
    moreover have "valid_utf8 (take (k - ?n) (drop ?n s))"
      by (rule 1(1)) (use n False 1(3,4) in auto)
    ultimately show ?thesis by (simp add: valid_utf8_rune_append n)
  qed
qed

lemma to_valid_from_valid: "valid_utf8 r \<Longrightarrow> valid_utf8 (to_valid_from r bad s)"
proof (induction r bad s rule: to_valid_from.induct)
  case (1 r bad s)
  then show ?case
    by (subst to_valid_from.simps) (auto simp: valid_utf8_append valid_utf8_rune_append)
qed

lemma to_valid_utf8_valid [simp]: "valid_utf8 r \<Longrightarrow> valid_utf8 (to_valid_utf8 s r)"
  by (simp add: to_valid_utf8_def to_valid_from_valid)

lemma to_valid_from_id: "valid_utf8 s \<Longrightarrow> to_valid_from r bad s = s"
proof (induction r bad s rule: to_valid_from.induct)
  case (1 r bad s)
  then show ?case
    by (subst to_valid_from.simps) (auto simp: valid_utf8.simps [of s])
qed

lemma to_valid_utf8_id [simp]: "valid_utf8 s \<Longrightarrow> to_valid_utf8 s r = s"
  by (simp add: to_valid_utf8_def to_valid_from_id)

end
