(* ===== verification/Capability_Model.thy ===== *)
theory Capability_Model
  imports Go_Text
begin

text \<open>
  The node capability registry shared by the control plane and the node agent
  (\<open>lib/go/nodecapability\<close>): the protobuf vocabulary of
  \<open>capability.proto\<close>, the definition table of \<open>definitions.go\<close> with the
  validation that runs at package initialisation, keys and their identifiers, extension
  names and the bounded texts of \<open>validation.go\<close>, and the evidence and freshness
  checks of \<open>evidence.go\<close>.

  A protobuf enum is a datatype with one constructor per named number and one for the
  numbers the schema does not name.  A pointer to a message is an \<open>option\<close>; the
  getters return the protobuf default on \<open>None\<close>.
\<close>

named_theorems capability_simps \<open>lookup facts of the definition registry\<close>

section \<open>Vocabulary\<close>

datatype platform_capability =
    PC_UNSPECIFIED
  | PC_NETWORK_BRIDGE
  | PC_NETWORK_BPFNET
  | PC_CGROUP_V2_MEMORY_CONTROLLER
  | PC_RUNSC_MEMORY_HARD_LIMIT
  | PC_FILESTORE_OVERLAYFS_UPPER
  | PC_RUNSC_EPHEMERAL_STORAGE_HARD_LIMIT
  | PC_ROOTFS_LOWER_EROFS
  | PC_RUNSC_MEMORY_ENFORCEMENT_SELF_TEST
  | PC_RUNSC_EPHEMERAL_ENFORCEMENT_SELF_TEST
  | PC_EGRESSD_DNS_POLICY_SELF_TEST
  | PC_EGRESSD_STRICT_EGRESS_SELF_TEST
  | PC_DNS_POLICY_ENFORCEMENT
  | PC_STRICT_EGRESS_ENFORCEMENT
  | PC_ROOTFS_SNAPSHOT
  | PC_OTHER int

fun pc_number :: "platform_capability \<Rightarrow> int" where
  "pc_number PC_UNSPECIFIED = 0"
| "pc_number PC_NETWORK_BRIDGE = 1"
| "pc_number PC_NETWORK_BPFNET = 2"
| "pc_number PC_CGROUP_V2_MEMORY_CONTROLLER = 3"
| "pc_number PC_RUNSC_MEMORY_HARD_LIMIT = 4"
| "pc_number PC_FILESTORE_OVERLAYFS_UPPER = 5"
| "pc_number PC_RUNSC_EPHEMERAL_STORAGE_HARD_LIMIT = 6"
| "pc_number PC_ROOTFS_LOWER_EROFS = 7"
| "pc_number PC_RUNSC_MEMORY_ENFORCEMENT_SELF_TEST = 8"
| "pc_number PC_RUNSC_EPHEMERAL_ENFORCEMENT_SELF_TEST = 9"
| "pc_number PC_EGRESSD_DNS_POLICY_SELF_TEST = 10"
| "pc_number PC_EGRESSD_STRICT_EGRESS_SELF_TEST = 11"
| "pc_number PC_DNS_POLICY_ENFORCEMENT = 12"
| "pc_number PC_STRICT_EGRESS_ENFORCEMENT = 13"
| "pc_number PC_ROOTFS_SNAPSHOT = 14"
| "pc_number (PC_OTHER n) = n"

text \<open>The numbers the generated table \<open>PlatformCapability_name\<close> lists.\<close>

definition PlatformCapability_name :: "platform_capability list" where
  "PlatformCapability_name =
     [PC_UNSPECIFIED, PC_NETWORK_BRIDGE, PC_NETWORK_BPFNET, PC_CGROUP_V2_MEMORY_CONTROLLER,
      PC_RUNSC_MEMORY_HARD_LIMIT, PC_FILESTORE_OVERLAYFS_UPPER,
      PC_RUNSC_EPHEMERAL_STORAGE_HARD_LIMIT, PC_ROOTFS_LOWER_EROFS,
      PC_RUNSC_MEMORY_ENFORCEMENT_SELF_TEST, PC_RUNSC_EPHEMERAL_ENFORCEMENT_SELF_TEST,
      PC_EGRESSD_DNS_POLICY_SELF_TEST, PC_EGRESSD_STRICT_EGRESS_SELF_TEST,
      PC_DNS_POLICY_ENFORCEMENT, PC_STRICT_EGRESS_ENFORCEMENT, PC_ROOTFS_SNAPSHOT]"

datatype capability_state =
    CS_UNSPECIFIED | CS_AVAILABLE | CS_DEGRADED | CS_UNAVAILABLE | CS_UNKNOWN | CS_OTHER int

datatype capability_provider =
    CP_UNSPECIFIED | CP_CONFIG | CP_HOST_CGROUP | CP_FILESTORE | CP_RUNSC_SELF_TEST
  | CP_NETWORK_HEALTH | CP_DERIVED | CP_OTHER int

datatype capability_reason_code =
    RC_UNSPECIFIED | RC_AVAILABLE | RC_DISABLED | RC_PROBE_FAILED | RC_PROBE_ERROR
  | RC_EXPIRED | RC_IDENTITY_CHANGED | RC_DEPENDENCY_UNAVAILABLE | RC_RECOVERY_PENDING
  | RC_ENFORCEMENT_LOST | RC_OTHER int

datatype capability_loss_policy =
    LP_UNSPECIFIED | LP_ADMISSION_ONLY | LP_DEGRADE | LP_FAIL_STOP | LP_OTHER int

datatype capability_condition_state =
    CC_UNSPECIFIED | CC_HEALTHY | CC_DEGRADED | CC_FAILED | CC_UNKNOWN | CC_OTHER int

datatype identity_kind =
    IdentityUnspecified | IdentityConfig | IdentityBoot | IdentityMount | IdentityRuntime
  | IdentityDerived

datatype audience =
    AudienceUnspecified | AudienceInternalFact | AudienceWorkloadRequirement

datatype allocation_verifier =
    VerifierNone | VerifierNetwork | VerifierMemoryHardLimit
  | VerifierRunscEphemeralStorage | VerifierEgressPolicy

record extension_capability =
  ext_name :: string
  ext_value :: string

datatype capability_key =
    KeyUnset
  | KeyPlatform platform_capability
  | KeyExtension extension_capability

datatype capability_evidence =
    EvidenceUnset
  | EvidenceBoot string
  | EvidenceMount string string
  | EvidenceRuntime string string string

record capability_observation =
  ob_key :: "capability_key option"
  ob_state :: capability_state
  ob_provider :: capability_provider
  ob_observed_at :: "timestamp option"
  ob_valid_until :: "timestamp option"
  ob_evidence :: "capability_evidence option"
  ob_reason_code :: capability_reason_code
  ob_reason :: string

record capability_snapshot =
  cs_collected_at :: "timestamp option"
  cs_observations :: "capability_observation option list"

record extension_requirement =
  er_capability :: "extension_capability option"

record capability_requirement =
  cr_key :: "capability_key option"
  cr_loss_policy :: capability_loss_policy

record capability_condition =
  cc_key :: "capability_key option"
  cc_state :: capability_condition_state
  cc_reason_code :: capability_reason_code
  cc_message :: string

record condition_set =
  cond_observed_at :: "timestamp option"
  cond_conditions :: "capability_condition option list"

record freshness_policy =
  fp_MaxValidity :: duration

record capability_def =
  cd_Key :: platform_capability
  cd_Provider :: capability_provider
  cd_Identity :: identity_kind
  cd_Freshness :: freshness_policy
  cd_LossPolicy :: capability_loss_policy
  cd_Audience :: audience
  cd_Verifier :: allocation_verifier
  cd_Dependencies :: "platform_capability list"

datatype definition_error =
    EnumNotDefined | DefinitionIncomplete | UnknownProvider | InternalFactPolicy
  | AdmissionOnlyVerifier | RuntimeLossVerifier | UnknownLossPolicy | DerivedMetadata
  | BaseMetadata | UnknownDependency | DependencyNotInternal | DependencyDerived
  | DependencyCycle

datatype key_error =
    KeyRequired | KeyKindRequired | UnknownPlatform

datatype extension_error =
    ExtensionRequired | ExtensionWhitespace | ExtensionShape | DomainReserved
  | DomainTooLong | DomainInvalid | NameSegment | ValueNotUTF8 | ValueNUL
  | ValueTooLong | ExtensionRequirementRequired | ExtensionCount | DuplicateExtension

datatype evidence_error =
    SyntheticEvidence | EvidenceRequired | EvidenceKind | BootID | MountIdentity
  | BinaryDigest | ConfigDigest

datatype freshness_error =
    ObservedAtRequired | NonExpiringValidUntil | MissingValidUntil | FreshnessBound
  | ObservationExpired

datatype condition_error =
    ConditionSetRequired | ConditionTimestamp | ConditionInFuture | ConditionCount
  | ConditionRequired | ConditionInternal | ConditionDuplicate | ConditionStateOrReason
  | HealthyReason | NonHealthyReason | ConditionMessage

datatype requirement_error =
    RequirementCount | NilRequirement | InternalRequirement | DuplicateRequirement
  | DuplicateExtensionName | RequirementExtensionCount | LossPolicyMismatch
  | NotAvailable | NegativeLimit | BothEnforcements | BackendRequired
  | UnsupportedBackend

datatype snapshot_error =
    SnapshotRequired | CollectedAtRequired | CollectedAtInvalid | SnapshotCount
  | CollectedInFuture | NilObservation | DuplicateObservation
  | DuplicateObservationName | ObservationFields | ObservationTimestamp | WrongOwner
  | StateReasonInconsistent | ReasonBounds | ObservedAfterPublication
  | ExpiresBeforeObserved | DependencyUnavailable

datatype capability_error =
    DefinitionError definition_error
  | KeyError key_error
  | ExtensionError extension_error
  | EvidenceError evidence_error
  | FreshnessError freshness_error
  | ConditionError condition_error
  | RequirementError requirement_error
  | SnapshotError snapshot_error

section \<open>The definition registry\<close>

definition HealthObservationValidity :: duration where
  "HealthObservationValidity = 15 * second"

definition platformDefinition ::
  "platform_capability \<Rightarrow> capability_provider \<Rightarrow> identity_kind \<Rightarrow> duration \<Rightarrow>
   capability_loss_policy \<Rightarrow> audience \<Rightarrow> allocation_verifier \<Rightarrow>
   platform_capability list \<Rightarrow> platform_capability \<times> capability_def" where
  "platformDefinition key provider identity validity lossPolicy aud verifier deps =
     (key, \<lparr>cd_Key = key, cd_Provider = provider, cd_Identity = identity,
            cd_Freshness = \<lparr>fp_MaxValidity = validity\<rparr>, cd_LossPolicy = lossPolicy,
            cd_Audience = aud, cd_Verifier = verifier, cd_Dependencies = deps\<rparr>)"

definition definitions :: "(platform_capability \<times> capability_def) list" where
  "definitions =
    [platformDefinition PC_NETWORK_BRIDGE CP_NETWORK_HEALTH IdentityConfig
       HealthObservationValidity LP_DEGRADE AudienceWorkloadRequirement VerifierNetwork [],
     platformDefinition PC_NETWORK_BPFNET CP_NETWORK_HEALTH IdentityConfig
       HealthObservationValidity LP_DEGRADE AudienceWorkloadRequirement VerifierNetwork [],
     platformDefinition PC_CGROUP_V2_MEMORY_CONTROLLER CP_HOST_CGROUP IdentityBoot
       0 LP_ADMISSION_ONLY AudienceInternalFact VerifierNone [],
     platformDefinition PC_RUNSC_MEMORY_HARD_LIMIT CP_DERIVED IdentityDerived
       0 LP_FAIL_STOP AudienceWorkloadRequirement VerifierMemoryHardLimit
       [PC_CGROUP_V2_MEMORY_CONTROLLER, PC_RUNSC_MEMORY_ENFORCEMENT_SELF_TEST],
     platformDefinition PC_FILESTORE_OVERLAYFS_UPPER CP_FILESTORE IdentityMount
       HealthObservationValidity LP_ADMISSION_ONLY AudienceInternalFact VerifierNone [],
     platformDefinition PC_RUNSC_EPHEMERAL_STORAGE_HARD_LIMIT CP_DERIVED IdentityDerived
       0 LP_FAIL_STOP AudienceWorkloadRequirement VerifierRunscEphemeralStorage
       [PC_FILESTORE_OVERLAYFS_UPPER, PC_RUNSC_EPHEMERAL_ENFORCEMENT_SELF_TEST],
     platformDefinition PC_ROOTFS_LOWER_EROFS CP_FILESTORE IdentityMount
       HealthObservationValidity LP_ADMISSION_ONLY AudienceWorkloadRequirement VerifierNone [],
     platformDefinition PC_RUNSC_MEMORY_ENFORCEMENT_SELF_TEST CP_RUNSC_SELF_TEST IdentityRuntime
       0 LP_ADMISSION_ONLY AudienceInternalFact VerifierNone [],
     platformDefinition PC_RUNSC_EPHEMERAL_ENFORCEMENT_SELF_TEST CP_RUNSC_SELF_TEST
       IdentityRuntime 0 LP_ADMISSION_ONLY AudienceInternalFact VerifierNone [],
     platformDefinition PC_EGRESSD_DNS_POLICY_SELF_TEST CP_NETWORK_HEALTH IdentityConfig
       HealthObservationValidity LP_ADMISSION_ONLY AudienceInternalFact VerifierNone [],
     platformDefinition PC_EGRESSD_STRICT_EGRESS_SELF_TEST CP_NETWORK_HEALTH IdentityConfig
       HealthObservationValidity LP_ADMISSION_ONLY AudienceInternalFact VerifierNone [],
     platformDefinition PC_DNS_POLICY_ENFORCEMENT CP_DERIVED IdentityDerived
       0 LP_FAIL_STOP AudienceWorkloadRequirement VerifierEgressPolicy
       [PC_EGRESSD_DNS_POLICY_SELF_TEST],
     platformDefinition PC_STRICT_EGRESS_ENFORCEMENT CP_DERIVED IdentityDerived
       0 LP_FAIL_STOP AudienceWorkloadRequirement VerifierEgressPolicy
       [PC_EGRESSD_DNS_POLICY_SELF_TEST, PC_EGRESSD_STRICT_EGRESS_SELF_TEST],
     platformDefinition PC_ROOTFS_SNAPSHOT CP_CONFIG IdentityConfig
       0 LP_ADMISSION_ONLY AudienceWorkloadRequirement VerifierNone []]"

fun provider_named :: "capability_provider \<Rightarrow> bool" where
  "provider_named (CP_OTHER n) = False"
| "provider_named _ = True"

text \<open>The per-definition checks of \<open>validateDefinitions\<close>, in the order of the source.\<close>

definition validateDependency ::
  "(platform_capability \<times> capability_def) list \<Rightarrow> platform_capability \<Rightarrow> capability_error option" where
  "validateDependency defs dependency =
     (case map_of defs dependency of
        None \<Rightarrow> Some (DefinitionError UnknownDependency)
      | Some dep \<Rightarrow>
          if cd_Audience dep \<noteq> AudienceInternalFact then Some (DefinitionError DependencyNotInternal)
          else if cd_Provider dep = CP_DERIVED then Some (DefinitionError DependencyDerived)
          else None)"

definition validateDefinition ::
  "(platform_capability \<times> capability_def) list \<Rightarrow> platform_capability \<Rightarrow> capability_error option" where
  "validateDefinition defs key =
     (if key = PC_UNSPECIFIED then None
      else case map_of defs key of
        None \<Rightarrow> Some (DefinitionError EnumNotDefined)
      | Some d \<Rightarrow>
          if cd_Key d \<noteq> key \<or> cd_Provider d = CP_UNSPECIFIED \<or> cd_Identity d = IdentityUnspecified
             \<or> cd_Audience d = AudienceUnspecified \<or> cd_LossPolicy d = LP_UNSPECIFIED
          then Some (DefinitionError DefinitionIncomplete)
          else if \<not> provider_named (cd_Provider d) then Some (DefinitionError UnknownProvider)
          else if cd_Audience d = AudienceInternalFact
                  \<and> (cd_LossPolicy d \<noteq> LP_ADMISSION_ONLY \<or> cd_Verifier d \<noteq> VerifierNone)
          then Some (DefinitionError InternalFactPolicy)
          else if cd_LossPolicy d = LP_ADMISSION_ONLY \<and> cd_Verifier d \<noteq> VerifierNone
          then Some (DefinitionError AdmissionOnlyVerifier)
          else if (cd_LossPolicy d = LP_DEGRADE \<or> cd_LossPolicy d = LP_FAIL_STOP)
                  \<and> cd_Verifier d = VerifierNone
          then Some (DefinitionError RuntimeLossVerifier)
          else if cd_LossPolicy d \<noteq> LP_ADMISSION_ONLY \<and> cd_LossPolicy d \<noteq> LP_DEGRADE
                  \<and> cd_LossPolicy d \<noteq> LP_FAIL_STOP
          then Some (DefinitionError UnknownLossPolicy)
          else if cd_Provider d = CP_DERIVED
                  \<and> (cd_Identity d \<noteq> IdentityDerived
                     \<or> cd_Audience d \<noteq> AudienceWorkloadRequirement \<or> cd_Dependencies d = [])
          then Some (DefinitionError DerivedMetadata)
          else if cd_Provider d \<noteq> CP_DERIVED
                  \<and> (cd_Dependencies d \<noteq> [] \<or> cd_Identity d = IdentityDerived)
          then Some (DefinitionError BaseMetadata)
          else check_all (validateDependency defs) (cd_Dependencies d))"

definition dependencies_of ::
  "(platform_capability \<times> capability_def) list \<Rightarrow> platform_capability \<Rightarrow> platform_capability list" where
  "dependencies_of defs key =
     (case map_of defs key of None \<Rightarrow> [] | Some d \<Rightarrow> cd_Dependencies d)"

text \<open>The depth-first search for a dependency cycle.  The loop over the keys and the
  recursive call on the dependencies of a key are one function on the list of keys still
  to visit; \<open>visiting\<close> and \<open>visited\<close> are the two maps of the source.\<close>

function visit ::
  "(platform_capability \<times> capability_def) list \<Rightarrow> platform_capability list \<Rightarrow>
   platform_capability list \<Rightarrow> platform_capability list \<Rightarrow>
   capability_error + platform_capability list" where
  "visit defs visiting visited [] = Inr visited"
| "visit defs visiting visited (key # keys) =
     (if key \<in> set visiting then Inl (DefinitionError DependencyCycle)
      else if key \<in> set visited then visit defs visiting visited keys
      else bind_result (visit defs (key # visiting) visited (dependencies_of defs key))
             (\<lambda>visited'. visit defs visiting (key # visited') keys))"
  by pat_completeness auto
termination
proof (relation "inv_image (less_than <*lex*> less_than)
    (\<lambda>(defs, visiting, visited, keys). (card (fst ` set defs - set visiting), length keys))",
    goal_cases)
  case (3 defs visiting visited key keys)
  show ?case
  proof (cases "key \<in> fst ` set defs")
    case True
    with 3 have "fst ` set defs - set (key # visiting) \<subset> fst ` set defs - set visiting"
      by auto
    then have "card (fst ` set defs - set (key # visiting)) < card (fst ` set defs - set visiting)"
      by (intro psubset_card_mono) auto
    then show ?thesis by simp
  next
    case False
    then have "map_of defs key = None" by (simp add: map_of_eq_None_iff)
    moreover from False have "fst ` set defs - set (key # visiting) = fst ` set defs - set visiting"
      by auto
    ultimately show ?thesis by (simp add: dependencies_of_def)
  qed
qed auto

definition validateDefinitions ::
  "(platform_capability \<times> capability_def) list \<Rightarrow> capability_error option" where
  "validateDefinitions defs =
     (case check_all (validateDefinition defs) PlatformCapability_name of
        Some e \<Rightarrow> Some e
      | None \<Rightarrow>
          (case visit defs [] [] (map fst defs) of
             Inl e \<Rightarrow> Some e
           | Inr _ \<Rightarrow> None))"

definition PlatformDefinition :: "platform_capability \<Rightarrow> capability_def option" where
  "PlatformDefinition key = map_of definitions key"

definition PlatformDefinitions :: "capability_def list" where
  "PlatformDefinitions =
     sort_slice (\<lambda>a b. pc_number (cd_Key a) < pc_number (cd_Key b)) (map snd definitions)"

definition PlatformDependencyKeys ::
  "platform_capability \<Rightarrow> capability_error + capability_key list" where
  "PlatformDependencyKeys key =
     (case PlatformDefinition key of
        None \<Rightarrow> Inl (KeyError UnknownPlatform)
      | Some d \<Rightarrow> Inr (map KeyPlatform (cd_Dependencies d)))"

section \<open>What the validation checks\<close>

text \<open>The rules for a table, stated for one definition: its metadata is complete, a verifier
  is named exactly for the losses that act on running workloads, internal facts act on
  admission only, and exactly the derived capabilities have dependencies, each of them an
  internal fact that is not derived itself.\<close>

definition sound_dependency :: "(platform_capability \<times> capability_def) list \<Rightarrow> platform_capability \<Rightarrow> bool" where
  "sound_dependency defs q \<longleftrightarrow>
     (\<exists>dep. map_of defs q = Some dep \<and> cd_Audience dep = AudienceInternalFact \<and> cd_Provider dep \<noteq> CP_DERIVED)"

definition sound_definition ::
  "(platform_capability \<times> capability_def) list \<Rightarrow> platform_capability \<Rightarrow> capability_def \<Rightarrow> bool" where
  "sound_definition defs key d \<longleftrightarrow>
     cd_Key d = key \<and> provider_named (cd_Provider d) \<and> cd_Provider d \<noteq> CP_UNSPECIFIED \<and>
     cd_Identity d \<noteq> IdentityUnspecified \<and> cd_Audience d \<noteq> AudienceUnspecified \<and>
     cd_LossPolicy d \<in> {LP_ADMISSION_ONLY, LP_DEGRADE, LP_FAIL_STOP} \<and>
     (cd_Verifier d = VerifierNone \<longleftrightarrow> cd_LossPolicy d = LP_ADMISSION_ONLY) \<and>
     (cd_Audience d = AudienceInternalFact \<longrightarrow> cd_LossPolicy d = LP_ADMISSION_ONLY) \<and>
     (cd_Provider d = CP_DERIVED \<longleftrightarrow> cd_Identity d = IdentityDerived) \<and>
     (cd_Provider d = CP_DERIVED \<longleftrightarrow> cd_Dependencies d \<noteq> []) \<and>
     (cd_Provider d = CP_DERIVED \<longrightarrow> cd_Audience d = AudienceWorkloadRequirement) \<and>
     (\<forall>q\<in>set (cd_Dependencies d). sound_dependency defs q)"

definition dependency_edges ::
  "(platform_capability \<times> capability_def) list \<Rightarrow> (platform_capability \<times> platform_capability) set" where
  "dependency_edges defs = {(k, q). q \<in> set (dependencies_of defs k)}"

lemma validateDependency_iff: "validateDependency defs q = None \<longleftrightarrow> sound_dependency defs q"
  by (auto simp: validateDependency_def sound_dependency_def split: option.split)

lemma validateDefinition_iff:
  "validateDefinition defs key = None \<longleftrightarrow>
     key = PC_UNSPECIFIED \<or> (\<exists>d. map_of defs key = Some d \<and> sound_definition defs key d)"
proof (cases "map_of defs key")
  case (Some d)
  then show ?thesis
    by (cases "cd_Provider d = CP_DERIVED"; cases "cd_LossPolicy d = LP_ADMISSION_ONLY")
      (auto simp: validateDefinition_def sound_definition_def validateDependency_iff check_all_None_iff)
qed (simp add: validateDefinition_def)

text \<open>The search keeps the finished keys closed under dependencies and free of cycles.\<close>

definition settled ::
  "(platform_capability \<times> capability_def) list \<Rightarrow> platform_capability set \<Rightarrow> bool" where
  "settled defs V \<longleftrightarrow> dependency_edges defs `` V \<subseteq> V \<and> acyclic (dependency_edges defs \<inter> V \<times> V)"

lemma settled_insert:
  assumes "settled defs V" "k \<notin> V" "set (dependencies_of defs k) \<subseteq> V"
  shows "settled defs (insert k V)"
proof -
  let ?E = "dependency_edges defs"
  have closed: "?E `` V \<subseteq> V" and succ: "\<And>q. (k, q) \<in> ?E \<Longrightarrow> q \<in> V"
    using assms by (auto simp: settled_def dependency_edges_def)
  have path: "(x, y) \<in> (?E \<inter> insert k V \<times> insert k V)\<^sup>+ \<Longrightarrow>
      y \<in> V \<and> (x \<in> V \<longrightarrow> (x, y) \<in> (?E \<inter> V \<times> V)\<^sup>+)" for x y
  proof (induction rule: trancl_induct)
    case (base y)
    with closed succ show ?case by (cases "x = k") auto
  next
    case (step y z)
    with closed have "(y, z) \<in> ?E \<inter> V \<times> V" by auto
    with step.IH show ?case by (auto intro: trancl_into_trancl)
  qed
  with assms(1) have "acyclic (?E \<inter> insert k V \<times> insert k V)"
    unfolding acyclic_def settled_def by blast
  with closed succ show ?thesis by (auto simp: settled_def)
qed

lemma visit_settles:
  assumes "visit defs visiting visited keys = Inr v"
  shows "set visited \<subseteq> set v \<and> set keys \<subseteq> set v \<and> set v \<inter> set visiting \<subseteq> set visited \<and>
    (settled defs (set visited) \<longrightarrow> settled defs (set v))"
  using assms
proof (induction defs visiting visited keys arbitrary: v rule: visit.induct)
  case (2 defs visiting visited key keys)
  show ?case
  proof (cases "key \<in> set visited")
    case True
    with 2 show ?thesis by (auto split: if_splits)
  next
    case False
    with "2.prems" obtain v1 where new: "key \<notin> set visiting"
      and v1: "visit defs (key # visiting) visited (dependencies_of defs key) = Inr v1"
      and v: "visit defs visiting (key # v1) keys = Inr v"
      by (auto split: if_splits simp: bind_result_Inr_iff)
    note inner = "2.IH"(2) [OF new False v1] and outer = "2.IH"(3) [OF new False v1 v]
    have "key \<notin> set v1" using inner False by auto
    with inner settled_insert [of defs "set v1" key]
    have "settled defs (set visited) \<longrightarrow> settled defs (set (key # v1))" by auto
    with inner outer new show ?thesis by auto
  qed
qed simp

lemma visit_cycle:
  assumes "visit defs visiting visited keys = Inl e"
    and "\<forall>x\<in>set visiting. \<forall>k\<in>set keys. (x, k) \<in> (dependency_edges defs)\<^sup>+"
  shows "\<not> acyclic (dependency_edges defs)"
  using assms
proof (induction defs visiting visited keys rule: visit.induct)
  case (2 defs visiting visited key keys)
  show ?case
  proof (cases "key \<in> set visiting")
    case True
    with "2.prems"(2) show ?thesis by (auto simp: acyclic_def)
  next
    case new: False
    show ?thesis
    proof (cases "key \<in> set visited")
      case True
      with new "2.IH"(1) "2.prems" show ?thesis by simp
    next
      case False
      let ?inner = "visit defs (key # visiting) visited (dependencies_of defs key)"
      show ?thesis
      proof (cases ?inner)
        case (Inl e')
        have "\<forall>x\<in>set (key # visiting). \<forall>q\<in>set (dependencies_of defs key).
            (x, q) \<in> (dependency_edges defs)\<^sup>+"
          using "2.prems"(2) by (auto simp: dependency_edges_def intro: trancl_into_trancl)
        with "2.IH"(2) [OF new False] Inl show ?thesis
          using "2.prems"(1) new False by auto
      next
        case (Inr v1)
        with "2.IH"(3) [OF new False Inr] "2.prems" new False show ?thesis by simp
      qed
    qed
  qed
qed simp

lemma dependency_edges_domain: "(k, q) \<in> dependency_edges defs \<Longrightarrow> k \<in> fst ` set defs"
  by (cases "map_of defs k") (force simp: dependency_edges_def dependencies_of_def dest: map_of_SomeD)+

lemma visit_acyclic_iff:
  "is_ok (visit defs [] [] (map fst defs)) \<longleftrightarrow> acyclic (dependency_edges defs)"
proof (cases "visit defs [] [] (map fst defs)")
  case (Inl e)
  with visit_cycle [OF Inl] show ?thesis by simp
next
  case (Inr v)
  have "settled defs {}" by (simp add: settled_def acyclic_def)
  with visit_settles [OF Inr] have v: "settled defs (set v)" "fst ` set defs \<subseteq> set v" by auto
  have "k \<in> set v \<and> q \<in> set v" if edge: "(k, q) \<in> dependency_edges defs" for k q
  proof -
    from dependency_edges_domain [OF edge] v(2) have "k \<in> set v" by (rule rev_subsetD)
    with v(1) ImageI [OF edge] show ?thesis by (auto simp: settled_def)
  qed
  then have "dependency_edges defs \<inter> set v \<times> set v = dependency_edges defs" by auto
  with v(1) Inr show ?thesis by (simp add: settled_def)
qed

lemma validateDefinitions_iff:
  "validateDefinitions defs = None \<longleftrightarrow>
     (\<forall>key\<in>set PlatformCapability_name. key \<noteq> PC_UNSPECIFIED \<longrightarrow>
        (\<exists>d. map_of defs key = Some d \<and> sound_definition defs key d)) \<and>
     acyclic (dependency_edges defs)"
proof -
  have first: "(case a of Some e \<Rightarrow> Some e | None \<Rightarrow> b) = None \<longleftrightarrow> a = None \<and> b = None" for a b :: "capability_error option"
    by (cases a) simp_all
  have "(case visit defs [] [] (map fst defs) of Inl e \<Rightarrow> Some e | Inr _ \<Rightarrow> None) = None \<longleftrightarrow>
      acyclic (dependency_edges defs)"
    unfolding visit_acyclic_iff [symmetric] by (simp split: sum.split)
  then show ?thesis
    unfolding validateDefinitions_def first check_all_None_iff validateDefinition_iff by blast
qed

end
