(* ===== verification/Capability_Keys.thy ===== *)
theory Capability_Keys
  imports Capability_Model
begin

text \<open>
  Capability keys and their identifiers (\<open>definitions.go\<close>), the extension names,
  bounded texts and condition sets of \<open>validation.go\<close>, and the evidence and
  freshness checks of \<open>evidence.go\<close>.  The parameter \<open>ul\<close> is the lower-case
  mapping of package \<open>unicode\<close> for strings that are not ASCII.

  The lemmas show that a key identifier determines the key up to the normalisation of
  the extension domain, that a validated extension name has exactly one separator, and
  that bounded reasons are valid UTF-8 of at most 1024 bytes.
\<close>

section \<open>Getters\<close>

fun GetPlatform :: "capability_key option \<Rightarrow> platform_capability" where
  "GetPlatform (Some (KeyPlatform p)) = p"
| "GetPlatform _ = PC_UNSPECIFIED"

fun GetExtension :: "capability_key option \<Rightarrow> extension_capability option" where
  "GetExtension (Some (KeyExtension e)) = Some e"
| "GetExtension _ = None"

section \<open>Extension names\<close>

definition MaxExtensionCapabilities :: nat where
  "MaxExtensionCapabilities = 64"

definition MaxExtensionValueBytes :: nat where
  "MaxExtensionValueBytes = 256"

definition MaxReasonBytes :: nat where
  "MaxReasonBytes = 1024"

definition MaxSnapshotObservations :: nat where
  "MaxSnapshotObservations = 128"

definition MaxIdentityBytes :: nat where
  "MaxIdentityBytes = 512"

definition reservedExtensionDomains :: "string list" where
  "reservedExtensionDomains = [''axern.io'', ''axern.dev'']"

definition dnsLabelPattern :: "string \<Rightarrow> bool" where
  "dnsLabelPattern s = label_shape is_lower_alnum (\<lambda>c. is_lower_alnum c \<or> c = CHR ''-'') s"

definition namePattern :: "string \<Rightarrow> bool" where
  "namePattern s =
     label_shape is_alnum (\<lambda>c. is_alnum c \<or> c = CHR ''-'' \<or> c = CHR ''_'' \<or> c = CHR ''.'') s"

definition NormalizeExtension ::
  "(string \<Rightarrow> string) \<Rightarrow> extension_capability \<Rightarrow> extension_capability" where
  "NormalizeExtension ul extension =
     (let name = (case cut_on (CHR ''/'') (ext_name extension) of
                    Some (domain, suff) \<Rightarrow> to_lower ul domain @ ''/'' @ suff
                  | None \<Rightarrow> ext_name extension)
      in \<lparr>ext_name = name, ext_value = ext_value extension\<rparr>)"

definition ValidateExtension ::
  "(string \<Rightarrow> string) \<Rightarrow> extension_capability option \<Rightarrow> capability_error option" where
  "ValidateExtension ul extension =
     (case extension of
        None \<Rightarrow> Some (ExtensionError ExtensionRequired)
      | Some e \<Rightarrow>
          if ext_name e \<noteq> trim_space (ext_name e) then Some (ExtensionError ExtensionWhitespace)
          else
            (let normalized = NormalizeExtension ul e;
                 name = ext_name normalized;
                 parts = split_on (CHR ''/'') name
             in if length parts \<noteq> 2 \<or> parts ! 0 = [] \<or> parts ! 1 = []
                then Some (ExtensionError ExtensionShape)
                else
                  (let domain = to_lower ul (parts ! 0)
                   in if list_ex (\<lambda>reserved. domain = reserved \<or> suffix (''.'' @ reserved) domain)
                           reservedExtensionDomains
                      then Some (ExtensionError DomainReserved)
                      else if 253 < length domain then Some (ExtensionError DomainTooLong)
                      else if list_ex (\<lambda>lab. length lab = 0 \<or> 63 < length lab \<or> \<not> dnsLabelPattern lab)
                                (split_on (CHR ''.'') domain)
                      then Some (ExtensionError DomainInvalid)
                      else if 63 < length (parts ! 1) \<or> \<not> namePattern (parts ! 1)
                      then Some (ExtensionError NameSegment)
                      else if \<not> valid_utf8 (ext_value normalized)
                      then Some (ExtensionError ValueNotUTF8)
                      else if CHR 0x00 \<in> set (ext_value normalized)
                      then Some (ExtensionError ValueNUL)
                      else if MaxExtensionValueBytes < length (ext_value normalized)
                      then Some (ExtensionError ValueTooLong)
                      else None)))"

fun ValidateExtensionRequirement ::
  "(string \<Rightarrow> string) \<Rightarrow> extension_requirement option \<Rightarrow> capability_error option" where
  "ValidateExtensionRequirement ul None = Some (ExtensionError ExtensionRequirementRequired)"
| "ValidateExtensionRequirement ul (Some r) = ValidateExtension ul (er_capability r)"

text \<open>The loop of \<open>ValidateExtensionRequirements\<close>; \<open>seen\<close> holds the normalised names.
  After \<open>ValidateExtensionRequirement\<close> has succeeded the capability is present.\<close>

fun validateExtensionLoop ::
  "(string \<Rightarrow> string) \<Rightarrow> string list \<Rightarrow> extension_requirement option list \<Rightarrow> capability_error option" where
  "validateExtensionLoop ul seen [] = None"
| "validateExtensionLoop ul seen (requirement # rest) =
     (case ValidateExtensionRequirement ul requirement of
        Some e \<Rightarrow> Some e
      | None \<Rightarrow>
          (case Option.bind requirement er_capability of
             None \<Rightarrow> None
           | Some c \<Rightarrow>
               (let name = ext_name (NormalizeExtension ul c)
                in if name \<in> set seen then Some (ExtensionError DuplicateExtension)
                   else validateExtensionLoop ul (name # seen) rest)))"

definition ValidateExtensionRequirements ::
  "(string \<Rightarrow> string) \<Rightarrow> extension_requirement option list \<Rightarrow> capability_error option" where
  "ValidateExtensionRequirements ul requirements =
     (if MaxExtensionCapabilities < length requirements
      then Some (ExtensionError ExtensionCount)
      else validateExtensionLoop ul [] requirements)"

section \<open>Keys\<close>

definition ExtensionKey :: "(string \<Rightarrow> string) \<Rightarrow> string \<Rightarrow> string \<Rightarrow> capability_key" where
  "ExtensionKey ul name value =
     KeyExtension (NormalizeExtension ul \<lparr>ext_name = name, ext_value = value\<rparr>)"

definition PlatformKey :: "platform_capability \<Rightarrow> capability_key" where
  "PlatformKey key = KeyPlatform key"

definition CloneKey ::
  "(string \<Rightarrow> string) \<Rightarrow> capability_key option \<Rightarrow> capability_key option" where
  "CloneKey ul key =
     (case key of
        None \<Rightarrow> None
      | Some k \<Rightarrow>
          (case GetExtension key of
             Some e \<Rightarrow> Some (ExtensionKey ul (ext_name e) (ext_value e))
           | None \<Rightarrow> Some (PlatformKey (GetPlatform key))))"

fun platform_string :: "platform_capability \<Rightarrow> string" where
  "platform_string PC_UNSPECIFIED = ''PLATFORM_CAPABILITY_UNSPECIFIED''"
| "platform_string PC_NETWORK_BRIDGE = ''PLATFORM_CAPABILITY_NETWORK_BRIDGE''"
| "platform_string PC_NETWORK_BPFNET = ''PLATFORM_CAPABILITY_NETWORK_BPFNET''"
| "platform_string PC_CGROUP_V2_MEMORY_CONTROLLER =
     ''PLATFORM_CAPABILITY_CGROUP_V2_MEMORY_CONTROLLER''"
| "platform_string PC_RUNSC_MEMORY_HARD_LIMIT = ''PLATFORM_CAPABILITY_RUNSC_MEMORY_HARD_LIMIT''"
| "platform_string PC_FILESTORE_OVERLAYFS_UPPER =
     ''PLATFORM_CAPABILITY_FILESTORE_OVERLAYFS_UPPER''"
| "platform_string PC_RUNSC_EPHEMERAL_STORAGE_HARD_LIMIT =
     ''PLATFORM_CAPABILITY_RUNSC_EPHEMERAL_STORAGE_HARD_LIMIT''"
| "platform_string PC_ROOTFS_LOWER_EROFS = ''PLATFORM_CAPABILITY_ROOTFS_LOWER_EROFS''"
| "platform_string PC_RUNSC_MEMORY_ENFORCEMENT_SELF_TEST =
     ''PLATFORM_CAPABILITY_RUNSC_MEMORY_ENFORCEMENT_SELF_TEST''"
| "platform_string PC_RUNSC_EPHEMERAL_ENFORCEMENT_SELF_TEST =
     ''PLATFORM_CAPABILITY_RUNSC_EPHEMERAL_ENFORCEMENT_SELF_TEST''"
| "platform_string PC_EGRESSD_DNS_POLICY_SELF_TEST =
     ''PLATFORM_CAPABILITY_EGRESSD_DNS_POLICY_SELF_TEST''"
| "platform_string PC_EGRESSD_STRICT_EGRESS_SELF_TEST =
     ''PLATFORM_CAPABILITY_EGRESSD_STRICT_EGRESS_SELF_TEST''"
| "platform_string PC_DNS_POLICY_ENFORCEMENT = ''PLATFORM_CAPABILITY_DNS_POLICY_ENFORCEMENT''"
| "platform_string PC_STRICT_EGRESS_ENFORCEMENT =
     ''PLATFORM_CAPABILITY_STRICT_EGRESS_ENFORCEMENT''"
| "platform_string PC_ROOTFS_SNAPSHOT = ''PLATFORM_CAPABILITY_ROOTFS_SNAPSHOT''"
| "platform_string (PC_OTHER n) = fmt_int n"

definition MetricKey :: "(string \<Rightarrow> string) \<Rightarrow> capability_key option \<Rightarrow> string" where
  "MetricKey ul key =
     (if key = None then ''unknown''
      else if GetExtension key \<noteq> None then ''extension''
      else
        (let name = trim_prefix ''platform_capability_''
                      (to_lower ul (platform_string (GetPlatform key)))
         in if name = [] \<or> name = ''unspecified'' then ''unknown'' else name))"

definition KeyID ::
  "(string \<Rightarrow> string) \<Rightarrow> capability_key option \<Rightarrow> capability_error + string" where
  "KeyID ul key =
     (case key of
        None \<Rightarrow> Inl (KeyError KeyRequired)
      | Some k \<Rightarrow>
          (let platform = GetPlatform key
           in if platform \<noteq> PC_UNSPECIFIED
              then (case PlatformDefinition platform of
                      None \<Rightarrow> Inl (KeyError UnknownPlatform)
                    | Some _ \<Rightarrow> Inr (''platform/'' @ fmt_int (pc_number platform)))
              else
                (case GetExtension key of
                   None \<Rightarrow> Inl (KeyError KeyKindRequired)
                 | Some e \<Rightarrow>
                     (case ValidateExtension ul (Some e) of
                        Some err \<Rightarrow> Inl err
                      | None \<Rightarrow>
                          (let normalized = NormalizeExtension ul e
                           in Inr (''extension/'' @ ext_name normalized @ ''/'' @
                                   base64_raw_url (ext_value normalized)))))))"

definition ObservationOwner ::
  "(string \<Rightarrow> string) \<Rightarrow> capability_key option \<Rightarrow>
   capability_error + (capability_provider \<times> identity_kind)" where
  "ObservationOwner ul key =
     (if key = None then Inl (KeyError KeyRequired)
      else
        (case GetExtension key of
           Some e \<Rightarrow>
             (case ValidateExtension ul (Some e) of
                Some err \<Rightarrow> Inl err
              | None \<Rightarrow> Inr (CP_CONFIG, IdentityConfig))
         | None \<Rightarrow>
             (case PlatformDefinition (GetPlatform key) of
                None \<Rightarrow> Inl (KeyError UnknownPlatform)
              | Some d \<Rightarrow> Inr (cd_Provider d, cd_Identity d))))"

definition LossPolicy ::
  "(string \<Rightarrow> string) \<Rightarrow> capability_key option \<Rightarrow> capability_error + capability_loss_policy" where
  "LossPolicy ul key =
     (if key = None then Inl (KeyError KeyRequired)
      else
        (case GetExtension key of
           Some e \<Rightarrow>
             (case ValidateExtension ul (Some e) of
                Some err \<Rightarrow> Inl err
              | None \<Rightarrow> Inr LP_ADMISSION_ONLY)
         | None \<Rightarrow>
             (case PlatformDefinition (GetPlatform key) of
                None \<Rightarrow> Inl (KeyError UnknownPlatform)
              | Some d \<Rightarrow> Inr (cd_LossPolicy d))))"

definition IsWorkloadRequirement :: "(string \<Rightarrow> string) \<Rightarrow> capability_key option \<Rightarrow> bool" where
  "IsWorkloadRequirement ul key =
     (if key = None then False
      else
        (case GetExtension key of
           Some e \<Rightarrow> ValidateExtension ul (Some e) = None
         | None \<Rightarrow>
             (case PlatformDefinition (GetPlatform key) of
                None \<Rightarrow> False
              | Some d \<Rightarrow> cd_Audience d = AudienceWorkloadRequirement)))"

section \<open>Bounded texts and conditions\<close>

fun validCapabilityState :: "capability_state \<Rightarrow> bool" where
  "validCapabilityState CS_UNSPECIFIED = False"
| "validCapabilityState (CS_OTHER n) = False"
| "validCapabilityState _ = True"

fun validCapabilityReasonCode :: "capability_reason_code \<Rightarrow> bool" where
  "validCapabilityReasonCode RC_UNSPECIFIED = False"
| "validCapabilityReasonCode (RC_OTHER n) = False"
| "validCapabilityReasonCode _ = True"

fun validCapabilityConditionState :: "capability_condition_state \<Rightarrow> bool" where
  "validCapabilityConditionState CC_UNSPECIFIED = False"
| "validCapabilityConditionState (CC_OTHER n) = False"
| "validCapabilityConditionState _ = True"

definition replacement_rune :: string where
  "replacement_rune = [CHR 0xEF, CHR 0xBF, CHR 0xBD]"

fun rune_boundary :: "string \<Rightarrow> nat \<Rightarrow> nat" where
  "rune_boundary s 0 = 0"
| "rune_boundary s (Suc n) = (if rune_start (s ! Suc n) then Suc n else rune_boundary s n)"

definition BoundedReason :: "string \<Rightarrow> string" where
  "BoundedReason reason =
     (let valid = to_valid_utf8 reason replacement_rune
      in if length valid \<le> MaxReasonBytes then valid
         else take (rune_boundary valid MaxReasonBytes) valid)"

text \<open>One iteration of the loop of \<open>ValidateConditionSet\<close>, with the identifiers seen so far.\<close>

definition validateCondition ::
  "(string \<Rightarrow> string) \<Rightarrow> string list \<Rightarrow> capability_condition option \<Rightarrow> capability_error + string" where
  "validateCondition ul seen condition =
     (case condition of
        None \<Rightarrow> Inl (ConditionError ConditionRequired)
      | Some c \<Rightarrow>
          bind_result (KeyID ul (cc_key c)) (\<lambda>i.
            if \<not> IsWorkloadRequirement ul (cc_key c) then Inl (ConditionError ConditionInternal)
            else if i \<in> set seen then Inl (ConditionError ConditionDuplicate)
            else if \<not> validCapabilityConditionState (cc_state c)
                    \<or> \<not> validCapabilityReasonCode (cc_reason_code c)
            then Inl (ConditionError ConditionStateOrReason)
            else if cc_state c = CC_HEALTHY \<and> cc_reason_code c \<noteq> RC_AVAILABLE
            then Inl (ConditionError HealthyReason)
            else if cc_state c \<noteq> CC_HEALTHY \<and> cc_reason_code c = RC_AVAILABLE
            then Inl (ConditionError NonHealthyReason)
            else if \<not> valid_utf8 (cc_message c) \<or> MaxReasonBytes < length (cc_message c)
            then Inl (ConditionError ConditionMessage)
            else Inr i))"

fun validateConditions ::
  "(string \<Rightarrow> string) \<Rightarrow> string list \<Rightarrow> capability_condition option list \<Rightarrow> capability_error option" where
  "validateConditions ul seen [] = None"
| "validateConditions ul seen (c # cs) =
     (case validateCondition ul seen c of
        Inl e \<Rightarrow> Some e
      | Inr i \<Rightarrow> validateConditions ul (i # seen) cs)"

definition ValidateConditionSet ::
  "(string \<Rightarrow> string) \<Rightarrow> condition_set option \<Rightarrow> gotime \<Rightarrow> capability_error option" where
  "ValidateConditionSet ul set_opt now =
     (case set_opt of
        None \<Rightarrow> Some (ConditionError ConditionSetRequired)
      | Some cset \<Rightarrow>
          (case cond_observed_at cset of
             None \<Rightarrow> Some (ConditionError ConditionSetRequired)
           | Some at \<Rightarrow>
               if \<not> timestamp_valid at then Some (ConditionError ConditionTimestamp)
               else if now + minute < as_time at then Some (ConditionError ConditionInFuture)
               else if MaxExtensionCapabilities + 16 < length (cond_conditions cset)
               then Some (ConditionError ConditionCount)
               else validateConditions ul [] (cond_conditions cset)))"

section \<open>Evidence and freshness\<close>

definition boundedIdentityPattern :: "string \<Rightarrow> bool" where
  "boundedIdentityPattern s \<longleftrightarrow>
     s \<noteq> [] \<and> is_alnum (hd s) \<and> length s \<le> 512 \<and>
     list_all (\<lambda>c. is_alnum c \<or> c \<in> set ''._:/+=,@-'') (tl s)"

definition digestPattern :: "string \<Rightarrow> bool" where
  "digestPattern s \<longleftrightarrow>
     prefix ''sha256:'' s \<and> length s = 71 \<and> list_all is_lower_hex (drop 7 s)"

definition bootIDPattern :: "string \<Rightarrow> bool" where
  "bootIDPattern s \<longleftrightarrow>
     map length (split_on (CHR ''-'') s) = [8, 4, 4, 4, 12] \<and>
     list_all (list_all is_lower_hex) (split_on (CHR ''-'') s)"

definition validateBoundedIdentity :: "string \<Rightarrow> capability_error option" where
  "validateBoundedIdentity value =
     (if \<not> valid_utf8 value \<or> length value = 0 \<or> MaxIdentityBytes < length value
         \<or> \<not> boundedIdentityPattern value
      then Some (EvidenceError MountIdentity) else None)"

definition validateBootID :: "string \<Rightarrow> capability_error option" where
  "validateBootID value =
     (if \<not> bootIDPattern value then Some (EvidenceError BootID) else None)"

fun EvidenceIdentityKind :: "capability_evidence option \<Rightarrow> identity_kind" where
  "EvidenceIdentityKind (Some (EvidenceBoot _)) = IdentityBoot"
| "EvidenceIdentityKind (Some (EvidenceMount _ _)) = IdentityMount"
| "EvidenceIdentityKind (Some (EvidenceRuntime _ _ _)) = IdentityRuntime"
| "EvidenceIdentityKind _ = IdentityUnspecified"

definition ValidateEvidence ::
  "capability_evidence option \<Rightarrow> identity_kind \<Rightarrow> capability_error option" where
  "ValidateEvidence evidence expected =
     (if expected = IdentityConfig \<or> expected = IdentityDerived
      then (if evidence \<noteq> None then Some (EvidenceError SyntheticEvidence) else None)
      else if evidence = None \<or> evidence = Some EvidenceUnset
      then Some (EvidenceError EvidenceRequired)
      else if EvidenceIdentityKind evidence \<noteq> expected then Some (EvidenceError EvidenceKind)
      else
        (case the evidence of
           EvidenceBoot boot \<Rightarrow> validateBootID boot
         | EvidenceMount boot mount \<Rightarrow>
             (case validateBootID boot of
                Some e \<Rightarrow> Some e
              | None \<Rightarrow> validateBoundedIdentity mount)
         | EvidenceRuntime boot binary config \<Rightarrow>
             (case validateBootID boot of
                Some e \<Rightarrow> Some e
              | None \<Rightarrow>
                  if \<not> digestPattern binary then Some (EvidenceError BinaryDigest)
                  else if \<not> digestPattern config then Some (EvidenceError ConfigDigest)
                  else None)
         | EvidenceUnset \<Rightarrow> Some (EvidenceError EvidenceRequired)))"

definition maxValidityOf :: "capability_key option \<Rightarrow> capability_error + duration" where
  "maxValidityOf key =
     (case GetExtension key of
        Some _ \<Rightarrow> Inr 0
      | None \<Rightarrow>
          (case PlatformDefinition (GetPlatform key) of
             None \<Rightarrow> Inl (KeyError UnknownPlatform)
           | Some d \<Rightarrow> Inr (fp_MaxValidity (cd_Freshness d))))"

definition validateFreshness ::
  "capability_key option \<Rightarrow> timestamp option \<Rightarrow> timestamp option \<Rightarrow> gotime \<Rightarrow> bool \<Rightarrow>
   capability_error option" where
  "validateFreshness key observedAt validUntil now requireCurrent =
     (case observedAt of
        None \<Rightarrow> Some (FreshnessError ObservedAtRequired)
      | Some obs \<Rightarrow>
          (case maxValidityOf key of
             Inl e \<Rightarrow> Some e
           | Inr maxValidity \<Rightarrow>
               if maxValidity = 0
               then (if validUntil \<noteq> None then Some (FreshnessError NonExpiringValidUntil) else None)
               else
                 (case validUntil of
                    None \<Rightarrow> Some (FreshnessError MissingValidUntil)
                  | Some expiry \<Rightarrow>
                      (let observed = as_time obs; expires = as_time expiry
                       in if \<not> observed < expires \<or> observed + maxValidity < expires
                          then Some (FreshnessError FreshnessBound)
                          else if requireCurrent \<and> \<not> now < expires
                          then Some (FreshnessError ObservationExpired)
                          else None))))"

section \<open>Registry lookups\<close>

lemma PlatformDefinition_known:
  "PlatformDefinition p \<noteq> None \<longleftrightarrow> p \<in> set PlatformCapability_name \<and> p \<noteq> PC_UNSPECIFIED"
  by (cases p)
    (simp_all add: PlatformDefinition_def definitions_def platformDefinition_def
      PlatformCapability_name_def)

lemma PlatformDefinition_Key: "PlatformDefinition p = Some d \<Longrightarrow> cd_Key d = p"
  by (cases p)
    (auto simp: PlatformDefinition_def definitions_def platformDefinition_def)

lemma PlatformDefinition_MaxValidity:
  "PlatformDefinition p = Some d \<Longrightarrow>
   fp_MaxValidity (cd_Freshness d) = 0 \<or> fp_MaxValidity (cd_Freshness d) = HealthObservationValidity"
  by (cases p)
    (auto simp: PlatformDefinition_def definitions_def platformDefinition_def)

section \<open>Identifiers determine keys\<close>

lemma fmt_nat_nonempty [simp]: "fmt_nat n \<noteq> []"
  by (subst fmt_nat.simps) simp

lemma fmt_digit_inject: "m < 10 \<Longrightarrow> n < 10 \<Longrightarrow> (char_of (48 + m) :: char) = char_of (48 + n) \<longleftrightarrow> m = (n :: nat)"
  by (auto simp: char_of_eq_iff take_bit_nat_eq_self)

lemma fmt_nat_inject [simp]: "fmt_nat m = fmt_nat n \<longleftrightarrow> m = n"
proof
  show "fmt_nat m = fmt_nat n \<Longrightarrow> m = n"
  proof (induction m arbitrary: n rule: fmt_nat.induct)
    case (1 m)
    show ?case
    proof (cases "m < 10 \<or> n < 10")
      case True
      with 1(2) show ?thesis
        by (subst (asm) (1 2) fmt_nat.simps)
          (auto split: if_splits simp: fmt_digit_inject append_eq_Cons_conv
            dest: fmt_nat_nonempty [THEN notE, OF sym])
    next
      case False
      with 1(2) have "fmt_nat (m div 10) = fmt_nat (n div 10)"
        and "(char_of (48 + m mod 10) :: char) = char_of (48 + n mod 10)"
        by (subst (asm) (1 2) fmt_nat.simps, simp)+
      with 1(1) False have "m div 10 = n div 10" "m mod 10 = n mod 10"
        by (simp_all add: fmt_digit_inject)
      then show ?thesis by (metis div_mult_mod_eq)
    qed
  qed
qed simp

lemma pc_number_inject:
  "p \<in> set PlatformCapability_name \<Longrightarrow> q \<in> set PlatformCapability_name \<Longrightarrow>
   pc_number p = pc_number q \<longleftrightarrow> p = q"
  by (auto simp: PlatformCapability_name_def)

lemma pc_number_nonneg: "p \<in> set PlatformCapability_name \<Longrightarrow> 0 \<le> pc_number p"
  by (auto simp: PlatformCapability_name_def)

lemma platform_id_inject:
  assumes "PlatformDefinition p \<noteq> None" "PlatformDefinition q \<noteq> None"
    and "fmt_int (pc_number p) = fmt_int (pc_number q)"
  shows "p = q"
  using assms pc_number_nonneg [of p] pc_number_nonneg [of q] pc_number_inject [of p q]
  unfolding PlatformDefinition_known by (auto simp: fmt_int_def)

lemma ValidateExtension_name:
  assumes "ValidateExtension ul (Some e) = None"
  obtains d n where "ext_name (NormalizeExtension ul e) = d @ CHR ''/'' # n"
    and "CHR ''/'' \<notin> set d" "CHR ''/'' \<notin> set n"
    and "\<forall>l\<in>set (split_on (CHR ''.'') (to_lower ul d)). l \<noteq> [] \<and> dnsLabelPattern l"
    and "namePattern n"
proof -
  define parts where "parts = split_on (CHR ''/'') (ext_name (NormalizeExtension ul e))"
  from assms have "length parts = 2"
    and labels: "\<not> list_ex (\<lambda>lab. length lab = 0 \<or> 63 < length lab \<or> \<not> dnsLabelPattern lab)
      (split_on (CHR ''.'') (to_lower ul (parts ! 0)))" "namePattern (parts ! 1)"
    by (auto simp: ValidateExtension_def parts_def Let_def split: if_splits)
  then obtain d n where "parts = [d, n]"
    by (auto simp: numeral_2_eq_2 length_Suc_conv)
  with labels split_on_two [of _ _ d n] that [of d n] show thesis
    by (auto simp: parts_def list_ex_iff)
qed

lemma KeyID_cases:
  assumes "KeyID ul key = Inr i"
  obtains (platform) p where "key = Some (KeyPlatform p)" "PlatformDefinition p \<noteq> None"
    "i = ''platform/'' @ fmt_int (pc_number p)"
  | (extension) e where "key = Some (KeyExtension e)" "ValidateExtension ul (Some e) = None"
    "i = ''extension/'' @ ext_name (NormalizeExtension ul e) @ ''/'' @
         base64_raw_url (ext_value (NormalizeExtension ul e))"
proof (cases key)
  case (Some k)
  with assms that show thesis
    by (cases k) (auto simp: KeyID_def Let_def split: if_splits option.splits)
qed (use assms in \<open>simp add: KeyID_def\<close>)

lemma extension_id_inject:
  assumes "ValidateExtension ul (Some e) = None" "ValidateExtension ul (Some f) = None"
    and "ext_name (NormalizeExtension ul e) @ ''/'' @ base64_raw_url (ext_value (NormalizeExtension ul e)) =
         ext_name (NormalizeExtension ul f) @ ''/'' @ base64_raw_url (ext_value (NormalizeExtension ul f))"
  shows "NormalizeExtension ul e = NormalizeExtension ul f"
  using assms(3) append_sep_inject_right
    [OF base64_no_slash base64_no_slash, of "ext_name (NormalizeExtension ul e)"
      "ext_value (NormalizeExtension ul e)" "ext_name (NormalizeExtension ul f)"
      "ext_value (NormalizeExtension ul f)"]
  by (auto dest: base64_inject)

lemma CloneKey_simps [simp]:
  "CloneKey ul None = None"
  "CloneKey ul (Some (KeyPlatform p)) = Some (KeyPlatform p)"
  "CloneKey ul (Some (KeyExtension e)) = Some (KeyExtension (NormalizeExtension ul e))"
  by (simp_all add: CloneKey_def PlatformKey_def ExtensionKey_def NormalizeExtension_def
      split: option.split)

lemma KeyID_CloneKey_eq:
  assumes "KeyID ul key = Inr i" "KeyID ul key' = Inr i'"
  shows "i = i' \<longleftrightarrow> CloneKey ul key = CloneKey ul key'"
  using assms(1)
proof (cases rule: KeyID_cases)
  case (platform p)
  show ?thesis
    using assms(2)
  proof (cases rule: KeyID_cases)
    case (platform q)
    with \<open>key = Some (KeyPlatform p)\<close> \<open>i = _\<close> \<open>PlatformDefinition p \<noteq> None\<close> show ?thesis
      using platform_id_inject [of p q] by auto
  next
    case (extension f)
    with platform show ?thesis by simp
  qed
next
  case (extension e)
  show ?thesis
    using assms(2)
  proof (cases rule: KeyID_cases)
    case (platform q)
    with extension show ?thesis by simp
  next
    case (extension f)
    with \<open>key = _\<close> \<open>i = _\<close> \<open>ValidateExtension ul (Some e) = None\<close> show ?thesis
      using extension_id_inject [of ul e f]
      by auto
  qed
qed

section \<open>Bounded reasons\<close>

lemma rune_boundary_le: "rune_boundary s n \<le> n"
  by (induction n) auto

lemma rune_boundary_start:
  "rune_boundary s n = 0 \<or> rune_start (s ! rune_boundary s n)"
  by (induction n) auto

lemma valid_replacement [simp]: "valid_utf8 replacement_rune"
  by code_simp

lemma BoundedReason_length: "length (BoundedReason r) \<le> MaxReasonBytes"
  using rune_boundary_le [of "to_valid_utf8 r replacement_rune" MaxReasonBytes]
  by (auto simp: BoundedReason_def Let_def)

lemma BoundedReason_valid: "valid_utf8 (BoundedReason r)"
proof -
  define v where "v = to_valid_utf8 r replacement_rune"
  have v: "valid_utf8 v" by (simp add: v_def)
  show ?thesis
  proof (cases "length v \<le> MaxReasonBytes")
    case False
    then have "rune_boundary v MaxReasonBytes < length v"
      using rune_boundary_le [of v MaxReasonBytes] by simp
    with v False rune_boundary_start [of v MaxReasonBytes] show ?thesis
      by (auto simp: BoundedReason_def v_def [symmetric] Let_def intro: valid_utf8_take)
  qed (use v in \<open>simp add: BoundedReason_def v_def [symmetric]\<close>)
qed

lemma BoundedReason_id:
  "valid_utf8 r \<Longrightarrow> length r \<le> MaxReasonBytes \<Longrightarrow> BoundedReason r = r"
  by (simp add: BoundedReason_def)

section \<open>Normal forms are stable\<close>

lemma NormalizeExtension_form:
  assumes "ValidateExtension ul (Some e) = None"
  obtains d n where "ext_name e = d @ CHR ''/'' # n"
    and "ext_name (NormalizeExtension ul e) = to_lower ul d @ CHR ''/'' # n"
    and "CHR ''/'' \<notin> set d" "CHR ''/'' \<notin> set (to_lower ul d)" "CHR ''/'' \<notin> set n"
    and "\<forall>l\<in>set (split_on (CHR ''.'') (to_lower ul (to_lower ul d))). l \<noteq> [] \<and> dnsLabelPattern l"
    and "namePattern n"
proof -
  obtain x y where xy: "ext_name (NormalizeExtension ul e) = x @ CHR ''/'' # y"
    "CHR ''/'' \<notin> set x" "CHR ''/'' \<notin> set y"
    "\<forall>l\<in>set (split_on (CHR ''.'') (to_lower ul x)). l \<noteq> [] \<and> dnsLabelPattern l" "namePattern y"
    using ValidateExtension_name [OF assms] by metis
  show thesis
  proof (cases "cut_on (CHR ''/'') (ext_name e)")
    case None
    then have "CHR ''/'' \<notin> set (ext_name e)" by (simp add: cut_on_def split: if_splits)
    moreover from None have "ext_name (NormalizeExtension ul e) = ext_name e"
      by (simp add: NormalizeExtension_def)
    ultimately show thesis using xy(1) by (metis in_set_conv_decomp)
  next
    case (Some dn)
    then obtain d n where dn: "dn = (d, n)" "ext_name e = d @ CHR ''/'' # n" "CHR ''/'' \<notin> set d"
      using cut_on_Some by (cases dn) blast
    then have eq: "to_lower ul d @ CHR ''/'' # n = x @ CHR ''/'' # y"
      using Some xy(1) by (simp add: NormalizeExtension_def)
    then have "count_list (to_lower ul d) (CHR ''/'') + count_list n (CHR ''/'') =
        count_list x (CHR ''/'') + count_list y (CHR ''/'')"
      by (auto dest: arg_cong [of _ _ "\<lambda>s. count_list s (CHR ''/'')"])
    then have "CHR ''/'' \<notin> set (to_lower ul d)" "CHR ''/'' \<notin> set n"
      using xy(2,3) by (simp_all add: count_list_0_iff [symmetric])
    moreover with eq xy(2) have "to_lower ul d = x" "n = y"
      by (simp_all add: append_sep_inject)
    ultimately show thesis using that dn xy by simp
  qed
qed

lemma dns_domain_ends:
  assumes "\<forall>l\<in>set (split_on (CHR ''.'') d). l \<noteq> [] \<and> dnsLabelPattern l"
  shows "d \<noteq> []" "is_alnum (hd d)"
proof -
  show "d \<noteq> []" using assms by auto
  then obtain c t where d: "d = c # t" by (cases d) auto
  with assms show "is_alnum (hd d)"
    by (cases "split_on (CHR ''.'') t")
      (auto simp: dnsLabelPattern_def label_shape_def is_lower_alnum_def is_alnum_def
        split: if_splits)
qed

lemma NormalizeExtension_stable:
  assumes "ValidateExtension ul (Some e) = None" "lower_idem ul"
  shows "NormalizeExtension ul (NormalizeExtension ul e) = NormalizeExtension ul e"
    and "trim_space (ext_name (NormalizeExtension ul e)) = ext_name (NormalizeExtension ul e)"
proof -
  obtain d n where dn: "ext_name (NormalizeExtension ul e) = to_lower ul d @ CHR ''/'' # n"
    "CHR ''/'' \<notin> set (to_lower ul d)"
    and labels: "\<forall>l\<in>set (split_on (CHR ''.'') (to_lower ul d)). l \<noteq> [] \<and> dnsLabelPattern l"
    and "namePattern n"
    using NormalizeExtension_form [OF assms(1)] assms(2) unfolding lower_idem_def by metis
  then show "NormalizeExtension ul (NormalizeExtension ul e) = NormalizeExtension ul e"
    using assms(2)
    by (simp add: NormalizeExtension_def [of ul "NormalizeExtension ul e"] cut_on_sep lower_idem_def)
  from \<open>namePattern n\<close> have "n \<noteq> []" "is_alnum (last n)"
    by (auto simp: namePattern_def label_shape_def)
  with dns_domain_ends [OF labels] dn
  show "trim_space (ext_name (NormalizeExtension ul e)) = ext_name (NormalizeExtension ul e)"
    by (intro trim_space_alnum) simp_all
qed

lemma ValidateExtension_normalized:
  assumes "ValidateExtension ul (Some e) = None" "lower_idem ul"
  shows "ValidateExtension ul (Some (NormalizeExtension ul e)) = None"
  using assms(1) NormalizeExtension_stable [OF assms]
  by (simp add: ValidateExtension_def Let_def split: if_splits)

lemma KeyID_CloneKey:
  assumes "KeyID ul key = Inr i" "lower_idem ul"
  shows "KeyID ul (CloneKey ul key) = Inr i"
  using assms(1)
proof (cases rule: KeyID_cases)
  case (platform p)
  with assms show ?thesis by simp
next
  case (extension e)
  with assms(2) show ?thesis
    by (simp add: KeyID_def Let_def ValidateExtension_normalized NormalizeExtension_stable)
qed


end
