(* ===== verification/Capability_Snapshot.thy ===== *)
theory Capability_Snapshot
  imports Capability_Keys
begin

text \<open>
  Capability snapshots and workload requirements: validation and dependency resolution
  of \<open>snapshot.go\<close>, the derivation of requirements from a request of
  \<open>requirements.go\<close>, and the fail-closed transition evaluation of
  \<open>transition.go\<close>.  A Go map from identifiers to observations is an association
  list with distinct keys, in the order the entries were added.

  The lemmas show that availability is exactly a valid, current observation whose
  dependencies are available too, that resolved requirements are validated requirements
  backed by such observations, that derived requirements are well-formed and complete,
  and that evaluation never reports an expired or absent observation as available.
\<close>

section \<open>Requirement keys\<close>

definition key_id_or_empty :: "(string \<Rightarrow> string) \<Rightarrow> capability_key option \<Rightarrow> string" where
  "key_id_or_empty ul key = (case KeyID ul key of Inl _ \<Rightarrow> [] | Inr i \<Rightarrow> i)"

text \<open>The loop of \<open>ValidateRequirementKeys\<close>: the identifiers and the extension names seen
  so far, returning the number of extensions.\<close>

fun requirementKeysLoop ::
  "(string \<Rightarrow> string) \<Rightarrow> string list \<Rightarrow> string list \<Rightarrow> nat \<Rightarrow> capability_key option list \<Rightarrow>
   capability_error + nat" where
  "requirementKeysLoop ul seen names extensions [] = Inr extensions"
| "requirementKeysLoop ul seen names extensions (key # keys) =
     bind_result (KeyID ul key) (\<lambda>i.
       if \<not> IsWorkloadRequirement ul key then Inl (RequirementError InternalRequirement)
       else if i \<in> set seen then Inl (RequirementError DuplicateRequirement)
       else
         (case GetExtension key of
            None \<Rightarrow> requirementKeysLoop ul (i # seen) names extensions keys
          | Some e \<Rightarrow>
              (let name = ext_name (NormalizeExtension ul e)
               in if name \<in> set names then Inl (RequirementError DuplicateExtensionName)
                  else requirementKeysLoop ul (i # seen) (name # names) (extensions + 1) keys)))"

definition ValidateRequirementKeys ::
  "(string \<Rightarrow> string) \<Rightarrow> capability_key option list \<Rightarrow> capability_error option" where
  "ValidateRequirementKeys ul keys =
     (if MaxExtensionCapabilities + 16 < length keys then Some (RequirementError RequirementCount)
      else
        (case requirementKeysLoop ul [] [] 0 keys of
           Inl e \<Rightarrow> Some e
         | Inr extensions \<Rightarrow>
             if MaxExtensionCapabilities < extensions
             then Some (RequirementError RequirementExtensionCount) else None))"

definition validateLossPolicy ::
  "(string \<Rightarrow> string) \<Rightarrow> capability_requirement \<Rightarrow> capability_error option" where
  "validateLossPolicy ul requirement =
     (case LossPolicy ul (cr_key requirement) of
        Inl _ \<Rightarrow> Some (RequirementError LossPolicyMismatch)
      | Inr policy \<Rightarrow>
          if cr_loss_policy requirement \<noteq> policy
          then Some (RequirementError LossPolicyMismatch) else None)"

definition ValidateRequirements ::
  "(string \<Rightarrow> string) \<Rightarrow> capability_requirement option list \<Rightarrow> capability_error option" where
  "ValidateRequirements ul requirements =
     (if None \<in> set requirements then Some (RequirementError NilRequirement)
      else
        (case ValidateRequirementKeys ul (map (\<lambda>r. cr_key (the r)) requirements) of
           Some e \<Rightarrow> Some e
         | None \<Rightarrow> check_all (\<lambda>r. validateLossPolicy ul (the r)) requirements))"

section \<open>Observations\<close>

type_synonym observation_map = "(string \<times> capability_observation) list"

fun observationsByKeyLoop ::
  "(string \<Rightarrow> string) \<Rightarrow> observation_map \<Rightarrow> string list \<Rightarrow> capability_observation option list \<Rightarrow>
   capability_error + observation_map" where
  "observationsByKeyLoop ul byKey names [] = Inr byKey"
| "observationsByKeyLoop ul byKey names (None # rest) = Inl (SnapshotError NilObservation)"
| "observationsByKeyLoop ul byKey names (Some observation # rest) =
     bind_result (KeyID ul (ob_key observation)) (\<lambda>i.
       if i \<in> fst ` set byKey then Inl (SnapshotError DuplicateObservation)
       else
         (case GetExtension (ob_key observation) of
            None \<Rightarrow> observationsByKeyLoop ul (byKey @ [(i, observation)]) names rest
          | Some e \<Rightarrow>
              (let name = ext_name (NormalizeExtension ul e)
               in if name \<in> set names then Inl (SnapshotError DuplicateObservationName)
                  else observationsByKeyLoop ul (byKey @ [(i, observation)]) (name # names) rest)))"

definition observationsByKey ::
  "(string \<Rightarrow> string) \<Rightarrow> capability_observation option list \<Rightarrow> capability_error + observation_map" where
  "observationsByKey ul observations = observationsByKeyLoop ul [] [] observations"

definition observationValid ::
  "(string \<Rightarrow> string) \<Rightarrow> capability_observation option \<Rightarrow> gotime \<Rightarrow> bool" where
  "observationValid ul observation now =
     (case observation of
        None \<Rightarrow> False
      | Some ob \<Rightarrow>
          if ob_state ob \<noteq> CS_AVAILABLE \<or> ob_observed_at ob = None
             \<or> ob_reason_code ob \<noteq> RC_AVAILABLE
          then False
          else
            (case ObservationOwner ul (ob_key ob) of
               Inl _ \<Rightarrow> False
             | Inr (provider, identity) \<Rightarrow>
                 if ob_provider ob \<noteq> provider \<or> now + minute < as_time (the (ob_observed_at ob))
                 then False
                 else if ValidateEvidence (ob_evidence ob) identity \<noteq> None then False
                 else if validateFreshness (ob_key ob) (ob_observed_at ob) (ob_valid_until ob) now True
                         \<noteq> None
                 then False
                 else valid_utf8 (ob_reason ob) \<and> length (ob_reason ob) \<le> MaxReasonBytes))"

function (sequential) availableObservationSet ::
  "(string \<Rightarrow> string) \<Rightarrow> observation_map \<Rightarrow> string \<Rightarrow> gotime \<Rightarrow> string list \<Rightarrow> bool" where
  "availableObservationSet ul byKey i now visiting =
     (if i \<in> set visiting then False
      else
        (case map_of byKey i of
           None \<Rightarrow> False
         | Some observation \<Rightarrow>
             if \<not> observationValid ul (Some observation) now then False
             else if GetExtension (ob_key observation) \<noteq> None then True
             else
               (case PlatformDependencyKeys (GetPlatform (ob_key observation)) of
                  Inl _ \<Rightarrow> False
                | Inr dependencies \<Rightarrow>
                    list_all
                      (\<lambda>dependency.
                         case KeyID ul (Some dependency) of
                           Inl _ \<Rightarrow> False
                         | Inr dependencyID \<Rightarrow>
                             availableObservationSet ul byKey dependencyID now (i # visiting))
                      dependencies)))"
  by pat_completeness auto
termination
proof (relation "measure (\<lambda>(ul, byKey, i, now, visiting). card (fst ` set byKey - set visiting))",
    goal_cases)
  case (2 ul byKey i now visiting)
  from 2(2) have "i \<in> fst ` set byKey" by (force dest: map_of_SomeD)
  with 2(1) have "fst ` set byKey - set (i # visiting) \<subset> fst ` set byKey - set visiting"
    by auto
  then have "card (fst ` set byKey - set (i # visiting)) < card (fst ` set byKey - set visiting)"
    by (intro psubset_card_mono) auto
  then show ?case by simp
qed simp

declare availableObservationSet.simps [simp del]

definition AvailableObservation ::
  "(string \<Rightarrow> string) \<Rightarrow> capability_snapshot option \<Rightarrow> capability_key option \<Rightarrow> gotime \<Rightarrow>
   capability_observation option" where
  "AvailableObservation ul snapshot key now =
     (case snapshot of
        None \<Rightarrow> None
      | Some snap \<Rightarrow>
          if key = None \<or> cs_collected_at snap = None
             \<or> now + minute < as_time (the (cs_collected_at snap))
          then None
          else
            (case KeyID ul key of
               Inl _ \<Rightarrow> None
             | Inr want \<Rightarrow>
                 (case observationsByKey ul (cs_observations snap) of
                    Inl _ \<Rightarrow> None
                  | Inr byKey \<Rightarrow>
                      if availableObservationSet ul byKey want now []
                      then map_of byKey want else None)))"

definition validateObservation ::
  "(string \<Rightarrow> string) \<Rightarrow> capability_observation \<Rightarrow> gotime \<Rightarrow> gotime \<Rightarrow> capability_error option" where
  "validateObservation ul ob collectedAt now =
     (if ob_provider ob = CP_UNSPECIFIED \<or> ob_observed_at ob = None
         \<or> \<not> validCapabilityState (ob_state ob) \<or> \<not> validCapabilityReasonCode (ob_reason_code ob)
      then Some (SnapshotError ObservationFields)
      else
        (let observed = the (ob_observed_at ob)
         in if \<not> timestamp_valid observed then Some (SnapshotError ObservationTimestamp)
            else if (case ob_valid_until ob of None \<Rightarrow> False | Some t \<Rightarrow> \<not> timestamp_valid t)
            then Some (SnapshotError ObservationTimestamp)
            else
              (case ObservationOwner ul (ob_key ob) of
                 Inl e \<Rightarrow> Some e
               | Inr (provider, identity) \<Rightarrow>
                   if ob_provider ob \<noteq> provider then Some (SnapshotError WrongOwner)
                   else if (ob_state ob = CS_AVAILABLE) \<noteq> (ob_reason_code ob = RC_AVAILABLE)
                   then Some (SnapshotError StateReasonInconsistent)
                   else if \<not> valid_utf8 (ob_reason ob) \<or> MaxReasonBytes < length (ob_reason ob)
                   then Some (SnapshotError ReasonBounds)
                   else if collectedAt < as_time observed \<or> now + minute < as_time observed
                   then Some (SnapshotError ObservedAfterPublication)
                   else
                     (case ValidateEvidence (ob_evidence ob) identity of
                        Some e \<Rightarrow> Some e
                      | None \<Rightarrow>
                          if ob_state ob = CS_AVAILABLE
                          then validateFreshness (ob_key ob) (ob_observed_at ob) (ob_valid_until ob)
                                 now False
                          else if (case ob_valid_until ob of
                                     None \<Rightarrow> False
                                   | Some t \<Rightarrow> as_time t < as_time observed)
                          then Some (SnapshotError ExpiresBeforeObserved)
                          else None))))"

definition ValidateSnapshot ::
  "(string \<Rightarrow> string) \<Rightarrow> capability_snapshot option \<Rightarrow> gotime \<Rightarrow> capability_error option" where
  "ValidateSnapshot ul snapshot now =
     (case snapshot of
        None \<Rightarrow> Some (SnapshotError SnapshotRequired)
      | Some snap \<Rightarrow>
          (case cs_collected_at snap of
             None \<Rightarrow> Some (SnapshotError CollectedAtRequired)
           | Some collected \<Rightarrow>
               if \<not> timestamp_valid collected then Some (SnapshotError CollectedAtInvalid)
               else if MaxSnapshotObservations < length (cs_observations snap)
               then Some (SnapshotError SnapshotCount)
               else if now + minute < as_time collected then Some (SnapshotError CollectedInFuture)
               else
                 (case observationsByKey ul (cs_observations snap) of
                    Inl e \<Rightarrow> Some e
                  | Inr byKey \<Rightarrow>
                      (case check_all (\<lambda>(i, ob). validateObservation ul ob (as_time collected) now)
                              byKey of
                         Some e \<Rightarrow> Some e
                       | None \<Rightarrow>
                           check_all
                             (\<lambda>(i, ob).
                                if ob_state ob = CS_AVAILABLE
                                   \<and> \<not> availableObservationSet ul byKey i now []
                                then Some (SnapshotError DependencyUnavailable) else None)
                             byKey))))"

definition NormalizeObservation ::
  "(string \<Rightarrow> string) \<Rightarrow> capability_observation \<Rightarrow> capability_observation" where
  "NormalizeObservation ul observation =
     (let ob = (case GetExtension (ob_key observation) of
                  Some e \<Rightarrow> observation\<lparr>ob_key := Some (KeyExtension (NormalizeExtension ul e))\<rparr>
                | None \<Rightarrow> observation)
      in ob\<lparr>ob_reason := BoundedReason (ob_reason ob)\<rparr>)"

section \<open>Resolution of requirements\<close>

fun resolveLoop ::
  "(string \<Rightarrow> string) \<Rightarrow> capability_snapshot option \<Rightarrow> gotime \<Rightarrow> capability_key option list \<Rightarrow>
   capability_error + capability_requirement list" where
  "resolveLoop ul snapshot now [] = Inr []"
| "resolveLoop ul snapshot now (key # keys) =
     (case AvailableObservation ul snapshot key now of
        None \<Rightarrow> Inl (RequirementError NotAvailable)
      | Some _ \<Rightarrow>
          bind_result (LossPolicy ul key) (\<lambda>policy.
          bind_result (resolveLoop ul snapshot now keys) (\<lambda>rest.
            Inr (\<lparr>cr_key = CloneKey ul key, cr_loss_policy = policy\<rparr> # rest))))"

definition requirement_less ::
  "(string \<Rightarrow> string) \<Rightarrow> capability_requirement \<Rightarrow> capability_requirement \<Rightarrow> bool" where
  "requirement_less ul a b \<longleftrightarrow> key_id_or_empty ul (cr_key a) < key_id_or_empty ul (cr_key b)"

definition ResolveRequirements ::
  "(string \<Rightarrow> string) \<Rightarrow> capability_snapshot option \<Rightarrow> capability_key option list \<Rightarrow> gotime \<Rightarrow>
   capability_error + capability_requirement list" where
  "ResolveRequirements ul snapshot keys now =
     (case ValidateRequirementKeys ul keys of
        Some e \<Rightarrow> Inl e
      | None \<Rightarrow>
          (case ValidateSnapshot ul snapshot now of
             Some e \<Rightarrow> Inl e
           | None \<Rightarrow>
               bind_result (resolveLoop ul snapshot now keys) (\<lambda>resolved.
                 Inr (sort_slice (requirement_less ul) resolved))))"

section \<open>Derivation of requirements\<close>

record requirement_input =
  ri_NetworkMode :: string
  ri_NetworkBackend :: string
  ri_RequiresDNSPolicyEnforcement :: bool
  ri_RequiresStrictEgressEnforcement :: bool
  ri_MemoryLimitBytes :: int64
  ri_RootfsWritable :: bool
  ri_EphemeralStorageLimitBytes :: int64
  ri_EROFSBacking :: bool
  ri_RootfsSnapshot :: bool
  ri_ExtensionCapabilityRequests :: "extension_requirement option list"

definition networkKeys ::
  "(string \<Rightarrow> string) \<Rightarrow> requirement_input \<Rightarrow> bool \<Rightarrow> capability_error + platform_capability list" where
  "networkKeys ul input deferNetworkBackend =
     (let mode = to_lower ul (trim_space (ri_NetworkMode input))
      in if mode = ''host'' then Inr []
         else
           (let backend = to_lower ul (trim_space (ri_NetworkBackend input))
            in if backend = [] \<and> \<not> deferNetworkBackend then Inl (RequirementError BackendRequired)
               else if backend = [] then Inr []
               else if backend = ''bridge'' \<or> backend = ''iptables''
               then Inr [PC_NETWORK_BRIDGE]
               else if backend = ''bpfnet'' \<or> backend = ''ebpf''
               then Inr [PC_NETWORK_BPFNET]
               else Inl (RequirementError UnsupportedBackend)))"

definition requirementExtensionKey ::
  "(string \<Rightarrow> string) \<Rightarrow> extension_requirement option \<Rightarrow> capability_key" where
  "requirementExtensionKey ul requirement =
     (case Option.bind requirement er_capability of
        None \<Rightarrow> ExtensionKey ul [] []
      | Some c \<Rightarrow> ExtensionKey ul (ext_name c) (ext_value c))"

definition key_less :: "(string \<Rightarrow> string) \<Rightarrow> capability_key \<Rightarrow> capability_key \<Rightarrow> bool" where
  "key_less ul a b \<longleftrightarrow> key_id_or_empty ul (Some a) < key_id_or_empty ul (Some b)"

definition derivedPlatforms ::
  "requirement_input \<Rightarrow> platform_capability list \<Rightarrow> platform_capability list" where
  "derivedPlatforms input network =
     emit (ri_RequiresDNSPolicyEnforcement input) PC_DNS_POLICY_ENFORCEMENT @
     emit (ri_RequiresStrictEgressEnforcement input) PC_STRICT_EGRESS_ENFORCEMENT @
     network @
     emit (0 < ri_MemoryLimitBytes input) PC_RUNSC_MEMORY_HARD_LIMIT @
     emit (ri_RootfsWritable input \<or> 0 < ri_EphemeralStorageLimitBytes input)
       PC_RUNSC_EPHEMERAL_STORAGE_HARD_LIMIT @
     emit (ri_EROFSBacking input) PC_ROOTFS_LOWER_EROFS @
     emit (ri_RootfsSnapshot input) PC_ROOTFS_SNAPSHOT"

definition derivedKeys ::
  "(string \<Rightarrow> string) \<Rightarrow> requirement_input \<Rightarrow> platform_capability list \<Rightarrow> capability_key list" where
  "derivedKeys ul input network =
     map PlatformKey (derivedPlatforms input network) @
     map (requirementExtensionKey ul) (ri_ExtensionCapabilityRequests input)"

definition deriveRequirements ::
  "(string \<Rightarrow> string) \<Rightarrow> requirement_input \<Rightarrow> bool \<Rightarrow> capability_error + capability_key list" where
  "deriveRequirements ul input deferNetworkBackend =
     (if ri_MemoryLimitBytes input < 0 \<or> ri_EphemeralStorageLimitBytes input < 0
      then Inl (RequirementError NegativeLimit)
      else
        (case ValidateExtensionRequirements ul (ri_ExtensionCapabilityRequests input) of
           Some e \<Rightarrow> Inl e
         | None \<Rightarrow>
             if ri_RequiresDNSPolicyEnforcement input \<and> ri_RequiresStrictEgressEnforcement input
             then Inl (RequirementError BothEnforcements)
             else
               bind_result (networkKeys ul input deferNetworkBackend) (\<lambda>network.
                 let keys = sort_slice (key_less ul) (derivedKeys ul input network)
                 in (case ValidateRequirementKeys ul (map Some keys) of
                       Some e \<Rightarrow> Inl e
                     | None \<Rightarrow> Inr keys))))"

definition DeriveRequirements ::
  "(string \<Rightarrow> string) \<Rightarrow> requirement_input \<Rightarrow> capability_error + capability_key list" where
  "DeriveRequirements ul input = deriveRequirements ul input False"

definition DeriveRequestStaticRequirements ::
  "(string \<Rightarrow> string) \<Rightarrow> requirement_input \<Rightarrow> capability_error + capability_key list" where
  "DeriveRequestStaticRequirements ul input = deriveRequirements ul input True"

definition AvailableNetworkBackend ::
  "(string \<Rightarrow> string) \<Rightarrow> capability_snapshot option \<Rightarrow> gotime \<Rightarrow> string" where
  "AvailableNetworkBackend ul snapshot now =
     (if AvailableObservation ul snapshot (Some (PlatformKey PC_NETWORK_BPFNET)) now \<noteq> None
      then ''bpfnet''
      else if AvailableObservation ul snapshot (Some (PlatformKey PC_NETWORK_BRIDGE)) now \<noteq> None
      then ''bridge''
      else [])"

definition RequirementKeysEqual ::
  "(string \<Rightarrow> string) \<Rightarrow> capability_key option list \<Rightarrow> capability_key option list \<Rightarrow> bool" where
  "RequirementKeysEqual ul left right =
     (if length left \<noteq> length right then False
      else
        (case map_result (KeyID ul) left of
           Inl _ \<Rightarrow> False
         | Inr leftIDs \<Rightarrow>
             (case map_result (KeyID ul) right of
                Inl _ \<Rightarrow> False
              | Inr rightIDs \<Rightarrow> sort leftIDs = sort rightIDs)))"

section \<open>Evaluation\<close>

record evaluated_observation =
  ev_State :: capability_state
  ev_ReasonCode :: capability_reason_code
  ev_Reason :: string

definition missingObservationReason :: string where
  "missingObservationReason = ''capability observation is absent from the current snapshot''"

definition EvaluateObservation ::
  "(string \<Rightarrow> string) \<Rightarrow> capability_snapshot option \<Rightarrow> capability_observation option \<Rightarrow> gotime \<Rightarrow>
   evaluated_observation" where
  "EvaluateObservation ul snapshot observation now =
     (case observation of
        None \<Rightarrow> \<lparr>ev_State = CS_UNKNOWN, ev_ReasonCode = RC_DEPENDENCY_UNAVAILABLE,
                 ev_Reason = missingObservationReason\<rparr>
      | Some ob \<Rightarrow>
          if AvailableObservation ul snapshot (ob_key ob) now \<noteq> None
          then \<lparr>ev_State = CS_AVAILABLE, ev_ReasonCode = RC_AVAILABLE, ev_Reason = ob_reason ob\<rparr>
          else if ob_state ob = CS_AVAILABLE
          then \<lparr>ev_State = CS_UNKNOWN, ev_ReasonCode = RC_EXPIRED,
                ev_Reason = ''capability observation or one of its definition dependencies is no longer current''\<rparr>
          else \<lparr>ev_State = ob_state ob, ev_ReasonCode = ob_reason_code ob, ev_Reason = ob_reason ob\<rparr>)"

record transition_evaluation =
  te_Previous :: evaluated_observation
  te_Current :: evaluated_observation

definition observationEvidence :: "capability_observation option \<Rightarrow> capability_evidence option" where
  "observationEvidence observation = Option.bind observation ob_evidence"

definition EvaluateObservationTransition ::
  "(string \<Rightarrow> string) \<Rightarrow> capability_snapshot option \<Rightarrow> capability_observation option \<Rightarrow> gotime \<Rightarrow>
   capability_snapshot option \<Rightarrow> capability_observation option \<Rightarrow> gotime \<Rightarrow>
   transition_evaluation \<times> bool" where
  "EvaluateObservationTransition ul previousSnapshot previous previousAt currentSnapshot current currentAt =
     (let p = EvaluateObservation ul previousSnapshot previous previousAt;
          c = EvaluateObservation ul currentSnapshot current currentAt
      in (\<lparr>te_Previous = p, te_Current = c\<rparr>,
          ev_State p \<noteq> ev_State c \<or> ev_ReasonCode p \<noteq> ev_ReasonCode c
          \<or> observationEvidence previous \<noteq> observationEvidence current))"

section \<open>The observation map\<close>

lemma observationsByKeyLoop_ok:
  assumes "observationsByKeyLoop ul byKey names obs = Inr m"
    and "\<forall>(i, ob)\<in>set byKey. KeyID ul (ob_key ob) = Inr i" "distinct (map fst byKey)"
  shows "None \<notin> set obs"
    and "map (\<lambda>e. Some (snd e)) m = map (\<lambda>e. Some (snd e)) byKey @ obs"
    and "\<forall>(i, ob)\<in>set m. KeyID ul (ob_key ob) = Inr i"
    and "distinct (map fst m)"
proof -
  have "None \<notin> set obs \<and> map (\<lambda>e. Some (snd e)) m = map (\<lambda>e. Some (snd e)) byKey @ obs \<and>
      (\<forall>(i, ob)\<in>set m. KeyID ul (ob_key ob) = Inr i) \<and> distinct (map fst m)"
    using assms
  proof (induction ul byKey names obs arbitrary: m rule: observationsByKeyLoop.induct)
    case (3 ul byKey names observation rest)
    from "3.prems"(1) obtain i where i: "KeyID ul (ob_key observation) = Inr i" by auto
    let ?b = "byKey @ [(i, observation)]"
    from "3.prems"(1) i obtain names' where
      step: "i \<notin> fst ` set byKey" "observationsByKeyLoop ul ?b names' rest = Inr m"
      and ih: "\<And>m. observationsByKeyLoop ul ?b names' rest = Inr m \<Longrightarrow>
        \<forall>(i, ob)\<in>set ?b. KeyID ul (ob_key ob) = Inr i \<Longrightarrow> distinct (map fst ?b) \<Longrightarrow>
        None \<notin> set rest \<and> map (\<lambda>e. Some (snd e)) m = map (\<lambda>e. Some (snd e)) ?b @ rest \<and>
        (\<forall>(i, ob)\<in>set m. KeyID ul (ob_key ob) = Inr i) \<and> distinct (map fst m)"
      using "3.IH"
      by (fastforce split: if_splits option.splits simp: Let_def)
    show ?case
      using ih [OF step(2)] step(1) "3.prems"(2,3) i by auto
  qed auto
  then show "None \<notin> set obs" "map (\<lambda>e. Some (snd e)) m = map (\<lambda>e. Some (snd e)) byKey @ obs"
    "\<forall>(i, ob)\<in>set m. KeyID ul (ob_key ob) = Inr i" "distinct (map fst m)"
    by auto
qed

lemma observationsByKey_ok:
  assumes "observationsByKey ul obs = Inr m"
  shows "map_of m i = Some ob \<longleftrightarrow> Some ob \<in> set obs \<and> KeyID ul (ob_key ob) = Inr i"
proof -
  note ok = observationsByKeyLoop_ok [OF assms [unfolded observationsByKey_def], simplified]
  have "Some ob \<in> set obs \<longleftrightarrow> (\<exists>j. (j, ob) \<in> set m)"
    using ok(2) [symmetric] by force
  moreover have "map_of m i = Some ob \<longleftrightarrow> (i, ob) \<in> set m"
    using ok(4) by (simp add: map_of_eq_Some_iff)
  ultimately show ?thesis using ok(3) by fastforce
qed

section \<open>Availability\<close>

lemma registry_dependencies:
  assumes "PlatformDefinition p = Some d" "q \<in> set (cd_Dependencies d)"
  shows "q \<noteq> p" "\<exists>d'. PlatformDefinition q = Some d' \<and> cd_Dependencies d' = []"
  using assms
  by (cases p; auto simp: PlatformDefinition_def definitions_def platformDefinition_def)+

text \<open>The flat specification of availability: a valid, current observation of the key, and
  one of every capability its definition depends on.\<close>

definition observed_current ::
  "(string \<Rightarrow> string) \<Rightarrow> capability_snapshot \<Rightarrow> gotime \<Rightarrow> capability_key option \<Rightarrow> bool" where
  "observed_current ul snap now key \<longleftrightarrow>
     (\<exists>ob i. Some ob \<in> set (cs_observations snap) \<and> KeyID ul key = Inr i \<and>
             KeyID ul (ob_key ob) = Inr i \<and> observationValid ul (Some ob) now)"

definition key_dependencies :: "capability_key option \<Rightarrow> platform_capability list" where
  "key_dependencies key = dependencies_of definitions (GetPlatform key)"

lemma KeyID_platform:
  "PlatformDefinition p \<noteq> None \<Longrightarrow>
   KeyID ul (Some (KeyPlatform p)) = Inr (''platform/'' @ fmt_int (pc_number p))"
  using PlatformDefinition_known [of p] by (auto simp: KeyID_def)

lemma KeyID_GetExtension:
  assumes "KeyID ul key = Inr i" "KeyID ul key' = Inr i"
  shows "GetExtension key = None \<longleftrightarrow> GetExtension key' = None" "GetPlatform key = GetPlatform key'"
  using KeyID_CloneKey_eq [OF assms] assms
  by (auto elim!: KeyID_cases)

lemma observed_current_map:
  assumes "observationsByKey ul (cs_observations snap) = Inr m" "KeyID ul key = Inr i"
  shows "observed_current ul snap now key \<longleftrightarrow>
    (\<exists>ob. map_of m i = Some ob \<and> observationValid ul (Some ob) now)"
  using assms(2) observationsByKey_ok [OF assms(1), of i]
  by (auto simp: observed_current_def)

lemma availableObservationSet_base:
  assumes m: "observationsByKey ul (cs_observations snap) = Inr m"
    and q: "PlatformDefinition q = Some d" "cd_Dependencies d = []"
    and j: "KeyID ul (Some (KeyPlatform q)) = Inr j" and "j \<notin> set vis"
  shows "availableObservationSet ul m j now vis \<longleftrightarrow>
    observed_current ul snap now (Some (KeyPlatform q))"
proof (cases "map_of m j")
  case None
  with observed_current_map [OF m j] show ?thesis
    by (simp add: availableObservationSet.simps)
next
  case (Some ob)
  then have ob: "Some ob \<in> set (cs_observations snap)" "KeyID ul (ob_key ob) = Inr j"
    using observationsByKey_ok [OF m] by auto
  from KeyID_GetExtension [OF ob(2) j] have "GetExtension (ob_key ob) = None"
    "GetPlatform (ob_key ob) = q" by simp_all
  with Some q \<open>j \<notin> set vis\<close> have "availableObservationSet ul m j now vis \<longleftrightarrow>
      observationValid ul (Some ob) now"
    by (simp add: availableObservationSet.simps PlatformDependencyKeys_def)
  also have "\<dots> \<longleftrightarrow> observed_current ul snap now (Some (KeyPlatform q))"
    using Some observed_current_map [OF m j] by simp
  finally show ?thesis .
qed

lemma availableObservationSet_iff:
  assumes m: "observationsByKey ul (cs_observations snap) = Inr m"
    and i: "KeyID ul key = Inr i"
  shows "availableObservationSet ul m i now [] \<longleftrightarrow>
    observed_current ul snap now key \<and>
    (\<forall>q\<in>set (key_dependencies key). observed_current ul snap now (Some (KeyPlatform q)))"
proof (cases "map_of m i")
  case None
  with observed_current_map [OF m i] show ?thesis
    by (simp add: availableObservationSet.simps)
next
  case (Some ob)
  then have ob: "Some ob \<in> set (cs_observations snap)" "KeyID ul (ob_key ob) = Inr i"
    using observationsByKey_ok [OF m] by auto
  have cur: "observed_current ul snap now key \<longleftrightarrow> observationValid ul (Some ob) now"
    using Some observed_current_map [OF m i] by simp
  from i show ?thesis
  proof (cases rule: KeyID_cases)
    case (extension e)
    with KeyID_GetExtension [OF ob(2) i] Some cur show ?thesis
      by (auto simp: availableObservationSet.simps key_dependencies_def dependencies_of_def
          definitions_def platformDefinition_def)
  next
    case (platform p)
    then obtain d where d: "PlatformDefinition p = Some d" by auto
    from platform KeyID_GetExtension [OF ob(2) i]
    have p: "GetExtension (ob_key ob) = None" "GetPlatform (ob_key ob) = p" by simp_all
    have deps: "key_dependencies key = cd_Dependencies d"
      using platform d by (simp add: key_dependencies_def dependencies_of_def PlatformDefinition_def)
    have step: "(case KeyID ul (Some (KeyPlatform q)) of Inl _ \<Rightarrow> False
        | Inr j \<Rightarrow> availableObservationSet ul m j now [i]) \<longleftrightarrow>
        observed_current ul snap now (Some (KeyPlatform q))" if "q \<in> set (cd_Dependencies d)" for q
    proof -
      from registry_dependencies [OF d that] obtain d' where
        q: "q \<noteq> p" "PlatformDefinition q = Some d'" "cd_Dependencies d' = []" by blast
      then have j: "KeyID ul (Some (KeyPlatform q)) = Inr (''platform/'' @ fmt_int (pc_number q))"
        by (simp add: KeyID_platform)
      then have "''platform/'' @ fmt_int (pc_number q) \<notin> set [i]"
        using platform(2,3) q(1,2) platform_id_inject [of q p] by auto
      from availableObservationSet_base [OF m q(2,3) j this] j show ?thesis by simp
    qed
    show ?thesis
      using Some p d cur deps step
      by (simp add: availableObservationSet.simps [of ul m i] PlatformDependencyKeys_def
          list_all_iff)
  qed
qed

text \<open>When a snapshot can be consulted for a key at all.\<close>

definition consultable ::
  "(string \<Rightarrow> string) \<Rightarrow> capability_snapshot \<Rightarrow> gotime \<Rightarrow> bool" where
  "consultable ul snap now \<longleftrightarrow>
     (\<exists>at. cs_collected_at snap = Some at \<and> as_time at \<le> now + minute) \<and>
     is_ok (observationsByKey ul (cs_observations snap))"

lemma AvailableObservation_iff:
  "AvailableObservation ul (Some snap) key now \<noteq> None \<longleftrightarrow>
     consultable ul snap now \<and> observed_current ul snap now key \<and>
     (\<forall>q\<in>set (key_dependencies key). observed_current ul snap now (Some (KeyPlatform q)))"
proof (cases "KeyID ul key")
  case (Inl e)
  then show ?thesis by (auto simp: AvailableObservation_def observed_current_def)
next
  case (Inr i)
  then have "key \<noteq> None" by (auto elim: KeyID_cases)
  show ?thesis
  proof (cases "observationsByKey ul (cs_observations snap)")
    case (Inr m)
    have "availableObservationSet ul m i now [] \<Longrightarrow> map_of m i \<noteq> None"
      by (subst (asm) availableObservationSet.simps) (simp split: option.splits)
    then show ?thesis
      using \<open>KeyID ul key = Inr i\<close> \<open>key \<noteq> None\<close> Inr
        availableObservationSet_iff [OF Inr \<open>KeyID ul key = Inr i\<close>, of now]
      by (auto simp: AvailableObservation_def consultable_def split: option.splits)
  qed (use \<open>KeyID ul key = Inr i\<close> in \<open>simp add: AvailableObservation_def consultable_def\<close>)
qed

lemma observationValidD:
  assumes "observationValid ul (Some ob) now"
  shows "ob_state ob = CS_AVAILABLE" "ob_reason_code ob = RC_AVAILABLE"
    and "\<exists>t. ob_observed_at ob = Some t \<and> as_time t \<le> now + minute"
    and "validateFreshness (ob_key ob) (ob_observed_at ob) (ob_valid_until ob) now True = None"
  using assms by (auto simp: observationValid_def not_less split: if_splits sum.splits)

lemma validateFreshness_current:
  assumes "validateFreshness key (Some t) until now True = None"
    and "maxValidityOf key = Inr v" "v \<noteq> 0"
  shows "\<exists>u. until = Some u \<and> now < as_time u \<and> as_time u \<le> as_time t + v"
  using assms by (auto simp: validateFreshness_def Let_def not_less split: option.splits if_splits)

lemma observationValid_fresh:
  assumes valid: "observationValid ul (Some ob) now"
    and key: "KeyID ul (ob_key ob) = KeyID ul (Some (KeyPlatform p))"
    and d: "PlatformDefinition p = Some d" "fp_MaxValidity (cd_Freshness d) \<noteq> 0"
  shows "\<exists>t u. ob_observed_at ob = Some t \<and> ob_valid_until ob = Some u \<and>
    now < as_time u \<and> as_time u \<le> as_time t + HealthObservationValidity \<and>
    as_time t \<le> now + minute"
proof -
  have "KeyID ul (Some (KeyPlatform p)) = Inr (''platform/'' @ fmt_int (pc_number p))"
    using d by (simp add: KeyID_platform)
  with key KeyID_GetExtension [of ul "ob_key ob" _ "Some (KeyPlatform p)"]
  have "GetExtension (ob_key ob) = None" "GetPlatform (ob_key ob) = p" by simp_all
  moreover have "fp_MaxValidity (cd_Freshness d) = HealthObservationValidity"
    using PlatformDefinition_MaxValidity [OF d(1)] d(2) by simp
  ultimately have max: "maxValidityOf (ob_key ob) = Inr HealthObservationValidity"
      "HealthObservationValidity \<noteq> 0"
    using d by (simp_all add: maxValidityOf_def)
  obtain t where t: "ob_observed_at ob = Some t" "as_time t \<le> now + minute"
    using observationValidD(3) [OF valid] by blast
  with validateFreshness_current [OF _ max] observationValidD(4) [OF valid] show ?thesis
    by auto
qed

section \<open>Requirement keys\<close>

lemma requirementKeysLoop_count:
  assumes "requirementKeysLoop ul seen names n keys = Inr k"
  shows "k = n + length (filter (\<lambda>key. GetExtension key \<noteq> None) keys)"
  using assms
proof (induction ul seen names n keys rule: requirementKeysLoop.induct)
  case (2 ul seen names n key keys)
  from "2.prems" obtain i where i: "KeyID ul key = Inr i" by auto
  show ?case
  proof (cases "GetExtension key")
    case None
    with i "2.prems" "2.IH"(1) [OF i] show ?thesis
      by (simp split: if_splits)
  next
    case (Some e)
    with i "2.prems" "2.IH"(2) [OF i] show ?thesis
      by (simp add: Let_def split: if_splits)
  qed
qed simp

definition extension_names :: "(string \<Rightarrow> string) \<Rightarrow> capability_key option list \<Rightarrow> string list" where
  "extension_names ul keys =
     map (\<lambda>e. ext_name (NormalizeExtension ul e)) (List.map_filter GetExtension keys)"

lemma requirementKeysLoop_iff:
  "is_ok (requirementKeysLoop ul seen names n keys) \<longleftrightarrow>
     (\<forall>key\<in>set keys. is_ok (KeyID ul key) \<and> IsWorkloadRequirement ul key) \<and>
     distinct (map (key_id_or_empty ul) keys) \<and>
     set (map (key_id_or_empty ul) keys) \<inter> set seen = {} \<and>
     distinct (extension_names ul keys) \<and> set (extension_names ul keys) \<inter> set names = {}"
proof (induction ul seen names n keys rule: requirementKeysLoop.induct)
  case (1 ul seen names n)
  then show ?case by (simp add: extension_names_def List.map_filter_def)
next
  case (2 ul seen names n key keys)
  show ?case
  proof (cases "KeyID ul key")
    case (Inr i)
    then have i: "key_id_or_empty ul key = i" by (simp add: key_id_or_empty_def)
    show ?thesis
    proof (cases "\<not> IsWorkloadRequirement ul key \<or> i \<in> set seen")
      case True
      with Inr i show ?thesis by auto
    next
      case False
      show ?thesis
      proof (cases "GetExtension key")
        case None
        then have "extension_names ul (key # keys) = extension_names ul keys"
          by (simp add: extension_names_def List.map_filter_def)
        with None False Inr i "2.IH"(1) [OF Inr] show ?thesis by auto
      next
        case (Some e)
        let ?name = "ext_name (NormalizeExtension ul e)"
        from Some have "extension_names ul (key # keys) = ?name # extension_names ul keys"
          by (simp add: extension_names_def List.map_filter_def)
        with Some False Inr i "2.IH"(2) [OF Inr _ _ Some refl] show ?thesis
          by (cases "?name \<in> set names") auto
      qed
    qed
  qed simp
qed

text \<open>What the validation of requirement keys accepts: known workload keys, pairwise
  different, with pairwise different extension names, within the two bounds.\<close>

lemma ValidateRequirementKeys_iff:
  "ValidateRequirementKeys ul keys = None \<longleftrightarrow>
     length keys \<le> MaxExtensionCapabilities + 16 \<and>
     (\<forall>key\<in>set keys. is_ok (KeyID ul key) \<and> IsWorkloadRequirement ul key) \<and>
     distinct (map (key_id_or_empty ul) keys) \<and> distinct (extension_names ul keys) \<and>
     length (filter (\<lambda>key. GetExtension key \<noteq> None) keys) \<le> MaxExtensionCapabilities"
proof (cases "requirementKeysLoop ul [] [] 0 keys")
  case (Inl e)
  with requirementKeysLoop_iff [of ul "[]" "[]" 0 keys] show ?thesis
    by (auto simp: ValidateRequirementKeys_def)
next
  case (Inr k)
  with requirementKeysLoop_iff [of ul "[]" "[]" 0 keys] requirementKeysLoop_count [OF Inr]
  show ?thesis by (auto simp: ValidateRequirementKeys_def not_less)
qed


lemma available_observed:
  assumes "AvailableObservation ul (Some snap) key now \<noteq> None"
    and "p = GetPlatform key \<or> p \<in> set (key_dependencies key)" "PlatformDefinition p \<noteq> None"
  shows "observed_current ul snap now (Some (KeyPlatform p))"
proof -
  note available = assms(1) [unfolded AvailableObservation_iff]
  then obtain i where "KeyID ul key = Inr i"
    by (auto simp: observed_current_def)
  then have "p = GetPlatform key \<Longrightarrow> key = Some (KeyPlatform p)"
    using assms(3) PlatformDefinition_known by (auto elim!: KeyID_cases)
  with available assms(2) show ?thesis by auto
qed

lemma observed_current_unique:
  assumes "is_ok (observationsByKey ul (cs_observations snap))"
    "Some ob \<in> set (cs_observations snap)" "Some ob' \<in> set (cs_observations snap)"
    "KeyID ul (ob_key ob) = Inr i" "KeyID ul (ob_key ob') = Inr i"
  shows "ob = ob'"
proof -
  from assms(1) obtain m where "observationsByKey ul (cs_observations snap) = Inr m"
    by (auto simp: is_ok_iff)
  from observationsByKey_ok [OF this, of i ob] observationsByKey_ok [OF this, of i ob'] assms(2-5)
  show ?thesis by simp
qed

text \<open>One observation of a bounded capability cannot be current at two times further apart than
  its validity and the tolerated clock skew.\<close>

lemma observed_current_lapses:
  assumes "is_ok (observationsByKey ul (cs_observations snap))"
    and "observed_current ul snap now (Some (KeyPlatform p))"
      "observed_current ul snap later (Some (KeyPlatform p))"
    and d: "PlatformDefinition p = Some d" "fp_MaxValidity (cd_Freshness d) \<noteq> 0"
  shows "later < now + minute + HealthObservationValidity"
proof -
  from assms(2) obtain ob i where ob: "Some ob \<in> set (cs_observations snap)"
    "KeyID ul (ob_key ob) = Inr i" "KeyID ul (Some (KeyPlatform p)) = Inr i" "observationValid ul (Some ob) now"
    by (auto simp: observed_current_def)
  from assms(3) ob(3) obtain ob' where ob': "Some ob' \<in> set (cs_observations snap)"
    "KeyID ul (ob_key ob') = Inr i" "observationValid ul (Some ob') later"
    by (auto simp: observed_current_def)
  have "ob' = ob" by (rule observed_current_unique [OF assms(1) ob'(1) ob(1) ob'(2) ob(2)])
  with ob' ob have key: "KeyID ul (ob_key ob) = KeyID ul (Some (KeyPlatform p))"
    and later: "observationValid ul (Some ob) later" by simp_all
  from observationValid_fresh [OF ob(4) key d] observationValid_fresh [OF later key d]
  show ?thesis by auto
qed

end
