(* ===== verification/Capability_Requirements.thy ===== *)
theory Capability_Requirements
  imports Capability_Snapshot
begin

text \<open>
  The correctness of capability resolution: cloning a key keeps everything validation
  looks at, resolved requirements validate, derivation from a request is total and
  complete.  The properties of the capability library are at the end, after the lemmas
  they rest on.
\<close>

section \<open>Cloned keys\<close>

lemma CloneKey_ok:
  assumes "is_ok (KeyID ul key)" "lower_idem ul"
  shows "KeyID ul (CloneKey ul key) = KeyID ul key"
    and "IsWorkloadRequirement ul (CloneKey ul key) = IsWorkloadRequirement ul key"
    and "LossPolicy ul (CloneKey ul key) = LossPolicy ul key"
    and "GetExtension (CloneKey ul key) = map_option (NormalizeExtension ul) (GetExtension key)"
    and "GetPlatform (CloneKey ul key) = GetPlatform key"
proof -
  obtain i where i: "KeyID ul key = Inr i" using assms(1) by (auto simp: is_ok_iff)
  then show "KeyID ul (CloneKey ul key) = KeyID ul key"
    using KeyID_CloneKey assms(2) by simp
  from i show "IsWorkloadRequirement ul (CloneKey ul key) = IsWorkloadRequirement ul key"
    "LossPolicy ul (CloneKey ul key) = LossPolicy ul key"
    "GetExtension (CloneKey ul key) = map_option (NormalizeExtension ul) (GetExtension key)"
    "GetPlatform (CloneKey ul key) = GetPlatform key"
    using assms(2)
    by (auto elim!: KeyID_cases simp: IsWorkloadRequirement_def LossPolicy_def
        ValidateExtension_normalized)
qed

lemma extension_names_simps [simp]:
  "extension_names ul [] = []"
  "extension_names ul (key # keys) =
     (case GetExtension key of
        None \<Rightarrow> extension_names ul keys
      | Some e \<Rightarrow> ext_name (NormalizeExtension ul e) # extension_names ul keys)"
  by (auto simp: extension_names_def List.map_filter_def split: option.splits)

lemma extension_names_CloneKey:
  "\<forall>key\<in>set keys. is_ok (KeyID ul key) \<Longrightarrow> lower_idem ul \<Longrightarrow>
   extension_names ul (map (CloneKey ul) keys) = extension_names ul keys"
proof (induction keys)
  case (Cons key keys)
  then obtain i where "KeyID ul key = Inr i" by (auto simp: is_ok_iff)
  with Cons show ?case
    by (auto elim!: KeyID_cases simp: NormalizeExtension_stable)
qed simp

lemma ValidateRequirementKeys_CloneKey:
  assumes "ValidateRequirementKeys ul keys = None" "lower_idem ul"
  shows "ValidateRequirementKeys ul (map (CloneKey ul) keys) = None"
proof -
  from assms(1) have ok: "\<forall>key\<in>set keys. is_ok (KeyID ul key)"
    by (simp add: ValidateRequirementKeys_iff)
  then have "map (key_id_or_empty ul) (map (CloneKey ul) keys) = map (key_id_or_empty ul) keys"
    and "filter (\<lambda>key. GetExtension key \<noteq> None) (map (CloneKey ul) keys) =
         map (CloneKey ul) (filter (\<lambda>key. GetExtension key \<noteq> None) keys)"
    using CloneKey_ok [OF _ assms(2)]
    by (auto simp: key_id_or_empty_def filter_map comp_def intro!: arg_cong [of _ _ "map _"] filter_cong)
  with assms ok show ?thesis
    by (simp only: ValidateRequirementKeys_iff extension_names_CloneKey [OF ok assms(2)])
      (simp add: CloneKey_ok)
qed

lemma extension_names_mset:
  "mset ks = mset ks' \<Longrightarrow> mset (extension_names ul ks) = mset (extension_names ul ks')"
  by (simp add: extension_names_def List.map_filter_def mset_filter)

lemma ValidateRequirementKeys_mset:
  assumes "mset ks = mset ks'"
  shows "ValidateRequirementKeys ul ks = None \<longleftrightarrow> ValidateRequirementKeys ul ks' = None"
proof -
  have "length ks = length ks'" "set ks = set ks'"
    using assms by (metis size_mset, metis set_mset_mset)
  moreover have "mset (map (key_id_or_empty ul) ks) = mset (map (key_id_or_empty ul) ks')"
    using assms by simp
  then have "distinct (map (key_id_or_empty ul) ks) = distinct (map (key_id_or_empty ul) ks')"
    by (rule mset_eq_imp_distinct_iff)
  moreover have "distinct (extension_names ul ks) = distinct (extension_names ul ks')"
    by (rule mset_eq_imp_distinct_iff [OF extension_names_mset [OF assms]])
  moreover have "mset (filter (\<lambda>key. GetExtension key \<noteq> None) ks) =
      mset (filter (\<lambda>key. GetExtension key \<noteq> None) ks')"
    using assms by (simp add: mset_filter)
  then have "length (filter (\<lambda>key. GetExtension key \<noteq> None) ks) =
      length (filter (\<lambda>key. GetExtension key \<noteq> None) ks')"
    by (metis size_mset)
  ultimately show ?thesis by (simp only: ValidateRequirementKeys_iff)
qed

section \<open>Resolution\<close>

lemma resolveLoop_ok:
  assumes "resolveLoop ul snapshot now keys = Inr rs"
  shows "map cr_key rs = map (CloneKey ul) keys"
    and "\<forall>key\<in>set keys. AvailableObservation ul snapshot key now \<noteq> None"
    and "\<forall>r\<in>set rs. \<exists>key\<in>set keys. cr_key r = CloneKey ul key \<and> LossPolicy ul key = Inr (cr_loss_policy r)"
proof -
  have "map cr_key rs = map (CloneKey ul) keys \<and>
    (\<forall>key\<in>set keys. AvailableObservation ul snapshot key now \<noteq> None) \<and>
    (\<forall>r\<in>set rs. \<exists>key\<in>set keys. cr_key r = CloneKey ul key \<and> LossPolicy ul key = Inr (cr_loss_policy r))"
    using assms
    by (induction keys arbitrary: rs) (auto 0 4 split: option.splits)
  then show "map cr_key rs = map (CloneKey ul) keys"
    "\<forall>key\<in>set keys. AvailableObservation ul snapshot key now \<noteq> None"
    "\<forall>r\<in>set rs. \<exists>key\<in>set keys. cr_key r = CloneKey ul key \<and> LossPolicy ul key = Inr (cr_loss_policy r)"
    by blast+
qed

lemma ResolveRequirements_cases:
  assumes "ResolveRequirements ul snapshot keys now = Inr rs"
  obtains rs' where "ValidateRequirementKeys ul keys = None" "ValidateSnapshot ul snapshot now = None"
    "resolveLoop ul snapshot now keys = Inr rs'" "rs = sort_slice (requirement_less ul) rs'"
  using assms by (auto simp: ResolveRequirements_def split: option.splits)

interpretation requirement_order: strict_weak_order "requirement_less ul"
  by unfold_locales (auto simp: requirement_less_def)

interpretation key_order: strict_weak_order "key_less ul"
  by unfold_locales (auto simp: key_less_def)

lemma ResolveRequirements_valid:
  assumes "ResolveRequirements ul snapshot keys now = Inr rs" "lower_idem ul"
  shows "ValidateRequirements ul (map Some rs) = None"
    and "mset (map cr_key rs) = mset (map (CloneKey ul) keys)"
    and "sorted_wrt (requirement_less ul) rs"
proof -
  from assms(1) obtain rs' where ok: "ValidateRequirementKeys ul keys = None"
    and loop: "resolveLoop ul snapshot now keys = Inr rs'"
    and rs: "rs = sort_slice (requirement_less ul) rs'"
    by (rule ResolveRequirements_cases)
  note r = resolveLoop_ok [OF loop]
  have "mset (map cr_key rs) = mset (map cr_key rs')" by (simp add: rs)
  also have "map cr_key rs' = map (CloneKey ul) keys" by (fact r(1))
  finally show ms: "mset (map cr_key rs) = mset (map (CloneKey ul) keys)" .
  with ValidateRequirementKeys_CloneKey [OF ok assms(2)]
  have keys: "ValidateRequirementKeys ul (map cr_key rs) = None"
    using ValidateRequirementKeys_mset by blast
  have "validateLossPolicy ul q = None" if "q \<in> set rs" for q
  proof -
    from that rs have "q \<in> set rs'" by simp
    with r(3) obtain key where "key \<in> set keys" "cr_key q = CloneKey ul key"
      "LossPolicy ul key = Inr (cr_loss_policy q)" by blast
    with ok assms(2) show ?thesis
      by (simp add: validateLossPolicy_def ValidateRequirementKeys_iff CloneKey_ok)
  qed
  with keys show "ValidateRequirements ul (map Some rs) = None"
    by (simp add: ValidateRequirements_def comp_def)
  from keys have dist: "distinct (map (\<lambda>r. key_id_or_empty ul (cr_key r)) rs)"
    by (simp add: ValidateRequirementKeys_iff comp_def)
  show "sorted_wrt (requirement_less ul) rs"
  proof (rule requirement_order.sorted_strict)
    show "sorted_wrt (\<lambda>a b. \<not> requirement_less ul b a) rs"
      by (simp add: rs requirement_order.sort_slice_sorted)
    show "distinct rs" using dist by (simp add: distinct_map)
    show "requirement_less ul a b \<or> requirement_less ul b a"
      if "a \<in> set rs" "b \<in> set rs" "a \<noteq> b" for a b
      using that dist unfolding requirement_less_def distinct_map inj_on_def
      by (metis linorder_less_linear)
  qed
qed

section \<open>Derivation\<close>

abbreviation requirement_capability :: "extension_requirement option \<Rightarrow> extension_capability" where
  "requirement_capability r \<equiv> the (Option.bind r er_capability)"

abbreviation requirement_name :: "(string \<Rightarrow> string) \<Rightarrow> extension_requirement option \<Rightarrow> string" where
  "requirement_name ul r \<equiv> ext_name (NormalizeExtension ul (requirement_capability r))"

lemma ValidateExtensionRequirement_ok:
  assumes "ValidateExtensionRequirement ul r = None"
  shows "Option.bind r er_capability = Some (requirement_capability r)"
    and "ValidateExtension ul (Some (requirement_capability r)) = None"
    and "requirementExtensionKey ul r = KeyExtension (NormalizeExtension ul (requirement_capability r))"
proof -
  from assms obtain q c where "r = Some q" "er_capability q = Some c"
    "ValidateExtension ul (Some c) = None"
    by (cases r) (auto simp: ValidateExtension_def split: option.splits)
  then show "Option.bind r er_capability = Some (requirement_capability r)"
    "ValidateExtension ul (Some (requirement_capability r)) = None"
    "requirementExtensionKey ul r = KeyExtension (NormalizeExtension ul (requirement_capability r))"
    by (simp_all add: requirementExtensionKey_def ExtensionKey_def NormalizeExtension_def
        split: option.split)
qed

lemma validateExtensionLoop_iff:
  "validateExtensionLoop ul seen rs = None \<longleftrightarrow>
     (\<forall>r\<in>set rs. ValidateExtensionRequirement ul r = None) \<and>
     distinct (map (requirement_name ul) rs) \<and>
     requirement_name ul ` set rs \<inter> set seen = {}"
proof (induction ul seen rs rule: validateExtensionLoop.induct)
  case (2 ul seen r rest)
  show ?case
  proof (cases "ValidateExtensionRequirement ul r")
    case None
    then obtain c where c: "Option.bind r er_capability = Some c"
      using ValidateExtensionRequirement_ok(1) by blast
    show ?thesis
    proof (cases "ext_name (NormalizeExtension ul c) \<in> set seen")
      case True
      with None c show ?thesis by (auto simp: Let_def)
    next
      case False
      with None c "2.IH" [OF None c refl] show ?thesis by (auto simp: Let_def)
    qed
  qed simp
qed simp

lemma networkKeys_cases:
  "networkKeys ul input defer = Inr network \<Longrightarrow>
   network = [] \<or> network = [PC_NETWORK_BRIDGE] \<or> network = [PC_NETWORK_BPFNET]"
  by (auto simp: networkKeys_def Let_def split: if_splits)

definition workload_platforms :: "platform_capability set" where
  "workload_platforms =
     {PC_NETWORK_BRIDGE, PC_NETWORK_BPFNET, PC_RUNSC_MEMORY_HARD_LIMIT,
      PC_RUNSC_EPHEMERAL_STORAGE_HARD_LIMIT, PC_ROOTFS_LOWER_EROFS, PC_DNS_POLICY_ENFORCEMENT,
      PC_STRICT_EGRESS_ENFORCEMENT, PC_ROOTFS_SNAPSHOT}"

lemma workload_platform_ok:
  assumes "p \<in> workload_platforms"
  shows "is_ok (KeyID ul (Some (KeyPlatform p)))" "IsWorkloadRequirement ul (Some (KeyPlatform p))"
  using assms
  by (auto simp: workload_platforms_def KeyID_def IsWorkloadRequirement_def PlatformDefinition_def
      definitions_def platformDefinition_def)

lemma derivedPlatforms_ok:
  assumes "network = [] \<or> network = [PC_NETWORK_BRIDGE] \<or> network = [PC_NETWORK_BPFNET]"
  shows "distinct (derivedPlatforms input network)" "length (derivedPlatforms input network) \<le> 7"
    and "set (derivedPlatforms input network) \<subseteq> workload_platforms"
proof -
  show "distinct (derivedPlatforms input network)"
    using assms by (auto simp: derivedPlatforms_def disjoint_iff)
  show "length (derivedPlatforms input network) \<le> 7"
    using assms by (auto simp: derivedPlatforms_def of_bool_def)
  show "set (derivedPlatforms input network) \<subseteq> workload_platforms"
    using assms by (auto simp: derivedPlatforms_def workload_platforms_def)
qed

lemma platform_ids_distinct:
  assumes "distinct ps" "set ps \<subseteq> workload_platforms"
  shows "distinct (map (\<lambda>p. key_id_or_empty ul (Some (KeyPlatform p))) ps)"
proof -
  have "p = q" if "p \<in> set ps" "q \<in> set ps"
    "key_id_or_empty ul (Some (KeyPlatform p)) = key_id_or_empty ul (Some (KeyPlatform q))" for p q
  proof -
    from that(1,2) assms(2) obtain i j where
      "KeyID ul (Some (KeyPlatform p)) = Inr i" "KeyID ul (Some (KeyPlatform q)) = Inr j"
      using workload_platform_ok(1) by (meson is_ok_iff subsetD)
    with that(3) KeyID_CloneKey_eq [of ul "Some (KeyPlatform p)" i "Some (KeyPlatform q)" j]
    show ?thesis by (simp add: key_id_or_empty_def)
  qed
  with assms(1) show ?thesis by (auto simp: distinct_map inj_on_def)
qed

lemma extension_key_id:
  assumes "ValidateExtensionRequirement ul r = None" "lower_idem ul"
  shows "KeyID ul (Some (requirementExtensionKey ul r)) =
    Inr (''extension/'' @ requirement_name ul r @ ''/'' @
         base64_raw_url (ext_value (NormalizeExtension ul (requirement_capability r))))"
    and "IsWorkloadRequirement ul (Some (requirementExtensionKey ul r))"
    and "GetExtension (Some (requirementExtensionKey ul r)) =
         Some (NormalizeExtension ul (requirement_capability r))"
proof -
  obtain c where "requirement_capability r = c" by blast
  with ValidateExtensionRequirement_ok(2,3) [OF assms(1)] assms(2)
  show "KeyID ul (Some (requirementExtensionKey ul r)) =
    Inr (''extension/'' @ requirement_name ul r @ ''/'' @
         base64_raw_url (ext_value (NormalizeExtension ul (requirement_capability r))))"
    "IsWorkloadRequirement ul (Some (requirementExtensionKey ul r))"
    "GetExtension (Some (requirementExtensionKey ul r)) =
         Some (NormalizeExtension ul (requirement_capability r))"
    by (simp_all add: KeyID_def Let_def IsWorkloadRequirement_def ValidateExtension_normalized
        NormalizeExtension_stable)
qed

lemma extension_ids_distinct:
  assumes "\<forall>r\<in>set rs. ValidateExtensionRequirement ul r = None" "lower_idem ul"
    and "distinct (map (requirement_name ul) rs)"
  shows "distinct (map (\<lambda>r. key_id_or_empty ul (Some (requirementExtensionKey ul r))) rs)"
proof -
  have names: "requirement_name ul r = requirement_name ul q" if "r \<in> set rs" "q \<in> set rs"
    "key_id_or_empty ul (Some (requirementExtensionKey ul r)) =
     key_id_or_empty ul (Some (requirementExtensionKey ul q))" for r q
    using that assms(1) extension_key_id(1) [OF _ assms(2)]
    by (simp add: key_id_or_empty_def append_sep_inject_right base64_no_slash)
  from assms(3) have "distinct rs" "inj_on (requirement_name ul) (set rs)"
    by (simp_all add: distinct_map)
  moreover from this have "inj_on (\<lambda>r. key_id_or_empty ul (Some (requirementExtensionKey ul r))) (set rs)"
    by (intro inj_onI) (blast dest: names inj_onD)
  ultimately show ?thesis by (simp add: distinct_map)
qed

lemma extension_names_append [simp]:
  "extension_names ul (xs @ ys) = extension_names ul xs @ extension_names ul ys"
  by (induction xs) (auto split: option.splits)

lemma extension_names_platform [simp]:
  "extension_names ul (map (\<lambda>p. Some (KeyPlatform p)) ps) = []"
  by (induction ps) auto

lemma extension_names_requirements:
  assumes "\<forall>r\<in>set rs. ValidateExtensionRequirement ul r = None" "lower_idem ul"
  shows "extension_names ul (map (\<lambda>r. Some (requirementExtensionKey ul r)) rs) =
    map (requirement_name ul) rs"
  using assms(1)
proof (induction rs)
  case (Cons r rs)
  then have r: "ValidateExtensionRequirement ul r = None" by simp
  with Cons extension_key_id(3) [OF r assms(2)] show ?case
    using NormalizeExtension_stable(1) [OF ValidateExtensionRequirement_ok(2) [OF r] assms(2)]
    by simp
qed simp

lemma derivedKeys_valid:
  assumes network: "networkKeys ul input defer = Inr network"
    and ext: "ValidateExtensionRequirements ul (ri_ExtensionCapabilityRequests input) = None"
    and "lower_idem ul"
  shows "ValidateRequirementKeys ul (map Some (derivedKeys ul input network)) = None"
proof -
  let ?ps = "derivedPlatforms input network" and ?rs = "ri_ExtensionCapabilityRequests input"
  let ?es = "map (\<lambda>r. Some (requirementExtensionKey ul r)) ?rs"
  note ps = derivedPlatforms_ok [OF networkKeys_cases [OF network], of input]
  from ext have rs: "length ?rs \<le> 64" "\<forall>r\<in>set ?rs. ValidateExtensionRequirement ul r = None"
    "distinct (map (requirement_name ul) ?rs)"
    by (auto simp: ValidateExtensionRequirements_def MaxExtensionCapabilities_def
        validateExtensionLoop_iff split: if_splits)
  have keys: "map Some (derivedKeys ul input network) = map (\<lambda>p. Some (KeyPlatform p)) ?ps @ ?es"
    by (simp add: derivedKeys_def PlatformKey_def)
  have disj: "key_id_or_empty ul (Some (KeyPlatform p)) \<noteq>
      key_id_or_empty ul (Some (requirementExtensionKey ul r))"
    if "p \<in> set ?ps" "r \<in> set ?rs" for p r
  proof -
    from that ps(3) workload_platform_ok(1) [of p ul] have "PlatformDefinition p \<noteq> None"
      by (auto simp: is_ok_iff elim: KeyID_cases)
    with that(2) rs(2) extension_key_id(1) [OF _ assms(3)] show ?thesis
      by (simp add: key_id_or_empty_def KeyID_platform)
  qed
  have "distinct (map (key_id_or_empty ul) (map (\<lambda>p. Some (KeyPlatform p)) ?ps @ ?es))"
    using platform_ids_distinct [OF ps(1,3)] extension_ids_distinct [OF rs(2) assms(3) rs(3)] disj
    by (auto simp: comp_def)
  moreover have "filter (\<lambda>key. GetExtension key \<noteq> None) (map (\<lambda>p. Some (KeyPlatform p)) ?ps @ ?es) = ?es"
    using rs(2) extension_key_id(3) [OF _ assms(3)]
    by (auto simp: filter_map comp_def intro!: filter_True)
  moreover have "\<forall>key\<in>set (map (\<lambda>p. Some (KeyPlatform p)) ?ps @ ?es).
      is_ok (KeyID ul key) \<and> IsWorkloadRequirement ul key"
    using ps(3) workload_platform_ok rs(2) extension_key_id(1,2) [OF _ assms(3)]
    by (auto simp: subset_iff)
  ultimately show ?thesis
    using ps(2) rs(1,3) extension_names_requirements [OF rs(2) assms(3)]
    by (simp add: keys ValidateRequirementKeys_iff MaxExtensionCapabilities_def)
qed

lemma deriveRequirements_Inr_iff:
  assumes "lower_idem ul"
  shows "deriveRequirements ul input defer = Inr ks \<longleftrightarrow>
    0 \<le> ri_MemoryLimitBytes input \<and> 0 \<le> ri_EphemeralStorageLimitBytes input \<and>
    ValidateExtensionRequirements ul (ri_ExtensionCapabilityRequests input) = None \<and>
    \<not> (ri_RequiresDNSPolicyEnforcement input \<and> ri_RequiresStrictEgressEnforcement input) \<and>
    (\<exists>network. networkKeys ul input defer = Inr network \<and>
       ks = sort_slice (key_less ul) (derivedKeys ul input network))"
proof -
  have "ValidateRequirementKeys ul (map Some (sort_slice (key_less ul) (derivedKeys ul input network))) = None"
    if "networkKeys ul input defer = Inr network"
      "ValidateExtensionRequirements ul (ri_ExtensionCapabilityRequests input) = None" for network
    using derivedKeys_valid [OF that assms]
      ValidateRequirementKeys_mset [of "map Some (sort_slice (key_less ul) (derivedKeys ul input network))"
        "map Some (derivedKeys ul input network)"]
    by simp
  then show ?thesis
    by (auto simp: deriveRequirements_def Let_def not_less split: option.splits)
qed


lemma derived_sorted:
  assumes "ValidateRequirementKeys ul (map Some ks) = None" "ks = sort_slice (key_less ul) xs"
  shows "sorted_wrt (key_less ul) ks"
proof (rule key_order.sorted_strict)
  from assms(1) have dist: "distinct (map (\<lambda>k. key_id_or_empty ul (Some k)) ks)"
    by (simp add: ValidateRequirementKeys_iff comp_def)
  show "sorted_wrt (\<lambda>a b. \<not> key_less ul b a) ks"
    by (simp add: assms(2) key_order.sort_slice_sorted)
  show "distinct ks" using dist by (simp add: distinct_map)
  show "key_less ul a b \<or> key_less ul b a" if "a \<in> set ks" "b \<in> set ks" "a \<noteq> b" for a b
    using that dist unfolding key_less_def distinct_map inj_on_def
    by (metis linorder_less_linear)
qed

lemma derivedKeys_extensions:
  assumes "ValidateExtensionRequirements ul rs = None"
  shows "requirementExtensionKey ul ` set rs =
    {KeyExtension (NormalizeExtension ul c) | c. \<exists>r. Some r \<in> set rs \<and> er_capability r = Some c}"
proof -
  from assms have ok: "\<forall>r\<in>set rs. ValidateExtensionRequirement ul r = None"
    by (auto simp: ValidateExtensionRequirements_def validateExtensionLoop_iff split: if_splits)
  have "requirementExtensionKey ul r = KeyExtension (NormalizeExtension ul c)"
    if "r = Some q" "er_capability q = Some c" for r q c
    using that by (simp add: requirementExtensionKey_def ExtensionKey_def NormalizeExtension_def
        split: option.split)
  moreover have "\<exists>q c. r = Some q \<and> er_capability q = Some c" if "r \<in> set rs" for r
  proof -
    from ok that have "ValidateExtensionRequirement ul r = None" by blast
    then show ?thesis by (cases r) (auto simp: ValidateExtension_def split: option.splits)
  qed
  ultimately show ?thesis by (force simp: image_iff)
qed

lemma derivedKeys_members:
  assumes "ValidateExtensionRequirements ul (ri_ExtensionCapabilityRequests input) = None"
  shows "KeyPlatform p \<in> set (derivedKeys ul input network) \<longleftrightarrow> p \<in> set (derivedPlatforms input network)"
    and "{e. KeyExtension e \<in> set (derivedKeys ul input network)} = {NormalizeExtension ul c | c.
      \<exists>r. Some r \<in> set (ri_ExtensionCapabilityRequests input) \<and> er_capability r = Some c}"
  using derivedKeys_extensions [OF assms]
  by (auto simp: derivedKeys_def PlatformKey_def)

lemma mset_map_same_kernel:
  assumes "\<And>x y. x \<in> set xs \<union> set ys \<Longrightarrow> y \<in> set xs \<union> set ys \<Longrightarrow> f x = f y \<longleftrightarrow> g x = g y"
    and "mset (map f xs) = mset (map f ys)"
  shows "mset (map g xs) = mset (map g ys)"
proof -
  define h where "h v = g (SOME x. x \<in> set xs \<union> set ys \<and> f x = v)" for v
  have "h (f x) = g x" if "x \<in> set xs \<union> set ys" for x
  proof -
    have "(SOME y. y \<in> set xs \<union> set ys \<and> f y = f x) \<in> set xs \<union> set ys \<and>
        f (SOME y. y \<in> set xs \<union> set ys \<and> f y = f x) = f x"
      by (rule someI [of _ x]) (use that in simp)
    with assms(1) that show ?thesis unfolding h_def by blast
  qed
  then have "map g xs = map h (map f xs)" "map g ys = map h (map f ys)" by simp_all
  then show ?thesis using assms(2) by (metis mset_map)
qed

lemma map_result_ok:
  "\<forall>x\<in>set xs. is_ok (f x) \<Longrightarrow> map_result f xs = Inr (map (\<lambda>x. projr (f x)) xs)"
  by (induction xs) (auto simp: is_ok_iff)

lemma sort_eq_iff_mset: "sort xs = sort ys \<longleftrightarrow> mset xs = mset (ys :: 'a :: linorder list)"
  using properties_for_sort [of "sort ys" xs] by (metis mset_sort sorted_sort)

lemma RequirementKeysEqual_mset:
  assumes "\<forall>key\<in>set left. is_ok (KeyID ul key)" "\<forall>key\<in>set right. is_ok (KeyID ul key)"
  shows "RequirementKeysEqual ul left right \<longleftrightarrow>
    mset (map (CloneKey ul) left) = mset (map (CloneKey ul) right)"
proof -
  let ?id = "\<lambda>key. projr (KeyID ul key)"
  have kernel: "?id x = ?id y \<longleftrightarrow> CloneKey ul x = CloneKey ul y"
    if "x \<in> set left \<union> set right" "y \<in> set left \<union> set right" for x y
  proof -
    from that assms obtain i j where "KeyID ul x = Inr i" "KeyID ul y = Inr j"
      by (meson Un_iff is_ok_iff)
    with KeyID_CloneKey_eq [of ul x i y j] show ?thesis by simp
  qed
  have "RequirementKeysEqual ul left right \<longleftrightarrow>
      length left = length right \<and> sort (map ?id left) = sort (map ?id right)"
    using assms by (simp add: RequirementKeysEqual_def map_result_ok)
  also have "\<dots> \<longleftrightarrow> mset (map ?id left) = mset (map ?id right)"
    unfolding sort_eq_iff_mset using mset_eq_length [of "map ?id left" "map ?id right"] by auto
  also have "\<dots> \<longleftrightarrow> mset (map (CloneKey ul) left) = mset (map (CloneKey ul) right)"
    using mset_map_same_kernel [of left right ?id "CloneKey ul"]
      mset_map_same_kernel [of left right "CloneKey ul" ?id] kernel by blast
  finally show ?thesis .
qed

section \<open>Properties\<close>

text \<open>C1. The start-up validation is exact, for every table of definitions: it passes exactly
  when each named capability has a definition that keeps the rules and the dependencies of
  the table, those of unnamed keys included, have no cycle.  The table of the package
  passes, so \<open>mustDefinitions\<close> does not panic, and \<open>PlatformDefinitions\<close> lists every named
  platform capability exactly once, in the order of the enum.\<close>

theorem registry_validation_exact:
  "(validateDefinitions defs = None \<longleftrightarrow>
      (\<forall>key\<in>set PlatformCapability_name. key \<noteq> PC_UNSPECIFIED \<longrightarrow>
         (\<exists>d. map_of defs key = Some d \<and> sound_definition defs key d)) \<and>
      acyclic (dependency_edges defs)) \<and>
   validateDefinitions definitions = None \<and>
   map cd_Key PlatformDefinitions = tl PlatformCapability_name"
proof (intro conjI)
  show "validateDefinitions definitions = None" by code_simp
  show "map cd_Key PlatformDefinitions = tl PlatformCapability_name" by code_simp
qed (rule validateDefinitions_iff)

theorem registry_validation_exact_witness:
  "(\<exists>d. PlatformDefinition PC_RUNSC_MEMORY_HARD_LIMIT = Some d \<and>
      sound_definition definitions PC_RUNSC_MEMORY_HARD_LIMIT d) \<and>
   acyclic (dependency_edges definitions)"
proof -
  have "PC_RUNSC_MEMORY_HARD_LIMIT \<in> set PlatformCapability_name" by code_simp
  then show ?thesis
    using registry_validation_exact [of definitions] by (auto simp: PlatformDefinition_def)
qed

text \<open>C2. Two keys that have an identifier have the same one exactly when they are the same
  key up to the case of the extension domain: identifiers are usable as persistence and
  comparison keys.\<close>

theorem key_id_identifies_key:
  assumes "KeyID ul key = Inr i" "KeyID ul key' = Inr i'"
  shows "i = i' \<longleftrightarrow> CloneKey ul key = CloneKey ul key'"
  using assms by (rule KeyID_CloneKey_eq)

definition sample_extension :: "string \<Rightarrow> capability_key option" where
  "sample_extension domain = Some (KeyExtension \<lparr>ext_name = domain @ ''/gpu'', ext_value = ''a100''\<rparr>)"

theorem key_id_identifies_key_witness:
  "CloneKey (\<lambda>s. s) (sample_extension ''Example.COM'') = CloneKey (\<lambda>s. s) (sample_extension ''example.com'')"
proof -
  have "KeyID (\<lambda>s. s) (sample_extension ''Example.COM'') = Inr ''extension/example.com/gpu/YTEwMA''"
    by code_simp
  moreover have "KeyID (\<lambda>s. s) (sample_extension ''example.com'') = Inr ''extension/example.com/gpu/YTEwMA''"
    by code_simp
  ultimately show ?thesis
    using key_id_identifies_key [of "\<lambda>s. s" "sample_extension ''Example.COM''" _ "sample_extension ''example.com''"]
    by blast
qed

text \<open>C3. A capability is available in a snapshot exactly when the snapshot can be consulted
  (collected, not from the future, no duplicate or malformed entries), it has a valid and
  current observation of the capability itself, and it has one of every capability the
  definition depends on.  The recursive search with its visiting set computes this.\<close>

theorem available_iff_current_with_dependencies:
  "AvailableObservation ul (Some snap) key now \<noteq> None \<longleftrightarrow>
     consultable ul snap now \<and> observed_current ul snap now key \<and>
     (\<forall>q\<in>set (key_dependencies key). observed_current ul snap now (Some (KeyPlatform q)))"
  by (rule AvailableObservation_iff)

definition sample_boot :: string where
  "sample_boot = ''01234567-89ab-cdef-0123-456789abcdef''"

definition sample_digest :: string where
  "sample_digest = ''sha256:'' @ replicate 64 (CHR ''a'')"

definition sample_observation ::
  "platform_capability \<Rightarrow> capability_provider \<Rightarrow> capability_evidence option \<Rightarrow> timestamp option \<Rightarrow>
   capability_observation option" where
  "sample_observation p provider evidence until =
     Some \<lparr>ob_key = Some (KeyPlatform p), ob_state = CS_AVAILABLE, ob_provider = provider,
           ob_observed_at = Some \<lparr>ts_seconds = 1000, ts_nanos = 0\<rparr>, ob_valid_until = until,
           ob_evidence = evidence, ob_reason_code = RC_AVAILABLE, ob_reason = ''ok''\<rparr>"

definition sample_snapshot :: capability_snapshot where
  "sample_snapshot =
     \<lparr>cs_collected_at = Some \<lparr>ts_seconds = 1001, ts_nanos = 0\<rparr>,
      cs_observations =
        [sample_observation PC_CGROUP_V2_MEMORY_CONTROLLER CP_HOST_CGROUP
           (Some (EvidenceBoot sample_boot)) None,
         sample_observation PC_RUNSC_MEMORY_ENFORCEMENT_SELF_TEST CP_RUNSC_SELF_TEST
           (Some (EvidenceRuntime sample_boot sample_digest sample_digest)) None,
         sample_observation PC_RUNSC_MEMORY_HARD_LIMIT CP_DERIVED None None,
         sample_observation PC_NETWORK_BPFNET CP_NETWORK_HEALTH None
           (Some \<lparr>ts_seconds = 1015, ts_nanos = 0\<rparr>)]\<rparr>"

definition sample_now :: gotime where
  "sample_now = 1005 * second"

theorem available_iff_current_with_dependencies_witness:
  "observed_current (\<lambda>s. s) sample_snapshot sample_now
     (Some (KeyPlatform PC_RUNSC_MEMORY_ENFORCEMENT_SELF_TEST))"
proof -
  have "AvailableObservation (\<lambda>s. s) (Some sample_snapshot)
      (Some (KeyPlatform PC_RUNSC_MEMORY_HARD_LIMIT)) sample_now \<noteq> None"
    by code_simp
  moreover have "PC_RUNSC_MEMORY_ENFORCEMENT_SELF_TEST
      \<in> set (key_dependencies (Some (KeyPlatform PC_RUNSC_MEMORY_HARD_LIMIT)))"
    by code_simp
  ultimately show ?thesis
    using available_iff_current_with_dependencies
      [of "\<lambda>s. s" sample_snapshot "Some (KeyPlatform PC_RUNSC_MEMORY_HARD_LIMIT)" sample_now]
    by blast
qed

text \<open>C4. Freshness is end to end: if a capability is available, then for the capability and
  for each of its dependencies whose definition bounds the validity, the snapshot holds an
  observation that has not expired and was made less than fifteen seconds ago.\<close>

theorem available_is_fresh:
  assumes "AvailableObservation ul (Some snap) key now \<noteq> None"
    and "p = GetPlatform key \<or> p \<in> set (key_dependencies key)"
    and "PlatformDefinition p = Some d" "fp_MaxValidity (cd_Freshness d) \<noteq> 0"
  shows "\<exists>ob t u. Some ob \<in> set (cs_observations snap) \<and> GetPlatform (ob_key ob) = p \<and>
    ob_observed_at ob = Some t \<and> ob_valid_until ob = Some u \<and> now < as_time u \<and>
    now - as_time t < HealthObservationValidity \<and> as_time t \<le> now + minute"
proof -
  have known: "PlatformDefinition p \<noteq> None" using assms(3) by simp
  from available_observed [OF assms(1,2) known]
  have "observed_current ul snap now (Some (KeyPlatform p))" .
  then obtain ob where ob: "Some ob \<in> set (cs_observations snap)" "observationValid ul (Some ob) now"
    "KeyID ul (ob_key ob) = KeyID ul (Some (KeyPlatform p))"
    by (auto simp: observed_current_def)
  from observationValid_fresh [OF ob(2,3) assms(3,4)] obtain t u where
    "ob_observed_at ob = Some t" "ob_valid_until ob = Some u" "now < as_time u"
    "as_time u \<le> as_time t + HealthObservationValidity" "as_time t \<le> now + minute" by blast
  moreover from ob(3) known have "GetPlatform (ob_key ob) = p"
    using KeyID_GetExtension(2) [of ul "ob_key ob" _ "Some (KeyPlatform p)"]
    by (simp add: KeyID_platform)
  ultimately show ?thesis using ob(1) by fastforce
qed

theorem available_is_fresh_witness:
  "\<exists>ob t u. Some ob \<in> set (cs_observations sample_snapshot) \<and>
    GetPlatform (ob_key ob) = PC_NETWORK_BPFNET \<and>
    ob_observed_at ob = Some t \<and> ob_valid_until ob = Some u \<and> sample_now < as_time u \<and>
    sample_now - as_time t < HealthObservationValidity \<and> as_time t \<le> sample_now + minute"
proof -
  let ?k = "Some (KeyPlatform PC_NETWORK_BPFNET)"
  have "AvailableObservation (\<lambda>s. s) (Some sample_snapshot) ?k sample_now \<noteq> None"
    by code_simp
  moreover obtain d where "PlatformDefinition PC_NETWORK_BPFNET = Some d"
    "fp_MaxValidity (cd_Freshness d) \<noteq> 0"
    by (simp add: PlatformDefinition_def definitions_def platformDefinition_def
        HealthObservationValidity_def second_def)
  ultimately show ?thesis
    using available_is_fresh [of "\<lambda>s. s" sample_snapshot ?k sample_now PC_NETWORK_BPFNET d] by simp
qed

text \<open>C5. Requirements resolved for an allocation are sound: they pass the validation every
  later reader applies, they are the requested keys in canonical form (none lost, none
  added), strictly sorted by identifier, and each was available in a valid snapshot at the
  time of resolution.\<close>

theorem resolved_requirements_sound:
  assumes "ResolveRequirements ul snapshot keys now = Inr rs" "lower_idem ul"
  shows "ValidateRequirements ul (map Some rs) = None \<and>
    mset (map cr_key rs) = mset (map (CloneKey ul) keys) \<and>
    sorted_wrt (requirement_less ul) rs \<and> ValidateSnapshot ul snapshot now = None \<and>
    (\<forall>key\<in>set keys. AvailableObservation ul snapshot key now \<noteq> None)"
  using ResolveRequirements_valid [OF assms] assms(1) resolveLoop_ok(2)
  by (blast elim: ResolveRequirements_cases)

theorem resolved_requirements_sound_witness:
  "ValidateRequirements (\<lambda>s. s)
     [Some \<lparr>cr_key = Some (KeyPlatform PC_NETWORK_BPFNET), cr_loss_policy = LP_DEGRADE\<rparr>,
      Some \<lparr>cr_key = Some (KeyPlatform PC_RUNSC_MEMORY_HARD_LIMIT), cr_loss_policy = LP_FAIL_STOP\<rparr>]
   = None"
proof -
  have "ResolveRequirements (\<lambda>s. s) (Some sample_snapshot)
      [Some (KeyPlatform PC_RUNSC_MEMORY_HARD_LIMIT), Some (KeyPlatform PC_NETWORK_BPFNET)] sample_now
    = Inr [\<lparr>cr_key = Some (KeyPlatform PC_NETWORK_BPFNET), cr_loss_policy = LP_DEGRADE\<rparr>,
        \<lparr>cr_key = Some (KeyPlatform PC_RUNSC_MEMORY_HARD_LIMIT), cr_loss_policy = LP_FAIL_STOP\<rparr>]"
    by code_simp
  from resolved_requirements_sound [OF this lower_idem_id] show ?thesis by simp
qed

text \<open>C6. Derivation is total on well-formed requests: it succeeds exactly when the limits
  are not negative, the extension requests validate, not both kinds of egress enforcement
  are asked for, and a network outside host mode names a supported backend (or the backend
  is deferred).  In particular the final validation of the derived keys never fails.\<close>

theorem derivation_succeeds_iff:
  assumes "lower_idem ul"
  shows "is_ok (deriveRequirements ul input defer) \<longleftrightarrow>
    0 \<le> ri_MemoryLimitBytes input \<and> 0 \<le> ri_EphemeralStorageLimitBytes input \<and>
    ValidateExtensionRequirements ul (ri_ExtensionCapabilityRequests input) = None \<and>
    \<not> (ri_RequiresDNSPolicyEnforcement input \<and> ri_RequiresStrictEgressEnforcement input) \<and>
    (to_lower ul (trim_space (ri_NetworkMode input)) = ''host'' \<or>
     to_lower ul (trim_space (ri_NetworkBackend input)) \<in>
       {''bridge'', ''iptables'', ''bpfnet'', ''ebpf''} \<or>
     defer \<and> to_lower ul (trim_space (ri_NetworkBackend input)) = [])"
proof -
  have "(\<exists>network. networkKeys ul input defer = Inr network) \<longleftrightarrow>
    to_lower ul (trim_space (ri_NetworkMode input)) = ''host'' \<or>
    to_lower ul (trim_space (ri_NetworkBackend input)) \<in>
      {''bridge'', ''iptables'', ''bpfnet'', ''ebpf''} \<or>
    defer \<and> to_lower ul (trim_space (ri_NetworkBackend input)) = []"
    by (auto simp: networkKeys_def Let_def)
  then show ?thesis
    unfolding is_ok_iff deriveRequirements_Inr_iff [OF assms] by blast
qed

definition sample_input :: requirement_input where
  "sample_input =
     \<lparr>ri_NetworkMode = ''sandbox'', ri_NetworkBackend = '' BPFNET'',
      ri_RequiresDNSPolicyEnforcement = False, ri_RequiresStrictEgressEnforcement = True,
      ri_MemoryLimitBytes = 4096, ri_RootfsWritable = False, ri_EphemeralStorageLimitBytes = 1,
      ri_EROFSBacking = False, ri_RootfsSnapshot = True,
      ri_ExtensionCapabilityRequests =
        [Some \<lparr>er_capability = Some \<lparr>ext_name = ''Example.com/gpu'', ext_value = ''a100''\<rparr>\<rparr>]\<rparr>"

theorem derivation_succeeds_iff_witness:
  "is_ok (deriveRequirements (\<lambda>s. s) sample_input False)"
proof -
  have "0 \<le> ri_MemoryLimitBytes sample_input \<and> 0 \<le> ri_EphemeralStorageLimitBytes sample_input \<and>
    ValidateExtensionRequirements (\<lambda>s. s) (ri_ExtensionCapabilityRequests sample_input) = None \<and>
    \<not> (ri_RequiresDNSPolicyEnforcement sample_input \<and> ri_RequiresStrictEgressEnforcement sample_input) \<and>
    to_lower (\<lambda>s. s) (trim_space (ri_NetworkBackend sample_input)) = ''bpfnet''"
    by code_simp
  then show ?thesis
    using derivation_succeeds_iff [OF lower_idem_id, of sample_input False] by simp
qed

text \<open>C7. The derived keys are complete and minimal: a successful derivation returns strictly
  sorted, validated keys, and each enforcement capability is required exactly when the
  request asks for the corresponding guarantee.\<close>

theorem derived_requirements_complete:
  assumes "deriveRequirements ul input defer = Inr ks" "lower_idem ul"
  shows "sorted_wrt (key_less ul) ks \<and> ValidateRequirementKeys ul (map Some ks) = None \<and>
    (KeyPlatform PC_RUNSC_MEMORY_HARD_LIMIT \<in> set ks \<longleftrightarrow> 0 < ri_MemoryLimitBytes input) \<and>
    (KeyPlatform PC_RUNSC_EPHEMERAL_STORAGE_HARD_LIMIT \<in> set ks \<longleftrightarrow>
       ri_RootfsWritable input \<or> 0 < ri_EphemeralStorageLimitBytes input) \<and>
    (KeyPlatform PC_DNS_POLICY_ENFORCEMENT \<in> set ks \<longleftrightarrow> ri_RequiresDNSPolicyEnforcement input) \<and>
    (KeyPlatform PC_STRICT_EGRESS_ENFORCEMENT \<in> set ks \<longleftrightarrow>
       ri_RequiresStrictEgressEnforcement input) \<and>
    {e. KeyExtension e \<in> set ks} =
      {NormalizeExtension ul c | c.
         \<exists>r. Some r \<in> set (ri_ExtensionCapabilityRequests input) \<and> er_capability r = Some c}"
proof -
  from assms(1) [unfolded deriveRequirements_Inr_iff [OF assms(2)]] obtain network where
    network: "networkKeys ul input defer = Inr network"
    and ext: "ValidateExtensionRequirements ul (ri_ExtensionCapabilityRequests input) = None"
    and ks: "ks = sort_slice (key_less ul) (derivedKeys ul input network)" by blast
  have valid: "ValidateRequirementKeys ul (map Some ks) = None"
    using derivedKeys_valid [OF network ext assms(2)]
      ValidateRequirementKeys_mset [of "map Some ks" "map Some (derivedKeys ul input network)" ul]
    by (simp add: ks)
  moreover have "sorted_wrt (key_less ul) ks" by (rule derived_sorted [OF valid ks])
  moreover have "KeyPlatform p \<in> set ks \<longleftrightarrow> p \<in> set (derivedPlatforms input network)" for p
    using derivedKeys_members(1) [OF ext] by (simp add: ks)
  moreover have "{e. KeyExtension e \<in> set ks} = {NormalizeExtension ul c | c.
      \<exists>r. Some r \<in> set (ri_ExtensionCapabilityRequests input) \<and> er_capability r = Some c}"
    using derivedKeys_members(2) [OF ext] by (simp add: ks)
  moreover note networkKeys_cases [OF network]
  ultimately show ?thesis by (auto simp: derivedPlatforms_def)
qed

theorem derived_requirements_complete_witness:
  "\<exists>ks. deriveRequirements (\<lambda>s. s) sample_input False = Inr ks \<and>
     KeyPlatform PC_RUNSC_MEMORY_HARD_LIMIT \<in> set ks"
proof -
  have "is_ok (deriveRequirements (\<lambda>s. s) sample_input False)" by code_simp
  then obtain ks where ks: "deriveRequirements (\<lambda>s. s) sample_input False = Inr ks"
    by (auto simp: is_ok_iff)
  from derived_requirements_complete [OF this lower_idem_id] ks show ?thesis
    by (simp add: sample_input_def)
qed

text \<open>C8. The request-static gate agrees with durable admission: what an admitted request
  requires of a node with a network backend is what the gate derived from the request
  alone, plus at most the network capability of that backend.\<close>

theorem static_requirements_agree:
  assumes "DeriveRequirements ul input = Inr ks" "lower_idem ul"
  shows "\<exists>ks'. DeriveRequestStaticRequirements ul (input\<lparr>ri_NetworkBackend := []\<rparr>) = Inr ks' \<and>
    set ks' = set ks - {KeyPlatform PC_NETWORK_BRIDGE, KeyPlatform PC_NETWORK_BPFNET}"
proof -
  let ?input = "input\<lparr>ri_NetworkBackend := []\<rparr>"
  from assms(1) [unfolded DeriveRequirements_def deriveRequirements_Inr_iff [OF assms(2)]]
  obtain network where
    network: "networkKeys ul input False = Inr network"
    and ks: "ks = sort_slice (key_less ul) (derivedKeys ul input network)"
    and ext: "ValidateExtensionRequirements ul (ri_ExtensionCapabilityRequests input) = None"
    and rest: "0 \<le> ri_MemoryLimitBytes input \<and> 0 \<le> ri_EphemeralStorageLimitBytes input \<and>
      \<not> (ri_RequiresDNSPolicyEnforcement input \<and> ri_RequiresStrictEgressEnforcement input)"
    by blast
  have empty: "to_lower ul (trim_space []) = []"
    by code_simp
  have "networkKeys ul ?input True = Inr []"
    using network empty by (auto simp: networkKeys_def Let_def split: if_splits)
  with rest ext have "DeriveRequestStaticRequirements ul ?input =
      Inr (sort_slice (key_less ul) (derivedKeys ul ?input []))"
    by (simp add: DeriveRequestStaticRequirements_def deriveRequirements_Inr_iff [OF assms(2)])
  moreover have "set (derivedKeys ul ?input []) =
      set (derivedKeys ul input network) - {KeyPlatform PC_NETWORK_BRIDGE, KeyPlatform PC_NETWORK_BPFNET}"
    using networkKeys_cases [OF network] derivedKeys_extensions [OF ext]
    by (auto simp: derivedKeys_def derivedPlatforms_def PlatformKey_def)
  ultimately show ?thesis by (simp add: ks)
qed

theorem static_requirements_agree_witness:
  "\<exists>ks ks'. DeriveRequirements (\<lambda>s. s) sample_input = Inr ks \<and>
    DeriveRequestStaticRequirements (\<lambda>s. s) (sample_input\<lparr>ri_NetworkBackend := []\<rparr>) = Inr ks' \<and>
    set ks' = set ks - {KeyPlatform PC_NETWORK_BRIDGE, KeyPlatform PC_NETWORK_BPFNET}"
proof -
  have "is_ok (DeriveRequirements (\<lambda>s. s) sample_input)" by code_simp
  then obtain ks where ks: "DeriveRequirements (\<lambda>s. s) sample_input = Inr ks"
    by (auto simp: is_ok_iff)
  with static_requirements_agree [OF this lower_idem_id] show ?thesis by blast
qed

text \<open>C9. Two lists of valid requirement keys are equal for the reconciler exactly when they
  hold the same canonical keys with the same multiplicities, in any order.\<close>

theorem requirement_keys_equal_iff:
  assumes "\<forall>key\<in>set left. is_ok (KeyID ul key)" "\<forall>key\<in>set right. is_ok (KeyID ul key)"
  shows "RequirementKeysEqual ul left right \<longleftrightarrow>
    mset (map (CloneKey ul) left) = mset (map (CloneKey ul) right)"
  using assms by (rule RequirementKeysEqual_mset)

theorem requirement_keys_equal_iff_witness:
  "RequirementKeysEqual (\<lambda>s. s)
     [sample_extension ''example.com'', Some (KeyPlatform PC_ROOTFS_SNAPSHOT)]
     [Some (KeyPlatform PC_ROOTFS_SNAPSHOT), sample_extension ''Example.com'']"
proof -
  let ?l = "[sample_extension ''example.com'', Some (KeyPlatform PC_ROOTFS_SNAPSHOT)]"
  let ?r = "[Some (KeyPlatform PC_ROOTFS_SNAPSHOT), sample_extension ''Example.com'']"
  have "\<forall>key\<in>set ?l. is_ok (KeyID (\<lambda>s. s) key)" "\<forall>key\<in>set ?r. is_ok (KeyID (\<lambda>s. s) key)"
    by code_simp+
  moreover have "map (CloneKey (\<lambda>s. s)) ?l = rev (map (CloneKey (\<lambda>s. s)) ?r)"
    by code_simp
  then have "mset (map (CloneKey (\<lambda>s. s)) ?l) = mset (map (CloneKey (\<lambda>s. s)) ?r)"
    by (metis mset_rev)
  ultimately show ?thesis using requirement_keys_equal_iff [of ?l "\<lambda>s. s" ?r] by blast
qed

text \<open>C10. Diagnostics are bounded whatever a provider reports: a bounded reason is valid
  UTF-8 of at most 1024 bytes, and a reason that already is one is kept unchanged.\<close>

theorem bounded_reason_correct:
  "valid_utf8 (BoundedReason reason) \<and> length (BoundedReason reason) \<le> MaxReasonBytes \<and>
   (BoundedReason reason = reason \<longleftrightarrow> valid_utf8 reason \<and> length reason \<le> MaxReasonBytes)"
  using BoundedReason_valid [of reason] BoundedReason_length [of reason] BoundedReason_id [of reason]
  by metis

text \<open>C11. A report does not outlive itself: if the capability of an observation was evaluated
  available and it, or a dependency of it, has bounded validity, then once the validity and
  the tolerated skew have passed the same report no longer counts.  The observation is then
  evaluated unknown and expired, and the transition is reported as a change.\<close>

theorem availability_lapses:
  assumes "Some ob \<in> set (cs_observations snap)"
    and "ev_State (EvaluateObservation ul (Some snap) (Some ob) now) = CS_AVAILABLE"
    and "p = GetPlatform (ob_key ob) \<or> p \<in> set (key_dependencies (ob_key ob))"
    and "PlatformDefinition p = Some d" "fp_MaxValidity (cd_Freshness d) \<noteq> 0"
    and "now + minute + HealthObservationValidity \<le> later"
  shows "ev_State (EvaluateObservation ul (Some snap) (Some ob) later) = CS_UNKNOWN \<and>
    ev_ReasonCode (EvaluateObservation ul (Some snap) (Some ob) later) = RC_EXPIRED \<and>
    snd (EvaluateObservationTransition ul (Some snap) (Some ob) now (Some snap) (Some ob) later)"
proof -
  have known: "PlatformDefinition p \<noteq> None" using assms(4) by simp
  have "consultable ul snap now \<Longrightarrow> observed_current ul snap now (ob_key ob) \<Longrightarrow> ob_state ob = CS_AVAILABLE"
    using observed_current_unique [OF _ _ assms(1)]
    by (fastforce simp: consultable_def observed_current_def observationValid_def split: if_splits)
  then have now: "AvailableObservation ul (Some snap) (ob_key ob) now \<noteq> None"
    and claims: "ob_state ob = CS_AVAILABLE"
    using assms(2) AvailableObservation_iff [of ul snap "ob_key ob" now]
    by (auto simp: EvaluateObservation_def split: if_splits)
  have "AvailableObservation ul (Some snap) (ob_key ob) later = None"
  proof (rule ccontr)
    assume later: "AvailableObservation ul (Some snap) (ob_key ob) later \<noteq> None"
    from now have "is_ok (observationsByKey ul (cs_observations snap))"
      unfolding AvailableObservation_iff by (simp add: consultable_def)
    from observed_current_lapses [OF this available_observed [OF now assms(3) known]
        available_observed [OF later assms(3) known] assms(4,5)] assms(6)
    show False by simp
  qed
  with now claims show ?thesis
    by (simp add: EvaluateObservation_def EvaluateObservationTransition_def)
qed

theorem availability_lapses_witness:
  "\<exists>ob. sample_observation PC_NETWORK_BPFNET CP_NETWORK_HEALTH None
       (Some \<lparr>ts_seconds = 1015, ts_nanos = 0\<rparr>) = Some ob \<and>
     ev_State (EvaluateObservation (\<lambda>s. s) (Some sample_snapshot) (Some ob) sample_now) = CS_AVAILABLE \<and>
     ev_State (EvaluateObservation (\<lambda>s. s) (Some sample_snapshot) (Some ob) (1080 * second)) = CS_UNKNOWN"
proof -
  let ?o = "sample_observation PC_NETWORK_BPFNET CP_NETWORK_HEALTH None (Some \<lparr>ts_seconds = 1015, ts_nanos = 0\<rparr>)"
  obtain ob where ob: "?o = Some ob" "ob_key ob = Some (KeyPlatform PC_NETWORK_BPFNET)"
    by (simp add: sample_observation_def)
  then have mem: "Some ob \<in> set (cs_observations sample_snapshot)"
    by (simp add: sample_snapshot_def)
  have "ev_State (EvaluateObservation (\<lambda>s. s) (Some sample_snapshot) ?o sample_now) = CS_AVAILABLE"
    by code_simp
  then have now: "ev_State (EvaluateObservation (\<lambda>s. s) (Some sample_snapshot) (Some ob) sample_now) = CS_AVAILABLE"
    by (simp only: ob(1))
  obtain d where d: "PlatformDefinition PC_NETWORK_BPFNET = Some d" "fp_MaxValidity (cd_Freshness d) \<noteq> 0"
    by (simp add: PlatformDefinition_def definitions_def platformDefinition_def
        HealthObservationValidity_def second_def)
  have late: "sample_now + minute + HealthObservationValidity \<le> 1080 * second" by code_simp
  have p: "PC_NETWORK_BPFNET = GetPlatform (ob_key ob)" by (simp add: ob(2))
  from availability_lapses [OF mem now disjI1 [OF p] d late] now ob(1) show ?thesis by blast
qed

end
