(* ===== verification/Resource_Policy.thy ===== *)
theory Resource_Policy
  imports Go_Text
begin

text \<open>
  Resource arithmetic of the control plane (\<open>kernel/resource\<close>): the fit of a claim
  into the allocatable resources of a node and into a namespace quota, CPU overcommit, and
  the diagnostics derived from a rejection.  All quantities are \<open>int64\<close>; the one
  subtraction that can leave the range is wrapped.

  CPU overcommit multiplies in IEEE double precision.  A finite double is
  \<open>F64 m e\<close>, the number \<open>m * 2 ^ e\<close>; results are rounded to 53 significant bits,
  ties to even.  The operands here are an integer and the configured ratio, so products are
  never subnormal.  The conversion of a double outside the \<open>int64\<close> range is left to the
  implementation by the Go specification; the model uses the result of the amd64 port,
  \<open>MinInt64\<close>.

  The lemmas show that a claim fits exactly when the sum with the used amount stays within
  the limit, without overflow, that saturating addition is addition clamped to the range,
  and that a rejected quota evaluation always has one of the persisted reasons.
\<close>

section \<open>Double precision\<close>

datatype float64 = F64NaN | F64Inf bool | F64 int int

function bit_length :: "int \<Rightarrow> nat" where
  "bit_length n = (if n \<le> 0 then 0 else Suc (bit_length (n div 2)))"
  by pat_completeness auto
termination by (relation "measure nat") auto

declare bit_length.simps [simp del]

definition round_half_even :: "int \<Rightarrow> nat \<Rightarrow> int" where
  "round_half_even m k =
     (let q = m div 2 ^ k; r = m mod 2 ^ k
      in if 2 * r < 2 ^ k then q
         else if 2 ^ k < 2 * r then q + 1
         else if even q then q else q + 1)"

definition f64_make :: "int \<Rightarrow> int \<Rightarrow> float64" where
  "f64_make m e =
     (let k = bit_length \<bar>m\<bar> - 53;
          a = round_half_even \<bar>m\<bar> k; e' = e + int k
      in if 1024 < int (bit_length a) + e' then F64Inf (m < 0)
         else F64 (sgn m * a) e')"

definition f64_of_int :: "int \<Rightarrow> float64" where
  "f64_of_int x = f64_make x 0"

fun f64_mul :: "float64 \<Rightarrow> float64 \<Rightarrow> float64" where
  "f64_mul (F64 m e) (F64 m' e') = f64_make (m * m') (e + e')"
| "f64_mul (F64Inf s) (F64 m e) = (if m = 0 then F64NaN else F64Inf (s \<noteq> (m < 0)))"
| "f64_mul (F64 m e) (F64Inf s) = (if m = 0 then F64NaN else F64Inf (s \<noteq> (m < 0)))"
| "f64_mul (F64Inf s) (F64Inf t) = F64Inf (s \<noteq> t)"
| "f64_mul _ _ = F64NaN"

fun f64_floor :: "float64 \<Rightarrow> float64" where
  "f64_floor (F64 m e) = (if 0 \<le> e then F64 m e else F64 (m div 2 ^ nat (- e)) 0)"
| "f64_floor x = x"

fun f64_less :: "float64 \<Rightarrow> float64 \<Rightarrow> bool" where
  "f64_less (F64 m e) (F64 m' e') =
     (let k = min e e' in m * 2 ^ nat (e - k) < m' * 2 ^ nat (e' - k))"
| "f64_less (F64Inf s) (F64 m e) = s"
| "f64_less (F64 m e) (F64Inf s) = (\<not> s)"
| "f64_less (F64Inf s) (F64Inf t) = (s \<and> \<not> t)"
| "f64_less _ _ = False"

fun f64_to_int64 :: "float64 \<Rightarrow> int64" where
  "f64_to_int64 (F64 m e) =
     (let t = (if 0 \<le> e then m * 2 ^ nat e else sgn m * (\<bar>m\<bar> div 2 ^ nat (- e)))
      in if is_int64 t then t else MinInt64)"
| "f64_to_int64 _ = MinInt64"

section \<open>Claims and fit\<close>

record resource_quantity =
  rq_cpu_milli :: int64
  rq_memory_bytes :: int64
  rq_ephemeral_storage_bytes :: int64

definition GetCpuMilli :: "resource_quantity option \<Rightarrow> int64" where
  "GetCpuMilli q = (case q of None \<Rightarrow> 0 | Some r \<Rightarrow> rq_cpu_milli r)"

definition GetMemoryBytes :: "resource_quantity option \<Rightarrow> int64" where
  "GetMemoryBytes q = (case q of None \<Rightarrow> 0 | Some r \<Rightarrow> rq_memory_bytes r)"

definition GetEphemeralStorageBytes :: "resource_quantity option \<Rightarrow> int64" where
  "GetEphemeralStorageBytes q = (case q of None \<Rightarrow> 0 | Some r \<Rightarrow> rq_ephemeral_storage_bytes r)"

record admission_policy =
  CPUOvercommitRatio :: float64

record claim =
  CPUMilli :: int64
  MemoryBytes :: int64
  EphemeralStorageBytes :: int64

record resource_evaluation =
  re_Requested :: int64
  re_Used :: int64
  re_EffectiveAllocatable :: int64
  re_Available :: int64
  re_Fits :: bool

record fit_evaluation =
  fe_CPU :: resource_evaluation
  fe_Memory :: resource_evaluation
  fe_EphemeralStorage :: resource_evaluation

record namespace_quota_policy =
  CPUMilliLimit :: "int64 option"
  MemoryBytesLimit :: "int64 option"
  EphemeralStorageBytesLimit :: "int64 option"

record quota_resource_evaluation =
  qe_Requested :: int64
  qe_Used :: int64
  qe_Limit :: "int64 option"
  qe_Available :: "int64 option"
  qe_Fits :: bool

record quota_evaluation =
  qe_CPU :: quota_resource_evaluation
  qe_Memory :: quota_resource_evaluation
  qe_EphemeralStorage :: quota_resource_evaluation

definition zero_claim :: claim where
  "zero_claim = \<lparr>CPUMilli = 0, MemoryBytes = 0, EphemeralStorageBytes = 0\<rparr>"

definition DefaultCPUOvercommitRatio :: float64 where
  "DefaultCPUOvercommitRatio = F64 1 0"

text \<open>A ratio equal to zero, of either sign.\<close>

definition f64_is_zero :: "float64 \<Rightarrow> bool" where
  "f64_is_zero x = (case x of F64 m e \<Rightarrow> m = 0 | _ \<Rightarrow> False)"

definition NormalizeAdmissionPolicy :: "admission_policy \<Rightarrow> admission_policy" where
  "NormalizeAdmissionPolicy policy =
     (if f64_is_zero (CPUOvercommitRatio policy)
      then policy\<lparr>CPUOvercommitRatio := DefaultCPUOvercommitRatio\<rparr> else policy)"

definition SaturatingAdd :: "int64 \<Rightarrow> int64 \<Rightarrow> int64" where
  "SaturatingAdd left right =
     (if 0 < right \<and> MaxInt64 - right < left then MaxInt64
      else if right < 0 \<and> left < MinInt64 - right then MinInt64
      else wrap64 (left + right))"

definition ValidateAdmissionPolicy :: "admission_policy \<Rightarrow> bool" where
  "ValidateAdmissionPolicy policy =
     (case CPUOvercommitRatio policy of
        F64 m e \<Rightarrow> \<not> m \<le> 0
      | _ \<Rightarrow> False)"

definition scaleCPUMilli :: "int64 \<Rightarrow> float64 \<Rightarrow> int64" where
  "scaleCPUMilli cpuMilli ratio =
     (if cpuMilli \<le> 0 then cpuMilli
      else
        (let scaled = f64_floor (f64_mul (f64_of_int cpuMilli) ratio)
         in if f64_less (f64_of_int MaxInt64) scaled then MaxInt64
            else f64_to_int64 scaled))"

definition EffectiveAllocatable :: "admission_policy \<Rightarrow> resource_quantity option \<Rightarrow> claim" where
  "EffectiveAllocatable policy allocatable =
     \<lparr>CPUMilli = scaleCPUMilli (GetCpuMilli allocatable)
                  (CPUOvercommitRatio (NormalizeAdmissionPolicy policy)),
      MemoryBytes = GetMemoryBytes allocatable,
      EphemeralStorageBytes = GetEphemeralStorageBytes allocatable\<rparr>"

definition availableResource :: "int64 \<Rightarrow> int64 \<Rightarrow> int64" where
  "availableResource used limit =
     (if limit \<le> 0 \<or> limit \<le> used then 0 else wrap64 (limit - used))"

definition exceeds :: "int64 \<Rightarrow> int64 \<Rightarrow> int64 \<Rightarrow> bool" where
  "exceeds used requested limit =
     (if requested \<le> 0 then False
      else if limit \<le> 0 then True
      else if limit \<le> used then True
      else wrap64 (limit - used) < requested)"

definition evaluateResource :: "int64 \<Rightarrow> int64 \<Rightarrow> int64 \<Rightarrow> resource_evaluation" where
  "evaluateResource used requested limit =
     \<lparr>re_Requested = requested, re_Used = used, re_EffectiveAllocatable = limit,
      re_Available = availableResource used limit, re_Fits = (\<not> exceeds used requested limit)\<rparr>"

definition EvaluateFit ::
  "admission_policy \<Rightarrow> resource_quantity option \<Rightarrow> claim \<Rightarrow> claim \<Rightarrow> fit_evaluation" where
  "EvaluateFit policy allocatable used requested =
     (let effective = EffectiveAllocatable policy allocatable
      in \<lparr>fe_CPU = evaluateResource (CPUMilli used) (CPUMilli requested) (CPUMilli effective),
          fe_Memory = evaluateResource (MemoryBytes used) (MemoryBytes requested) (MemoryBytes effective),
          fe_EphemeralStorage =
            evaluateResource (EphemeralStorageBytes used) (EphemeralStorageBytes requested)
              (EphemeralStorageBytes effective)\<rparr>)"

definition fit_Fits :: "fit_evaluation \<Rightarrow> bool" where
  "fit_Fits e \<longleftrightarrow> re_Fits (fe_CPU e) \<and> re_Fits (fe_Memory e) \<and> re_Fits (fe_EphemeralStorage e)"

definition policy_Fits ::
  "admission_policy \<Rightarrow> resource_quantity option \<Rightarrow> claim \<Rightarrow> claim \<Rightarrow> bool" where
  "policy_Fits policy allocatable used requested = fit_Fits (EvaluateFit policy allocatable used requested)"

definition QuantityToClaim :: "resource_quantity option \<Rightarrow> claim" where
  "QuantityToClaim quantity =
     \<lparr>CPUMilli = GetCpuMilli quantity, MemoryBytes = GetMemoryBytes quantity,
      EphemeralStorageBytes = GetEphemeralStorageBytes quantity\<rparr>"

definition evaluateQuotaResource ::
  "int64 \<Rightarrow> int64 \<Rightarrow> int64 option \<Rightarrow> quota_resource_evaluation" where
  "evaluateQuotaResource used requested limit =
     (case limit of
        None \<Rightarrow> \<lparr>qe_Requested = requested, qe_Used = used, qe_Limit = None,
                 qe_Available = None, qe_Fits = True\<rparr>
      | Some l \<Rightarrow> \<lparr>qe_Requested = requested, qe_Used = used, qe_Limit = Some l,
                   qe_Available = Some (availableResource used l),
                   qe_Fits = (\<not> exceeds used requested l)\<rparr>)"

definition QuotaEvaluateFit ::
  "namespace_quota_policy \<Rightarrow> claim \<Rightarrow> claim \<Rightarrow> quota_evaluation" where
  "QuotaEvaluateFit policy used requested =
     \<lparr>qe_CPU = evaluateQuotaResource (CPUMilli used) (CPUMilli requested) (CPUMilliLimit policy),
      qe_Memory = evaluateQuotaResource (MemoryBytes used) (MemoryBytes requested)
                    (MemoryBytesLimit policy),
      qe_EphemeralStorage = evaluateQuotaResource (EphemeralStorageBytes used)
                    (EphemeralStorageBytes requested) (EphemeralStorageBytesLimit policy)\<rparr>"

definition quota_Fits :: "quota_evaluation \<Rightarrow> bool" where
  "quota_Fits e \<longleftrightarrow> qe_Fits (qe_CPU e) \<and> qe_Fits (qe_Memory e) \<and> qe_Fits (qe_EphemeralStorage e)"

definition quota_policy_Fits :: "namespace_quota_policy \<Rightarrow> claim \<Rightarrow> claim \<Rightarrow> bool" where
  "quota_policy_Fits policy used requested = quota_Fits (QuotaEvaluateFit policy used requested)"

section \<open>Diagnostics\<close>

datatype admission_rejection_reason =
    RejectionNamespaceQuotaExceeded | RejectionNodeCapacity | RejectionPlacementCapacity
  | RejectionNodeSelection | RejectionOther string

datatype admission_diagnostic_code =
    DiagnosticUnspecified | DiagnosticNamespaceQuotaExceeded | DiagnosticNodeCapacity
  | DiagnosticPlacementCapacity | DiagnosticNodeSelection

datatype quota_event_reason =
    InsufficientCPU | InsufficientMemory | InsufficientCPUMemory | InsufficientEphemeralStorage
  | QuotaExceeded

fun AdmissionDiagnosticForReason :: "admission_rejection_reason \<Rightarrow> admission_diagnostic_code" where
  "AdmissionDiagnosticForReason RejectionNamespaceQuotaExceeded = DiagnosticNamespaceQuotaExceeded"
| "AdmissionDiagnosticForReason RejectionNodeCapacity = DiagnosticNodeCapacity"
| "AdmissionDiagnosticForReason RejectionPlacementCapacity = DiagnosticPlacementCapacity"
| "AdmissionDiagnosticForReason RejectionNodeSelection = DiagnosticNodeSelection"
| "AdmissionDiagnosticForReason (RejectionOther s) = DiagnosticUnspecified"

fun AdmissionReasonBlocksCapacity :: "admission_rejection_reason \<Rightarrow> bool" where
  "AdmissionReasonBlocksCapacity RejectionNamespaceQuotaExceeded = True"
| "AdmissionReasonBlocksCapacity RejectionNodeCapacity = True"
| "AdmissionReasonBlocksCapacity RejectionPlacementCapacity = True"
| "AdmissionReasonBlocksCapacity _ = False"

definition QuotaEventReasonForEvaluation :: "quota_evaluation \<Rightarrow> quota_event_reason" where
  "QuotaEventReasonForEvaluation evaluation =
     (let cpu = 0 < qe_Requested (qe_CPU evaluation) \<and> \<not> qe_Fits (qe_CPU evaluation);
          memory = 0 < qe_Requested (qe_Memory evaluation) \<and> \<not> qe_Fits (qe_Memory evaluation);
          ephemeralStorage = 0 < qe_Requested (qe_EphemeralStorage evaluation)
                             \<and> \<not> qe_Fits (qe_EphemeralStorage evaluation)
      in if ephemeralStorage \<and> \<not> cpu \<and> \<not> memory then InsufficientEphemeralStorage
         else if cpu \<and> memory then InsufficientCPUMemory
         else if cpu then InsufficientCPU
         else if memory then InsufficientMemory
         else QuotaExceeded)"

section \<open>Accumulated claims\<close>

definition add_claim :: "claim \<Rightarrow> claim \<Rightarrow> claim" where
  "add_claim a b =
     \<lparr>CPUMilli = CPUMilli a + CPUMilli b, MemoryBytes = MemoryBytes a + MemoryBytes b,
      EphemeralStorageBytes = EphemeralStorageBytes a + EphemeralStorageBytes b\<rparr>"

text \<open>A claim stays within a limit when every component does; a limit that is not positive
  admits only the empty amount.\<close>

definition within_limit :: "claim \<Rightarrow> claim \<Rightarrow> bool" where
  "within_limit limit used \<longleftrightarrow>
     CPUMilli used \<le> max 0 (CPUMilli limit) \<and> MemoryBytes used \<le> max 0 (MemoryBytes limit) \<and>
     EphemeralStorageBytes used \<le> max 0 (EphemeralStorageBytes limit)"

definition within_quota :: "namespace_quota_policy \<Rightarrow> claim \<Rightarrow> bool" where
  "within_quota policy used \<longleftrightarrow>
     (\<forall>l. CPUMilliLimit policy = Some l \<longrightarrow> CPUMilli used \<le> max 0 l) \<and>
     (\<forall>l. MemoryBytesLimit policy = Some l \<longrightarrow> MemoryBytes used \<le> max 0 l) \<and>
     (\<forall>l. EphemeralStorageBytesLimit policy = Some l \<longrightarrow> EphemeralStorageBytes used \<le> max 0 l)"

text \<open>Offering claims to a gate one after the other, adding those it accepts.\<close>

fun admit_all :: "(claim \<Rightarrow> claim \<Rightarrow> bool) \<Rightarrow> claim \<Rightarrow> claim list \<Rightarrow> claim" where
  "admit_all fits used [] = used"
| "admit_all fits used (c # cs) =
     admit_all fits (if fits used c then add_claim used c else used) cs"

section \<open>Lemmas\<close>

text \<open>The range of the values the model carries.\<close>

definition is_claim64 :: "claim \<Rightarrow> bool" where
  "is_claim64 c \<longleftrightarrow>
     is_int64 (CPUMilli c) \<and> is_int64 (MemoryBytes c) \<and> is_int64 (EphemeralStorageBytes c)"

definition claim_nonneg :: "claim \<Rightarrow> bool" where
  "claim_nonneg c \<longleftrightarrow> 0 \<le> CPUMilli c \<and> 0 \<le> MemoryBytes c \<and> 0 \<le> EphemeralStorageBytes c"

lemma exceeds_iff:
  assumes "0 \<le> used" "is_int64 limit"
  shows "exceeds used requested limit \<longleftrightarrow> 0 < requested \<and> limit < used + requested"
  using assms is_int64_diff_nonneg [of limit used]
  by (auto simp: exceeds_def wrap64_id)

lemma availableResource_eq:
  assumes "0 \<le> used" "is_int64 limit"
  shows "availableResource used limit = max 0 (limit - used)"
  using assms is_int64_diff_nonneg [of limit used]
  by (auto simp: availableResource_def wrap64_id)

lemma SaturatingAdd_eq:
  assumes "is_int64 a" "is_int64 b"
  shows "SaturatingAdd a b = max MinInt64 (min MaxInt64 (a + b))"
  using assms wrap64_id [of "a + b"]
  by (auto simp: SaturatingAdd_def is_int64_def MinInt64_def MaxInt64_def)

lemma bit_length_bound: "n < 2 ^ k \<Longrightarrow> bit_length n \<le> k"
proof (induction n arbitrary: k rule: bit_length.induct)
  case (1 n)
  show ?case
  proof (cases "n \<le> 0")
    case False
    with "1.prems" obtain k' where k: "k = Suc k'" by (cases k) auto
    with "1.prems" have "n div 2 < 2 ^ k'" by simp
    with 1(1) [OF False, of k'] False k show ?thesis by (subst bit_length.simps) simp
  qed (simp add: bit_length.simps)
qed

lemma round_half_even_0 [simp]: "round_half_even a 0 = a"
  by (simp add: round_half_even_def)

lemma f64_make_exact:
  assumes "\<bar>m\<bar> < 2 ^ 53" "e \<le> 971"
  shows "f64_make m e = F64 m e"
proof -
  have len: "bit_length \<bar>m\<bar> \<le> 53" using assms(1) by (rule bit_length_bound)
  then have shift: "bit_length \<bar>m\<bar> - 53 = 0" by simp
  have "\<not> 1024 < int (bit_length \<bar>m\<bar>) + (e + int 0)" using len assms(2) by linarith
  moreover have "sgn m * \<bar>m\<bar> = m" by (simp add: sgn_if)
  ultimately show ?thesis
    by (simp only: f64_make_def Let_def shift round_half_even_0 if_False of_nat_0 add_0_right)
qed

lemma f64_of_MaxInt64: "f64_of_int MaxInt64 = F64 (2 ^ 53) 10"
  by code_simp

text \<open>Overcommit is exact while the scaled value fits into the 53 bits of a double.\<close>

lemma scaleCPUMilli_exact:
  assumes "0 < cpu" "cpu < 2 ^ 53" "0 < m" "cpu * m < 2 ^ 53" "e \<le> 0"
  shows "scaleCPUMilli cpu (F64 m e) = cpu * m div 2 ^ nat (- e)"
proof -
  have "f64_of_int cpu = F64 cpu 0"
    using assms(1,2) by (simp add: f64_of_int_def f64_make_exact)
  moreover have "f64_make (cpu * m) e = F64 (cpu * m) e"
    using assms(1,3,4,5) by (simp add: f64_make_exact)
  ultimately have scaled: "f64_floor (f64_mul (f64_of_int cpu) (F64 m e)) =
      F64 (cpu * m div 2 ^ nat (- e)) 0"
    using assms(5) by (cases "e = 0") auto
  have bounds: "0 \<le> cpu * m div 2 ^ nat (- e)" "cpu * m div 2 ^ nat (- e) < 2 ^ 53"
    using assms(1,3,4) int_div_le_self [of "cpu * m" "2 ^ nat (- e)"]
    by (simp_all add: pos_imp_zdiv_nonneg_iff)
  then have "is_int64 (cpu * m div 2 ^ nat (- e))"
    by (simp add: is_int64_def MinInt64_def MaxInt64_def)
  with bounds scaled assms(1) show ?thesis
    by (simp add: scaleCPUMilli_def f64_of_MaxInt64 min_def)
qed

lemma scaleCPUMilli_range: "is_int64 cpu \<Longrightarrow> is_int64 (scaleCPUMilli cpu ratio)"
proof -
  have "is_int64 (f64_to_int64 x)" for x
    by (cases x rule: f64_to_int64.cases)
      (auto simp: Let_def is_int64_def MinInt64_def MaxInt64_def)
  then show "is_int64 cpu \<Longrightarrow> is_int64 (scaleCPUMilli cpu ratio)"
    by (auto simp: scaleCPUMilli_def Let_def is_int64_def MinInt64_def MaxInt64_def)
qed

lemma wrap64_le: "0 \<le> x \<Longrightarrow> wrap64 x \<le> x"
proof -
  assume "0 \<le> x"
  have "wrap64 x \<le> take_bit 64 x"
    by (simp add: wrap64_def signed_take_bit_eq_take_bit_minus)
  also have "\<dots> \<le> x" using \<open>0 \<le> x\<close> by (simp add: take_bit_int_less_eq_self_iff)
  finally show ?thesis .
qed

lemma not_exceeds_within:
  assumes "0 \<le> used" "0 \<le> requested" "used \<le> max 0 limit" "\<not> exceeds used requested limit"
  shows "used + requested \<le> max 0 limit"
proof (cases "requested = 0")
  case False
  with assms have "used < limit" "requested \<le> wrap64 (limit - used)"
    by (auto simp: exceeds_def split: if_splits)
  with wrap64_le [of "limit - used"] show ?thesis by linarith
qed (use assms in simp)

section \<open>The contract of an admission gate\<close>

text \<open>A gate decides whether a claim may be added to what is used.  Its contract: from an
  amount within the limit, an accepted claim leads to an amount within the limit.  Then any
  sequence of accepted claims stays within the limit.\<close>

locale capacity_gate =
  fixes fits :: "claim \<Rightarrow> claim \<Rightarrow> bool"
    and within :: "claim \<Rightarrow> bool"
  assumes gate: "claim_nonneg used \<Longrightarrow> claim_nonneg requested \<Longrightarrow> within used \<Longrightarrow>
      fits used requested \<Longrightarrow> within (add_claim used requested)"
    and within_empty: "within zero_claim"
begin

lemma admit_all_within:
  "claim_nonneg used \<Longrightarrow> within used \<Longrightarrow> \<forall>c\<in>set cs. claim_nonneg c \<Longrightarrow>
   within (admit_all fits used cs) \<and> claim_nonneg (admit_all fits used cs)"
proof (induction cs arbitrary: used)
  case (Cons c cs)
  then have "claim_nonneg (add_claim used c)"
    by (simp add: claim_nonneg_def add_claim_def)
  with Cons gate [of used c] show ?case by simp
qed simp

end

interpretation node_gate:
  capacity_gate "policy_Fits policy allocatable" "within_limit (EffectiveAllocatable policy allocatable)"
proof
  fix used requested
  assume "claim_nonneg used" "claim_nonneg requested"
    "within_limit (EffectiveAllocatable policy allocatable) used" "policy_Fits policy allocatable used requested"
  then show "within_limit (EffectiveAllocatable policy allocatable) (add_claim used requested)"
    by (simp add: policy_Fits_def fit_Fits_def EvaluateFit_def Let_def evaluateResource_def
        within_limit_def add_claim_def claim_nonneg_def not_exceeds_within)
qed (simp add: within_limit_def zero_claim_def)

lemma quota_component_within:
  assumes "0 \<le> used" "0 \<le> requested" "\<forall>l. limit = Some l \<longrightarrow> used \<le> max 0 l"
    and "qe_Fits (evaluateQuotaResource used requested limit)" "limit = Some l"
  shows "used + requested \<le> max 0 l"
  using assms not_exceeds_within [of used requested l] by (simp add: evaluateQuotaResource_def)

interpretation quota_gate: capacity_gate "quota_policy_Fits policy" "within_quota policy"
proof
  fix used requested
  assume "claim_nonneg used" "claim_nonneg requested" "within_quota policy used"
    "quota_policy_Fits policy used requested"
  then show "within_quota policy (add_claim used requested)"
    unfolding within_quota_def quota_policy_Fits_def quota_Fits_def QuotaEvaluateFit_def
      claim_nonneg_def add_claim_def
    by (auto intro: quota_component_within simp del: max.cobounded1)
qed (simp add: within_quota_def zero_claim_def)

section \<open>Shortage under a quota\<close>

text \<open>A limit is short for a request that asks for something and would pass the limit.  The
  sums are exact, not those of \<open>int64\<close>.\<close>

definition short :: "int64 option \<Rightarrow> int64 \<Rightarrow> int64 \<Rightarrow> bool" where
  "short limit used requested \<longleftrightarrow> (\<exists>l. limit = Some l \<and> 0 < requested \<and> l < used + requested)"

definition cpu_short :: "namespace_quota_policy \<Rightarrow> claim \<Rightarrow> claim \<Rightarrow> bool" where
  "cpu_short policy used requested = short (CPUMilliLimit policy) (CPUMilli used) (CPUMilli requested)"

definition memory_short :: "namespace_quota_policy \<Rightarrow> claim \<Rightarrow> claim \<Rightarrow> bool" where
  "memory_short policy used requested =
     short (MemoryBytesLimit policy) (MemoryBytes used) (MemoryBytes requested)"

definition ephemeral_short :: "namespace_quota_policy \<Rightarrow> claim \<Rightarrow> claim \<Rightarrow> bool" where
  "ephemeral_short policy used requested =
     short (EphemeralStorageBytesLimit policy) (EphemeralStorageBytes used) (EphemeralStorageBytes requested)"

definition quota64 :: "namespace_quota_policy \<Rightarrow> bool" where
  "quota64 policy \<longleftrightarrow>
     pred_option is_int64 (CPUMilliLimit policy) \<and> pred_option is_int64 (MemoryBytesLimit policy) \<and>
     pred_option is_int64 (EphemeralStorageBytesLimit policy)"

lemma evaluateQuotaResource_short:
  assumes "0 \<le> used" "pred_option is_int64 limit"
  shows "qe_Fits (evaluateQuotaResource used requested limit) \<longleftrightarrow> \<not> short limit used requested"
    "qe_Requested (evaluateQuotaResource used requested limit) = requested"
  using assms by (auto simp: evaluateQuotaResource_def short_def exceeds_iff split: option.splits)

lemma QuotaEvaluateFit_short:
  assumes "claim_nonneg used" "quota64 policy"
  shows "qe_Fits (qe_CPU (QuotaEvaluateFit policy used requested)) \<longleftrightarrow> \<not> cpu_short policy used requested"
    "qe_Fits (qe_Memory (QuotaEvaluateFit policy used requested)) \<longleftrightarrow> \<not> memory_short policy used requested"
    "qe_Fits (qe_EphemeralStorage (QuotaEvaluateFit policy used requested)) \<longleftrightarrow>
       \<not> ephemeral_short policy used requested"
    "qe_Requested (qe_CPU (QuotaEvaluateFit policy used requested)) = CPUMilli requested"
    "qe_Requested (qe_Memory (QuotaEvaluateFit policy used requested)) = MemoryBytes requested"
    "qe_Requested (qe_EphemeralStorage (QuotaEvaluateFit policy used requested)) = EphemeralStorageBytes requested"
  using assms
  by (simp_all add: QuotaEvaluateFit_def evaluateQuotaResource_short claim_nonneg_def quota64_def
      cpu_short_def memory_short_def ephemeral_short_def)

lemma short_positive:
  "cpu_short policy used requested \<Longrightarrow> 0 < CPUMilli requested"
  "memory_short policy used requested \<Longrightarrow> 0 < MemoryBytes requested"
  "ephemeral_short policy used requested \<Longrightarrow> 0 < EphemeralStorageBytes requested"
  by (auto simp: cpu_short_def memory_short_def ephemeral_short_def short_def)

section \<open>Properties\<close>

text \<open>C12. A claim fits a node exactly when, for each resource of which it requests a positive
  amount, the amount already used plus the request is at most the effective allocatable
  amount.  The used amounts are not negative and the effective allocatable amount is within
  \<open>int64\<close>; the request is any claim, and no intermediate value overflows.\<close>

theorem fits_iff_within_allocatable:
  assumes "claim_nonneg used" "is_claim64 (EffectiveAllocatable policy allocatable)"
  shows "policy_Fits policy allocatable used requested \<longleftrightarrow>
    (0 < CPUMilli requested \<longrightarrow>
       CPUMilli used + CPUMilli requested \<le> CPUMilli (EffectiveAllocatable policy allocatable)) \<and>
    (0 < MemoryBytes requested \<longrightarrow>
       MemoryBytes used + MemoryBytes requested \<le> MemoryBytes (EffectiveAllocatable policy allocatable)) \<and>
    (0 < EphemeralStorageBytes requested \<longrightarrow>
       EphemeralStorageBytes used + EphemeralStorageBytes requested
         \<le> EphemeralStorageBytes (EffectiveAllocatable policy allocatable))"
  using assms
  by (auto simp: policy_Fits_def fit_Fits_def EvaluateFit_def Let_def evaluateResource_def
      exceeds_iff claim_nonneg_def is_claim64_def)

definition sample_quantity :: "resource_quantity option" where
  "sample_quantity =
     Some \<lparr>rq_cpu_milli = 4000, rq_memory_bytes = 8000, rq_ephemeral_storage_bytes = 100\<rparr>"

definition sample_policy :: admission_policy where
  "sample_policy = \<lparr>CPUOvercommitRatio = F64 3 (- 1)\<rparr>"

definition sample_claim :: "int64 \<Rightarrow> int64 \<Rightarrow> int64 \<Rightarrow> claim" where
  "sample_claim c m e = \<lparr>CPUMilli = c, MemoryBytes = m, EphemeralStorageBytes = e\<rparr>"

theorem fits_iff_within_allocatable_witness:
  "policy_Fits sample_policy sample_quantity (sample_claim 5000 0 0) (sample_claim 1000 8000 0) \<and>
   \<not> policy_Fits sample_policy sample_quantity (sample_claim 5001 0 0) (sample_claim 1000 8000 0)"
proof -
  have eff: "EffectiveAllocatable sample_policy sample_quantity = sample_claim 6000 8000 100"
    by code_simp
  moreover have "is_claim64 (sample_claim 6000 8000 100)" "claim_nonneg (sample_claim 5000 0 0)"
    "claim_nonneg (sample_claim 5001 0 0)"
    by code_simp+
  ultimately show ?thesis
    using fits_iff_within_allocatable [of "sample_claim 5000 0 0" sample_policy sample_quantity
        "sample_claim 1000 8000 0"]
      fits_iff_within_allocatable [of "sample_claim 5001 0 0" sample_policy sample_quantity
        "sample_claim 1000 8000 0"]
    by (simp add: sample_claim_def)
qed

text \<open>C13. No sequence of admissions overcommits: starting from nothing, admitting claims one
  after the other whenever the gate accepts them keeps the total of a node within its
  effective allocatable amount, and the total of a namespace within its quota.\<close>

theorem admissions_never_overcommit:
  assumes "\<forall>c\<in>set cs. claim_nonneg c"
  shows "within_limit (EffectiveAllocatable policy allocatable)
      (admit_all (policy_Fits policy allocatable) zero_claim cs) \<and>
    within_quota quota (admit_all (quota_policy_Fits quota) zero_claim cs)"
  using assms node_gate.admit_all_within [of zero_claim policy allocatable cs]
    quota_gate.admit_all_within [of zero_claim quota cs]
    node_gate.within_empty quota_gate.within_empty
  by (auto simp: claim_nonneg_def zero_claim_def)

theorem admissions_never_overcommit_witness:
  "within_limit (EffectiveAllocatable sample_policy sample_quantity)
     (admit_all (policy_Fits sample_policy sample_quantity) zero_claim
        [sample_claim 4000 5000 0, sample_claim 1 4000 0, sample_claim 2000 3000 100])"
  using admissions_never_overcommit
    [of "[sample_claim 4000 5000 0, sample_claim 1 4000 0, sample_claim 2000 3000 100]"
      sample_policy sample_quantity]
  by (simp add: claim_nonneg_def sample_claim_def)

text \<open>C14. The reason of a quota evaluation is exact, over exact sums: each reason is given for
  its own shortages and no others, where a shortage of CPU or memory takes precedence over
  one of ephemeral storage.  The reason \<open>exceeded\<close>, which the schema's check constraint does
  not list, belongs to the evaluations that fit and so is never stored for a rejected one.\<close>

theorem quota_rejection_reason:
  assumes "claim_nonneg used" "quota64 policy"
    and "reason = QuotaEventReasonForEvaluation (QuotaEvaluateFit policy used requested)"
  shows "(quota_policy_Fits policy used requested \<longleftrightarrow> reason = QuotaExceeded) \<and>
    (reason = QuotaExceeded \<longleftrightarrow> \<not> cpu_short policy used requested \<and>
       \<not> memory_short policy used requested \<and> \<not> ephemeral_short policy used requested) \<and>
    (reason = InsufficientCPUMemory \<longleftrightarrow> cpu_short policy used requested \<and> memory_short policy used requested) \<and>
    (reason = InsufficientCPU \<longleftrightarrow> cpu_short policy used requested \<and> \<not> memory_short policy used requested) \<and>
    (reason = InsufficientMemory \<longleftrightarrow> memory_short policy used requested \<and> \<not> cpu_short policy used requested) \<and>
    (reason = InsufficientEphemeralStorage \<longleftrightarrow> ephemeral_short policy used requested \<and>
       \<not> cpu_short policy used requested \<and> \<not> memory_short policy used requested)"
  using short_positive [of policy used requested]
  unfolding assms(3) quota_policy_Fits_def quota_Fits_def QuotaEventReasonForEvaluation_def Let_def
    QuotaEvaluateFit_short [OF assms(1,2)]
  by (cases "cpu_short policy used requested"; cases "memory_short policy used requested";
      cases "ephemeral_short policy used requested") simp_all

theorem quota_rejection_reason_witness:
  "\<not> quota_policy_Fits
     \<lparr>CPUMilliLimit = Some 1000, MemoryBytesLimit = None, EphemeralStorageBytesLimit = Some 5\<rparr>
     (sample_claim 600 0 0) (sample_claim 500 10 9)"
proof -
  let ?p = "\<lparr>CPUMilliLimit = Some 1000, MemoryBytesLimit = None, EphemeralStorageBytesLimit = Some 5\<rparr>"
  let ?r = "QuotaEventReasonForEvaluation (QuotaEvaluateFit ?p (sample_claim 600 0 0) (sample_claim 500 10 9))"
  have "claim_nonneg (sample_claim 600 0 0)" "?r = InsufficientCPU" by code_simp+
  moreover have "quota64 ?p" by (simp add: quota64_def is_int64_def MinInt64_def MaxInt64_def)
  ultimately show ?thesis
    using quota_rejection_reason [of "sample_claim 600 0 0" ?p ?r "sample_claim 500 10 9"] by simp
qed

text \<open>C15. Saturating addition is addition clamped to the range of \<open>int64\<close>.\<close>

theorem saturating_add_clamps:
  assumes "is_int64 a" "is_int64 b"
  shows "SaturatingAdd a b = max MinInt64 (min MaxInt64 (a + b)) \<and> is_int64 (SaturatingAdd a b)"
  using SaturatingAdd_eq [OF assms] by (auto simp: is_int64_def MinInt64_def MaxInt64_def)

theorem saturating_add_clamps_witness:
  "SaturatingAdd MaxInt64 5 = MaxInt64 \<and> SaturatingAdd (- 7) 5 = - 2"
  using saturating_add_clamps [of MaxInt64 5] saturating_add_clamps [of "- 7" 5]
  by (simp add: is_int64_def MinInt64_def MaxInt64_def)

text \<open>C16. Scaling the CPU of a node by the overcommit ratio is exact in the range of doubles: for
  a ratio of \<open>m / 2 ^ k\<close> and a positive amount, as long as the amount and its product with
  \<open>m\<close> stay below \<open>2 ^ 53\<close>, the scaled amount is the product with the ratio, rounded down.\<close>

theorem cpu_overcommit_exact:
  assumes "0 < cpu" "0 < m" "cpu * m < 2 ^ 53" "cpu < 2 ^ 53"
  shows "scaleCPUMilli cpu (F64 m (- int k)) = cpu * m div 2 ^ k"
  using scaleCPUMilli_exact [of cpu m "- int k"] assms by simp

theorem cpu_overcommit_exact_witness:
  "scaleCPUMilli 4001 (F64 3 (- int 1)) = 6001"
  using cpu_overcommit_exact [of 4001 3 1] by simp

end
