(* ===== verification/Node_Model.thy ===== *)
theory Node_Model
  imports Capability_Snapshot Resource_Policy "HOL-Library.AList"
begin

text \<open>
  The control plane's view of a node: the summary a node reports
  (\<open>node_control.proto\<close>, the fields the modelled code reads), the memory budget
  contract of \<open>lib/go/memorybudget\<close>, freshness (\<open>kernel/node/freshness.go\<close>),
  runtime slots (\<open>kernel/node/resources.go\<close>) and the in-memory registry
  (\<open>kernel/node/registry.go\<close>).

  The registry's map is an association list with distinct keys; its operations run under
  the registry's mutex, so each is one state transformation.  The lemmas show that an
  accepted memory budget is consistent with the capacity placement uses, that slot
  occupancy never undercounts, and that retirement and revocation survive every sequence
  of reports and lifecycle updates.
\<close>

section \<open>Node summaries\<close>

datatype component_state =
    CST_UNSPECIFIED | CST_READY | CST_WARMING | CST_DEGRADED | CST_ERROR | CST_DISABLED
  | CST_OTHER int

datatype node_state =
    NS_UNSPECIFIED | NS_READY | NS_DRAINING | NS_DISABLED | NS_UNREACHABLE | NS_OTHER int

datatype mount_type =
    MT_UNSPECIFIED | MT_LOCAL | MT_OCI | MT_NYDUS | MT_EROFS | MT_OTHER int

datatype rootfs_type = RT_UNSPECIFIED | RT_LOCAL | RT_IMAGE | RT_OTHER int

datatype memory_budget_mode = MBM_UNSPECIFIED | MBM_CGROUP_V2 | MBM_DISABLED_DEV | MBM_OTHER int

record pool_state =
  ps_using :: int32
  ps_idle :: int32
  ps_capacity :: int32
  ps_unavailable :: int32

record pools_summary =
  pools_runtime_slots :: "pool_state option"

record axnoded_summary =
  ax_ready :: bool
  ax_active_allocation_ids :: "string list"

record daemon_summary =
  dm_state :: component_state
  dm_reachable :: bool

record components_summary =
  comp_axnoded :: "axnoded_summary option"
  comp_imagemgr :: "daemon_summary option"
  comp_imagefsd :: "daemon_summary option"

record locality_summary =
  loc_key :: string
  loc_mount_type :: mount_type
  loc_mounted :: bool
  loc_retained_environment_count :: int32
  loc_retained_rootfs_count :: int32
  loc_nydus_daemon_alive :: bool
  loc_chunkdb_recent_access_age_secs :: int64
  loc_peer_healthy_count :: int64
  loc_peer_hinted_count :: int64

record node_memory_budget =
  mb_source_allocatable_bytes :: int64
  mb_delegated_root_limit_bytes :: int64
  mb_delegated_root_limit_finite :: bool
  mb_system_reserve_bytes :: int64
  mb_capacity_identity :: string
  mb_sampled_at :: "timestamp option"
  mb_system_reserve_exhausted :: bool
  mb_mode :: memory_budget_mode

record node_summary =
  ns_collected_at :: "timestamp option"
  ns_pools :: "pools_summary option"
  ns_components :: "components_summary option"
  ns_locality :: "locality_summary option list"
  ns_node_state :: node_state
  ns_labels :: "(string \<times> string) list"
  ns_capability_snapshot :: "capability_snapshot option"
  ns_capacity :: "resource_quantity option"
  ns_allocatable :: "resource_quantity option"
  ns_memory_budget :: "node_memory_budget option"

section \<open>Memory budget\<close>

datatype budget_error =
    BudgetRequired | SourceNotPositive | ReserveNotPositive | ReserveNotZero | DevRootLimit
  | DevReserveExhausted | ModeRequired | RootLimitNotPositive | UnboundedRootLimit
  | ReserveExceedsCapacity | CapacityIdentityInvalid | SampleTimeRequired | SampleTimeInvalid
datatype summary_error =
    BudgetError budget_error | SampleInFuture | SampleStale | SummaryRequired
  | CapacityNotPositive | SourceExceedsCapacity | AllocatableMismatch | SummaryTimeRequired
  | SummaryTimeInvalid | SampleAfterSummary

definition maxCapacityIdentityBytes :: nat where
  "maxCapacityIdentityBytes = 1024"

definition SampleFreshness :: duration where
  "SampleFreshness = 15 * second"

definition maxFutureSkew :: duration where
  "maxFutureSkew = minute"

definition Published :: "node_memory_budget option \<Rightarrow> bool" where
  "Published budget =
     (case budget of
        None \<Rightarrow> False
      | Some b \<Rightarrow>
          mb_source_allocatable_bytes b \<noteq> 0 \<or> mb_system_reserve_bytes b \<noteq> 0
          \<or> trim_space (mb_capacity_identity b) \<noteq> [] \<or> mb_sampled_at b \<noteq> None
          \<or> mb_mode b \<noteq> MBM_UNSPECIFIED)"

definition validateMode :: "node_memory_budget \<Rightarrow> budget_error option" where
  "validateMode b =
     (case mb_mode b of
        MBM_CGROUP_V2 \<Rightarrow>
          if mb_system_reserve_bytes b \<le> 0 then Some ReserveNotPositive else None
      | MBM_DISABLED_DEV \<Rightarrow>
          if mb_system_reserve_bytes b \<noteq> 0 then Some ReserveNotZero
          else if mb_delegated_root_limit_finite b \<or> mb_delegated_root_limit_bytes b \<noteq> 0
          then Some DevRootLimit
          else if mb_system_reserve_exhausted b then Some DevReserveExhausted
          else None
      | _ \<Rightarrow> Some ModeRequired)"

definition rawCapacity :: "node_memory_budget \<Rightarrow> int64" where
  "rawCapacity b =
     (if mb_delegated_root_limit_finite b
      then min (mb_source_allocatable_bytes b) (mb_delegated_root_limit_bytes b)
      else mb_source_allocatable_bytes b)"

definition ValidateBudget :: "node_memory_budget option \<Rightarrow> budget_error option" where
  "ValidateBudget budget =
     (case budget of
        None \<Rightarrow> Some BudgetRequired
      | Some b \<Rightarrow>
          if mb_source_allocatable_bytes b \<le> 0 then Some SourceNotPositive
          else
            (case validateMode b of
               Some e \<Rightarrow> Some e
             | None \<Rightarrow>
                 if mb_delegated_root_limit_finite b \<and> mb_delegated_root_limit_bytes b \<le> 0
                 then Some RootLimitNotPositive
                 else if \<not> mb_delegated_root_limit_finite b \<and> mb_delegated_root_limit_bytes b \<noteq> 0
                 then Some UnboundedRootLimit
                 else if rawCapacity b \<le> mb_system_reserve_bytes b then Some ReserveExceedsCapacity
                 else
                   (let identity = trim_space (mb_capacity_identity b)
                    in if identity = [] \<or> maxCapacityIdentityBytes < length identity
                       then Some CapacityIdentityInvalid
                       else
                         (case mb_sampled_at b of
                            None \<Rightarrow> Some SampleTimeRequired
                          | Some t \<Rightarrow>
                              if \<not> timestamp_valid t then Some SampleTimeInvalid else None))))"

definition EffectiveBudget :: "node_memory_budget option \<Rightarrow> int64" where
  "EffectiveBudget budget =
     (case budget of
        None \<Rightarrow> 0
      | Some b \<Rightarrow> wrap64 (rawCapacity b - mb_system_reserve_bytes b))"

definition sampledAt :: "node_memory_budget option \<Rightarrow> gotime" where
  "sampledAt budget =
     (case Option.bind budget mb_sampled_at of None \<Rightarrow> 0 | Some t \<Rightarrow> as_time t)"

definition ValidateAt :: "node_memory_budget option \<Rightarrow> gotime \<Rightarrow> summary_error option" where
  "ValidateAt budget now =
     (case ValidateBudget budget of
        Some e \<Rightarrow> Some (BudgetError e)
      | None \<Rightarrow>
          if now + maxFutureSkew < sampledAt budget then Some SampleInFuture
          else if SampleFreshness < time_sub now (sampledAt budget) then Some SampleStale
          else None)"

definition ValidateSummary :: "node_summary option \<Rightarrow> gotime \<Rightarrow> summary_error option" where
  "ValidateSummary summary now =
     (case summary of
        None \<Rightarrow> Some SummaryRequired
      | Some s \<Rightarrow>
          (case ValidateAt (ns_memory_budget s) now of
             Some e \<Rightarrow> Some e
           | None \<Rightarrow>
               if ns_capacity s = None \<or> GetMemoryBytes (ns_capacity s) \<le> 0
               then Some CapacityNotPositive
               else if GetMemoryBytes (ns_capacity s)
                       < (case ns_memory_budget s of None \<Rightarrow> 0 | Some b \<Rightarrow> mb_source_allocatable_bytes b)
               then Some SourceExceedsCapacity
               else if ns_allocatable s = None
                       \<or> GetMemoryBytes (ns_allocatable s) \<noteq> EffectiveBudget (ns_memory_budget s)
               then Some AllocatableMismatch
               else
                 (case ns_collected_at s of
                    None \<Rightarrow> Some SummaryTimeRequired
                  | Some t \<Rightarrow>
                      if \<not> timestamp_valid t then Some SummaryTimeInvalid
                      else if as_time t < sampledAt (ns_memory_budget s) then Some SampleAfterSummary
                      else None)))"

section \<open>Freshness\<close>

definition HeartbeatAgeSecs :: "gotime \<Rightarrow> gotime \<Rightarrow> int64" where
  "HeartbeatAgeSecs updatedAt now =
     (if is_zero_time updatedAt \<or> now < updatedAt then 0
      else go_div (time_sub now updatedAt) second)"

definition SummaryCollectedAt :: "node_summary option \<Rightarrow> gotime" where
  "SummaryCollectedAt summary =
     (case Option.bind summary ns_collected_at of None \<Rightarrow> zero_time | Some t \<Rightarrow> as_time t)"

definition SummaryAgeSecs :: "node_summary option \<Rightarrow> gotime \<Rightarrow> int64" where
  "SummaryAgeSecs summary now =
     (let collectedAt = SummaryCollectedAt summary
      in if is_zero_time collectedAt \<or> now < collectedAt then 0
         else go_div (time_sub now collectedAt) second)"

definition HeartbeatFresh :: "gotime \<Rightarrow> gotime \<Rightarrow> duration \<Rightarrow> bool" where
  "HeartbeatFresh updatedAt now window =
     (if is_zero_time updatedAt then False
      else if now < updatedAt then True
      else time_sub now updatedAt \<le> window)"

definition SummaryFresh :: "node_summary option \<Rightarrow> gotime \<Rightarrow> duration \<Rightarrow> bool" where
  "SummaryFresh summary now window =
     (let collectedAt = SummaryCollectedAt summary
      in if is_zero_time collectedAt then False
         else if now < collectedAt then True
         else time_sub now collectedAt \<le> window)"

definition ClassifyFreshnessState :: "bool \<Rightarrow> bool \<Rightarrow> string" where
  "ClassifyFreshnessState heartbeatFresh summaryFresh =
     (if heartbeatFresh \<and> summaryFresh then ''fresh''
      else if \<not> heartbeatFresh \<and> \<not> summaryFresh then ''stale_both''
      else if \<not> heartbeatFresh then ''stale_heartbeat''
      else ''stale_summary'')"

section \<open>Runtime slots\<close>

record slot_occupancy =
  so_Charged :: int64
  so_Active :: int64
  so_PoolUsing :: int64
  so_Occupied :: int64

definition activeAllocationIds :: "node_summary option \<Rightarrow> string list" where
  "activeAllocationIds summary =
     (case Option.bind (Option.bind summary ns_components) comp_axnoded of
        None \<Rightarrow> []
      | Some a \<Rightarrow> ax_active_allocation_ids a)"

definition runtimeSlots :: "node_summary option \<Rightarrow> pool_state option" where
  "runtimeSlots summary = Option.bind (Option.bind summary ns_pools) pools_runtime_slots"

definition poolUsing :: "node_summary option \<Rightarrow> int64" where
  "poolUsing summary = (case runtimeSlots summary of None \<Rightarrow> 0 | Some p \<Rightarrow> ps_using p)"

definition ReportedActiveInstances :: "node_summary option \<Rightarrow> int64" where
  "ReportedActiveInstances summary =
     (case summary of
        None \<Rightarrow> 0
      | Some _ \<Rightarrow> max (int (length (activeAllocationIds summary))) (poolUsing summary))"

text \<open>A set of identifiers as a list without repetitions.\<close>

definition allocationIDSet :: "string list \<Rightarrow> string list" where
  "allocationIDSet ids = remdups (filter (\<lambda>i. i \<noteq> []) (map trim_space ids))"

definition CalculateRuntimeSlotOccupancy :: "node_summary option \<Rightarrow> string list \<Rightarrow> slot_occupancy" where
  "CalculateRuntimeSlotOccupancy summary chargedAllocationIDs =
     (let chargedIDs = allocationIDSet chargedAllocationIDs;
          activeIDs = allocationIDSet (activeAllocationIds summary);
          occupiedIDs = chargedIDs @ filter (\<lambda>i. i \<notin> set chargedIDs) activeIDs
      in \<lparr>so_Charged = int (length chargedIDs), so_Active = int (length activeIDs),
          so_PoolUsing = poolUsing summary,
          so_Occupied = max (int (length occupiedIDs)) (poolUsing summary)\<rparr>)"

definition RuntimeSlotCapacity :: "node_summary option \<Rightarrow> int64 option" where
  "RuntimeSlotCapacity summary =
     (case runtimeSlots summary of
        None \<Rightarrow> None
      | Some slots \<Rightarrow> Some (max 0 (wrap32 (ps_capacity slots - ps_unavailable slots))))"

section \<open>The registry\<close>

datatype lifecycle_status = LifecycleNone | LifecycleActive | LifecycleRevoked | LifecycleRetired

record node_record =
  nr_NodeID :: string
  nr_NodeTarget :: string
  nr_Summary :: "node_summary option"
  nr_Lifecycle :: lifecycle_status
  nr_AdmittedAt :: gotime
  nr_LastHeartbeatAt :: gotime
  nr_RetiredAt :: gotime
  nr_RetiredReason :: string

type_synonym registry = "(string \<times> node_record) list"

definition zero_record :: "string \<Rightarrow> node_record" where
  "zero_record nodeID =
     \<lparr>nr_NodeID = nodeID, nr_NodeTarget = [], nr_Summary = None, nr_Lifecycle = LifecycleNone,
      nr_AdmittedAt = zero_time, nr_LastHeartbeatAt = zero_time, nr_RetiredAt = zero_time,
      nr_RetiredReason = []\<rparr>"

definition record_Active :: "node_record \<Rightarrow> bool" where
  "record_Active r \<longleftrightarrow> nr_Lifecycle r = LifecycleActive"

definition NewRegistry :: registry where
  "NewRegistry = []"

definition upsertLocked :: "registry \<Rightarrow> string \<Rightarrow> gotime \<Rightarrow> node_record" where
  "upsertLocked nodes nodeID now =
     (case map_of nodes nodeID of
        None \<Rightarrow> (zero_record nodeID)\<lparr>nr_Lifecycle := LifecycleActive, nr_AdmittedAt := now,
                   nr_LastHeartbeatAt := now\<rparr>
      | Some r \<Rightarrow> if is_zero_time (nr_AdmittedAt r) then r\<lparr>nr_AdmittedAt := now\<rparr> else r)"

definition Report :: "registry \<Rightarrow> string \<Rightarrow> string \<Rightarrow> node_summary option \<Rightarrow> gotime \<Rightarrow> registry" where
  "Report nodes nodeID nodeTarget summary now =
     AList.update nodeID
       ((upsertLocked nodes nodeID now)\<lparr>nr_NodeTarget := nodeTarget, nr_Summary := summary,
          nr_LastHeartbeatAt := now\<rparr>) nodes"

definition SyncLifecycle ::
  "registry \<Rightarrow> string \<Rightarrow> lifecycle_status \<Rightarrow> gotime \<Rightarrow> string \<Rightarrow> registry" where
  "SyncLifecycle nodes nodeID lifecycle retiredAt reason =
     (let r = (case map_of nodes nodeID of None \<Rightarrow> zero_record nodeID | Some r \<Rightarrow> r)
      in if nr_Lifecycle r = LifecycleRetired \<and> lifecycle \<noteq> LifecycleRetired
            \<or> nr_Lifecycle r = LifecycleRevoked \<and> lifecycle = LifecycleActive
         then AList.update nodeID r nodes
         else AList.update nodeID
                (r\<lparr>nr_Lifecycle := lifecycle, nr_RetiredAt := retiredAt, nr_RetiredReason := reason\<rparr>)
                nodes)"

definition registry_Get :: "registry \<Rightarrow> string \<Rightarrow> node_record option" where
  "registry_Get nodes nodeID = map_of nodes nodeID"

definition Replace :: "node_record option list \<Rightarrow> registry" where
  "Replace records =
     fold (\<lambda>r nodes. case r of None \<Rightarrow> nodes | Some n \<Rightarrow> AList.update (nr_NodeID n) n nodes) records []"

definition record_less :: "node_record \<Rightarrow> node_record \<Rightarrow> bool" where
  "record_less a b \<longleftrightarrow> nr_NodeID a < nr_NodeID b"

definition registry_Snapshot :: "registry \<Rightarrow> node_record list" where
  "registry_Snapshot nodes = sort_slice record_less (map snd nodes)"

record debug_node =
  dn_NodeID :: string
  dn_NodeTarget :: string
  dn_Fresh :: bool
  dn_HeartbeatFresh :: bool
  dn_SummaryFresh :: bool
  dn_Lifecycle :: lifecycle_status
  dn_FreshnessState :: string
  dn_HeartbeatAgeSecs :: int64
  dn_SummaryAgeSecs :: int64
  dn_AdmittedAt :: gotime
  dn_LastHeartbeatAt :: gotime
  dn_CollectedAt :: gotime
  dn_RetiredAt :: gotime
  dn_RetiredReason :: string
  dn_Summary :: "node_summary option"

fun lifecycle_string :: "lifecycle_status \<Rightarrow> string" where
  "lifecycle_string LifecycleNone = []"
| "lifecycle_string LifecycleActive = ''active''"
| "lifecycle_string LifecycleRevoked = ''revoked''"
| "lifecycle_string LifecycleRetired = ''retired''"

definition debugNode :: "gotime \<Rightarrow> duration \<Rightarrow> duration \<Rightarrow> node_record \<Rightarrow> debug_node" where
  "debugNode now heartbeatWindow summaryWindow r =
     (let hf = HeartbeatFresh (nr_LastHeartbeatAt r) now heartbeatWindow;
          sf = SummaryFresh (nr_Summary r) now summaryWindow;
          active = record_Active r;
          hf' = (active \<and> hf); sf' = (active \<and> sf)
      in \<lparr>dn_NodeID = nr_NodeID r, dn_NodeTarget = nr_NodeTarget r, dn_Fresh = (hf' \<and> sf'),
          dn_HeartbeatFresh = hf', dn_SummaryFresh = sf', dn_Lifecycle = nr_Lifecycle r,
          dn_FreshnessState = (if active then ClassifyFreshnessState hf sf
                               else lifecycle_string (nr_Lifecycle r)),
          dn_HeartbeatAgeSecs = HeartbeatAgeSecs (nr_LastHeartbeatAt r) now,
          dn_SummaryAgeSecs = SummaryAgeSecs (nr_Summary r) now,
          dn_AdmittedAt = nr_AdmittedAt r, dn_LastHeartbeatAt = nr_LastHeartbeatAt r,
          dn_CollectedAt = SummaryCollectedAt (nr_Summary r), dn_RetiredAt = nr_RetiredAt r,
          dn_RetiredReason = nr_RetiredReason r, dn_Summary = nr_Summary r\<rparr>)"

definition DebugNodes :: "registry \<Rightarrow> gotime \<Rightarrow> duration \<Rightarrow> duration \<Rightarrow> debug_node list" where
  "DebugNodes nodes now heartbeatWindow summaryWindow =
     sort_slice (\<lambda>a b. dn_NodeID a < dn_NodeID b)
       (map (debugNode now heartbeatWindow summaryWindow \<circ> snd) nodes)"

section \<open>Operations on a node directory\<close>

datatype directory_op =
    OpReport string string "node_summary option" gotime
  | OpSync string lifecycle_status gotime string

fun apply_op ::
  "('s \<Rightarrow> string \<Rightarrow> string \<Rightarrow> node_summary option \<Rightarrow> gotime \<Rightarrow> 's) \<Rightarrow>
   ('s \<Rightarrow> string \<Rightarrow> lifecycle_status \<Rightarrow> gotime \<Rightarrow> string \<Rightarrow> 's) \<Rightarrow> directory_op \<Rightarrow> 's \<Rightarrow> 's" where
  "apply_op report sync (OpReport n target summary now) s = report s n target summary now"
| "apply_op report sync (OpSync n lifecycle at reason) s = sync s n lifecycle at reason"

text \<open>The lifecycle a directory shows for a node; an unknown node has none.\<close>

definition lifecycle_of :: "node_record option \<Rightarrow> lifecycle_status" where
  "lifecycle_of r = (case r of None \<Rightarrow> LifecycleNone | Some n \<Rightarrow> nr_Lifecycle n)"

lemma lifecycle_of_known: "lifecycle_of r \<noteq> LifecycleNone \<Longrightarrow> r \<noteq> None"
  by (cases r) (simp_all add: lifecycle_of_def)

text \<open>The contract of a directory that mirrors the durable lifecycle: a report does not
  change the lifecycle of a known node, an update is refused when it would undo a
  retirement or reactivate a revoked node, and operations touch one node only.\<close>

locale node_directory =
  fixes get :: "'s \<Rightarrow> string \<Rightarrow> node_record option"
    and report :: "'s \<Rightarrow> string \<Rightarrow> string \<Rightarrow> node_summary option \<Rightarrow> gotime \<Rightarrow> 's"
    and sync :: "'s \<Rightarrow> string \<Rightarrow> lifecycle_status \<Rightarrow> gotime \<Rightarrow> string \<Rightarrow> 's"
  assumes report_other: "k \<noteq> n \<Longrightarrow> get (report s n target summary now) k = get s k"
    and report_known: "get s n \<noteq> None \<Longrightarrow>
      lifecycle_of (get (report s n target summary now) n) = lifecycle_of (get s n)"
    and report_stays: "get (report s n target summary now) n \<noteq> None"
    and sync_other: "k \<noteq> n \<Longrightarrow> get (sync s n lifecycle at reason) k = get s k"
    and sync_same: "lifecycle_of (get (sync s n lifecycle at reason) n) =
      (if lifecycle_of (get s n) = LifecycleRetired \<and> lifecycle \<noteq> LifecycleRetired
          \<or> lifecycle_of (get s n) = LifecycleRevoked \<and> lifecycle = LifecycleActive
       then lifecycle_of (get s n) else lifecycle)"
begin

lemma op_retired:
  "lifecycle_of (get s n) = LifecycleRetired \<Longrightarrow>
   lifecycle_of (get (apply_op report sync op s) n) = LifecycleRetired"
proof (cases op)
  case (OpReport k target summary now)
  assume "lifecycle_of (get s n) = LifecycleRetired"
  moreover from this have "get s n \<noteq> None" using lifecycle_of_known by force
  ultimately show ?thesis
    using OpReport report_known report_other by (cases "n = k") auto
next
  case (OpSync k lifecycle at reason)
  assume "lifecycle_of (get s n) = LifecycleRetired"
  with OpSync show ?thesis using sync_same sync_other by (cases "n = k") auto
qed

lemma op_revoked:
  assumes "lifecycle_of (get s n) \<in> {LifecycleRevoked, LifecycleRetired}"
    and "\<forall>k at reason. op \<noteq> OpSync k LifecycleNone at reason"
  shows "lifecycle_of (get (apply_op report sync op s) n) \<in> {LifecycleRevoked, LifecycleRetired}"
proof (cases op)
  case (OpReport k target summary now)
  from assms(1) have "get s n \<noteq> None" using lifecycle_of_known by force
  with OpReport assms(1) show ?thesis
    using report_known report_other by (cases "n = k") auto
next
  case (OpSync k lifecycle at reason)
  with assms show ?thesis
    using sync_same [of s n lifecycle at reason] sync_other [of n k s]
    by (cases lifecycle; cases "n = k") auto
qed

lemma retired_forever:
  "lifecycle_of (get s n) = LifecycleRetired \<Longrightarrow>
   lifecycle_of (get (fold (apply_op report sync) ops s) n) = LifecycleRetired"
  by (induction ops arbitrary: s) (simp_all add: op_retired)

lemma revoked_not_reactivated:
  assumes "lifecycle_of (get s n) \<in> {LifecycleRevoked, LifecycleRetired}"
    and "\<forall>k at reason. OpSync k LifecycleNone at reason \<notin> set ops"
  shows "lifecycle_of (get (fold (apply_op report sync) ops s) n) \<in> {LifecycleRevoked, LifecycleRetired}"
  using assms
proof (induction ops arbitrary: s)
  case (Cons op ops)
  then show ?case using op_revoked [of s n op] by auto
qed simp

end

interpretation registry_directory: node_directory registry_Get Report SyncLifecycle
proof
  show "k \<noteq> n \<Longrightarrow> registry_Get (Report s n target summary now) k = registry_Get s k"
    for k n s target summary now
    by (simp add: registry_Get_def Report_def update_conv')
  show "registry_Get s n \<noteq> None \<Longrightarrow>
      lifecycle_of (registry_Get (Report s n target summary now) n) = lifecycle_of (registry_Get s n)"
    for n s target summary now
    by (auto simp: registry_Get_def Report_def update_conv' lifecycle_of_def upsertLocked_def)
  show "registry_Get (Report s n target summary now) n \<noteq> None" for n s target summary now
    by (simp add: registry_Get_def Report_def update_conv')
  show "k \<noteq> n \<Longrightarrow> registry_Get (SyncLifecycle s n lifecycle at reason) k = registry_Get s k"
    for k n s lifecycle at reason
    by (simp add: registry_Get_def SyncLifecycle_def update_conv' Let_def)
  show "lifecycle_of (registry_Get (SyncLifecycle s n lifecycle at reason) n) =
      (if lifecycle_of (registry_Get s n) = LifecycleRetired \<and> lifecycle \<noteq> LifecycleRetired
          \<or> lifecycle_of (registry_Get s n) = LifecycleRevoked \<and> lifecycle = LifecycleActive
       then lifecycle_of (registry_Get s n) else lifecycle)" for n s lifecycle at reason
    by (auto simp: registry_Get_def SyncLifecycle_def update_conv' Let_def lifecycle_of_def
        zero_record_def split: option.splits)
qed

section \<open>Registry invariant\<close>

definition registry_inv :: "registry \<Rightarrow> bool" where
  "registry_inv nodes \<longleftrightarrow> distinct (map fst nodes) \<and> (\<forall>(k, r)\<in>set nodes. nr_NodeID r = k)"

lemma registry_inv_update:
  assumes "registry_inv nodes" "nr_NodeID r = k"
  shows "registry_inv (AList.update k r nodes)"
proof -
  have "nr_NodeID r' = k'" if "(k', r') \<in> set (AList.update k r nodes)" for k' r'
  proof -
    from that have "map_of (AList.update k r nodes) k' = Some r'"
      using assms(1) by (simp add: registry_inv_def distinct_update)
    then show ?thesis
      using assms by (auto simp: update_conv' registry_inv_def split: if_splits dest!: map_of_SomeD)
  qed
  with assms(1) show ?thesis by (auto simp: registry_inv_def distinct_update)
qed

lemma registry_inv_get: "registry_inv nodes \<Longrightarrow> map_of nodes k = Some r \<Longrightarrow> nr_NodeID r = k"
  by (auto simp: registry_inv_def dest!: map_of_SomeD)

lemma registry_inv_Report: "registry_inv nodes \<Longrightarrow> registry_inv (Report nodes n target summary now)"
  unfolding Report_def
  by (rule registry_inv_update)
    (auto simp: upsertLocked_def zero_record_def registry_inv_get split: option.splits)

lemma registry_inv_SyncLifecycle:
  "registry_inv nodes \<Longrightarrow> registry_inv (SyncLifecycle nodes n lifecycle at reason)"
  by (auto simp: SyncLifecycle_def Let_def zero_record_def registry_inv_get
      intro!: registry_inv_update split: option.splits)

lemma registry_inv_Replace: "registry_inv (Replace records)"
proof -
  have "registry_inv nodes \<Longrightarrow> registry_inv (fold (\<lambda>r nodes. case r of None \<Rightarrow> nodes
      | Some n \<Rightarrow> AList.update (nr_NodeID n) n nodes) records nodes)" for nodes
    by (induction records arbitrary: nodes) (auto split: option.splits intro: registry_inv_update)
  from this [of "[]"] show ?thesis by (simp add: Replace_def) (simp add: registry_inv_def)
qed

interpretation record_order: strict_weak_order record_less
  by unfold_locales (auto simp: record_less_def)

lemma registry_Snapshot_sorted:
  assumes "registry_inv nodes"
  shows "sorted_wrt record_less (registry_Snapshot nodes)"
    and "set (registry_Snapshot nodes) = snd ` set nodes"
    and "distinct (map nr_NodeID (registry_Snapshot nodes))"
proof -
  have ids: "map nr_NodeID (map snd nodes) = map fst nodes"
    using assms by (auto simp: registry_inv_def)
  have "distinct (map nr_NodeID (map snd nodes))"
    unfolding ids using assms by (simp add: registry_inv_def)
  then show dist: "distinct (map nr_NodeID (registry_Snapshot nodes))"
    by (simp only: registry_Snapshot_def distinct_map_sort_slice)
  show "set (registry_Snapshot nodes) = snd ` set nodes"
    by (simp add: registry_Snapshot_def)
  show "sorted_wrt record_less (registry_Snapshot nodes)"
  proof (rule record_order.sorted_strict)
    show "sorted_wrt (\<lambda>a b. \<not> record_less b a) (registry_Snapshot nodes)"
      by (simp add: registry_Snapshot_def record_order.sort_slice_sorted)
    show "distinct (registry_Snapshot nodes)" using dist by (simp add: distinct_map)
    show "record_less a b \<or> record_less b a"
      if "a \<in> set (registry_Snapshot nodes)" "b \<in> set (registry_Snapshot nodes)" "a \<noteq> b" for a b
      using that dist unfolding record_less_def distinct_map inj_on_def
      by (metis linorder_less_linear)
  qed
qed

section \<open>Budget and slots\<close>

lemma ValidateBudget_ok:
  assumes "ValidateBudget (Some b) = None"
  shows "0 \<le> mb_system_reserve_bytes b" "mb_system_reserve_bytes b < rawCapacity b"
    "rawCapacity b \<le> mb_source_allocatable_bytes b" "\<exists>t. mb_sampled_at b = Some t"
  using assms
  by (auto simp: ValidateBudget_def validateMode_def rawCapacity_def Let_def
      split: if_splits option.splits memory_budget_mode.splits)

lemma EffectiveBudget_exact:
  assumes "ValidateBudget (Some b) = None" "is_int64 (mb_source_allocatable_bytes b)"
  shows "EffectiveBudget (Some b) = rawCapacity b - mb_system_reserve_bytes b"
  using ValidateBudget_ok [OF assms(1)] assms(2)
  by (simp add: EffectiveBudget_def wrap64_id is_int64_def MinInt64_def)

lemma fresh_iff:
  assumes "0 \<le> window" "window < MaxInt64"
  shows "HeartbeatFresh t now window \<longleftrightarrow> t \<noteq> zero_time \<and> now - t \<le> window"
  using assms time_sub_le_iff [of window now t]
  by (auto simp: HeartbeatFresh_def is_zero_time_def is_int64_def MinInt64_def)

section \<open>Properties\<close>

text \<open>C17. An accepted summary binds the memory placement may hand out to the observed
  boundary: the allocatable memory is the source amount (cut to a finite delegated limit)
  minus the system reserve, positive, at most the source amount, which is at most the
  physical capacity; the sample is at most fifteen seconds old and at most a minute ahead.\<close>

theorem accepted_budget_is_sound:
  assumes "ValidateSummary (Some s) now = None"
    and "\<forall>b. ns_memory_budget s = Some b \<longrightarrow> is_int64 (mb_source_allocatable_bytes b)"
  shows "\<exists>b t. ns_memory_budget s = Some b \<and> mb_sampled_at b = Some t \<and>
    GetMemoryBytes (ns_allocatable s) = rawCapacity b - mb_system_reserve_bytes b \<and>
    0 < GetMemoryBytes (ns_allocatable s) \<and>
    GetMemoryBytes (ns_allocatable s) \<le> mb_source_allocatable_bytes b \<and>
    mb_source_allocatable_bytes b \<le> GetMemoryBytes (ns_capacity s) \<and>
    now - as_time t \<le> SampleFreshness \<and> as_time t \<le> now + maxFutureSkew"
proof -
  from assms(1) have at: "ValidateAt (ns_memory_budget s) now = None"
    by (auto simp: ValidateSummary_def split: option.splits)
  then have budget: "ValidateBudget (ns_memory_budget s) = None"
    by (simp add: ValidateAt_def split: option.splits)
  then obtain b where b: "ns_memory_budget s = Some b"
    by (auto simp: ValidateBudget_def split: option.splits)
  note ok = ValidateBudget_ok [OF budget [unfolded b]]
  obtain t where t: "mb_sampled_at b = Some t" using ok(4) by blast
  have "is_int64 SampleFreshness" "SampleFreshness < MaxInt64" by code_simp+
  with at b t budget have "now - as_time t \<le> SampleFreshness \<and> as_time t \<le> now + maxFutureSkew"
    by (auto simp: ValidateAt_def sampledAt_def not_less time_sub_le_iff split: if_splits)
  moreover have "GetMemoryBytes (ns_allocatable s) = rawCapacity b - mb_system_reserve_bytes b"
    using assms at b EffectiveBudget_exact [OF budget [unfolded b]]
    by (auto simp: ValidateSummary_def split: if_splits option.splits)
  moreover have "mb_source_allocatable_bytes b \<le> GetMemoryBytes (ns_capacity s)"
    using assms(1) at b by (auto simp: ValidateSummary_def not_less split: if_splits option.splits)
  ultimately show ?thesis using b t ok by auto
qed

definition sample_budget :: node_memory_budget where
  "sample_budget =
     \<lparr>mb_source_allocatable_bytes = 1000, mb_delegated_root_limit_bytes = 900,
      mb_delegated_root_limit_finite = True, mb_system_reserve_bytes = 100,
      mb_capacity_identity = ''host/cgroup'', mb_sampled_at = Some \<lparr>ts_seconds = 1000, ts_nanos = 0\<rparr>,
      mb_system_reserve_exhausted = False, mb_mode = MBM_CGROUP_V2\<rparr>"

definition sample_summary :: node_summary where
  "sample_summary =
     \<lparr>ns_collected_at = Some \<lparr>ts_seconds = 1001, ts_nanos = 0\<rparr>,
      ns_pools = Some \<lparr>pools_runtime_slots =
        Some \<lparr>ps_using = 1, ps_idle = 2, ps_capacity = 10, ps_unavailable = 1\<rparr>\<rparr>,
      ns_components = Some \<lparr>comp_axnoded =
          Some \<lparr>ax_ready = True, ax_active_allocation_ids = [''a1'', '' a2'', ''a1'']\<rparr>,
        comp_imagemgr = Some \<lparr>dm_state = CST_READY, dm_reachable = True\<rparr>,
        comp_imagefsd = None\<rparr>,
      ns_locality = [], ns_node_state = NS_READY, ns_labels = [(''zone'', ''a'')],
      ns_capability_snapshot = None,
      ns_capacity = Some \<lparr>rq_cpu_milli = 4000, rq_memory_bytes = 1000, rq_ephemeral_storage_bytes = 50\<rparr>,
      ns_allocatable = Some \<lparr>rq_cpu_milli = 4000, rq_memory_bytes = 800, rq_ephemeral_storage_bytes = 50\<rparr>,
      ns_memory_budget = Some sample_budget\<rparr>"

theorem accepted_budget_is_sound_witness:
  "\<exists>b t. ns_memory_budget sample_summary = Some b \<and> mb_sampled_at b = Some t \<and>
    GetMemoryBytes (ns_allocatable sample_summary) = rawCapacity b - mb_system_reserve_bytes b \<and>
    0 < GetMemoryBytes (ns_allocatable sample_summary)"
proof -
  have "ValidateSummary (Some sample_summary) (1010 * second) = None" by code_simp
  moreover have "\<forall>b. ns_memory_budget sample_summary = Some b \<longrightarrow> is_int64 (mb_source_allocatable_bytes b)"
    by (simp add: sample_summary_def sample_budget_def is_int64_def MinInt64_def MaxInt64_def)
  ultimately show ?thesis
    using accepted_budget_is_sound [of sample_summary "1010 * second"] by blast
qed

text \<open>C18. Slot occupancy is the size of the union of the durably charged and the reported
  allocations, or the number of slots the pool uses if that is larger: an allocation known
  to both sides is counted once, and neither side is undercounted.\<close>

theorem slot_occupancy_is_union:
  "so_Occupied (CalculateRuntimeSlotOccupancy summary charged) =
     max (int (card ({trim_space i | i. i \<in> set charged \<and> trim_space i \<noteq> []} \<union>
                     {trim_space i | i. i \<in> set (activeAllocationIds summary) \<and> trim_space i \<noteq> []})))
         (poolUsing summary) \<and>
   so_Charged (CalculateRuntimeSlotOccupancy summary charged)
     \<le> so_Occupied (CalculateRuntimeSlotOccupancy summary charged) \<and>
   so_Active (CalculateRuntimeSlotOccupancy summary charged)
     \<le> so_Occupied (CalculateRuntimeSlotOccupancy summary charged)"
proof -
  let ?c = "allocationIDSet charged" and ?a = "allocationIDSet (activeAllocationIds summary)"
  have sets: "set (allocationIDSet ids) = {trim_space i | i. i \<in> set ids \<and> trim_space i \<noteq> []}" for ids
    by (auto simp: allocationIDSet_def)
  have dist: "distinct ?c" "distinct ?a" by (simp_all add: allocationIDSet_def)
  then have "length (?c @ filter (\<lambda>i. i \<notin> set ?c) ?a) = card (set ?c \<union> set ?a)"
    by (subst distinct_card [symmetric]) (auto intro: arg_cong [of _ _ card])
  moreover have "length ?c \<le> card (set ?c \<union> set ?a)" "length ?a \<le> card (set ?c \<union> set ?a)"
    using dist by (simp_all add: distinct_card [symmetric] card_mono)
  ultimately show ?thesis
    unfolding sets [symmetric]
    by (auto simp: CalculateRuntimeSlotOccupancy_def Let_def le_max_iff_disj simp del: length_append)
qed

text \<open>C19. The registry never resurrects a node: after any sequence of reports and lifecycle
  updates a retired node is still retired, and a revoked node is revoked or retired.\<close>

theorem registry_lifecycle_monotone:
  assumes "\<forall>k at reason. OpSync k LifecycleNone at reason \<notin> set ops"
  shows "(lifecycle_of (registry_Get nodes n) = LifecycleRetired \<longrightarrow>
      lifecycle_of (registry_Get (fold (apply_op Report SyncLifecycle) ops nodes) n) = LifecycleRetired) \<and>
    (lifecycle_of (registry_Get nodes n) = LifecycleRevoked \<longrightarrow>
      lifecycle_of (registry_Get (fold (apply_op Report SyncLifecycle) ops nodes) n)
        \<in> {LifecycleRevoked, LifecycleRetired})"
  using assms registry_directory.retired_forever [of nodes n ops]
    registry_directory.revoked_not_reactivated [of nodes n ops] by blast

theorem registry_lifecycle_monotone_witness:
  "lifecycle_of (registry_Get (fold (apply_op Report SyncLifecycle)
      [OpSync ''n1'' LifecycleActive 5 [], OpReport ''n1'' ''t'' None 9]
      (SyncLifecycle NewRegistry ''n1'' LifecycleRetired 3 ''gone'')) ''n1'') = LifecycleRetired"
proof -
  have "lifecycle_of (registry_Get (SyncLifecycle NewRegistry ''n1'' LifecycleRetired 3 ''gone'') ''n1'')
      = LifecycleRetired"
    by code_simp
  then show ?thesis
    using registry_lifecycle_monotone
      [of "[OpSync ''n1'' LifecycleActive 5 [], OpReport ''n1'' ''t'' None 9]"
        "SyncLifecycle NewRegistry ''n1'' LifecycleRetired 3 ''gone''" "''n1''"] by simp
qed

text \<open>C20. A registry reached from the empty one or from a reload lists every node exactly
  once: its snapshot is strictly sorted by node identifier and holds exactly the records
  \<open>Get\<close> returns.\<close>

theorem registry_snapshot_complete:
  assumes "nodes = fold (apply_op Report SyncLifecycle) ops (Replace records)"
  shows "sorted_wrt record_less (registry_Snapshot nodes) \<and>
    (r \<in> set (registry_Snapshot nodes) \<longleftrightarrow> registry_Get nodes (nr_NodeID r) = Some r)"
proof -
  have step: "registry_inv ns \<Longrightarrow> registry_inv (apply_op Report SyncLifecycle op ns)" for op ns
    by (cases op) (simp_all add: registry_inv_Report registry_inv_SyncLifecycle)
  have "registry_inv ns \<Longrightarrow> registry_inv (fold (apply_op Report SyncLifecycle) ops ns)" for ns
    by (induction ops arbitrary: ns) (simp_all add: step)
  then have inv: "registry_inv nodes" using assms registry_inv_Replace by simp
  have "r \<in> snd ` set nodes \<longleftrightarrow> map_of nodes (nr_NodeID r) = Some r"
    using inv by (force simp: registry_inv_def map_of_eq_Some_iff image_iff)
  with registry_Snapshot_sorted [OF inv] show ?thesis by (simp add: registry_Get_def)
qed

theorem registry_snapshot_complete_witness:
  "sorted_wrt record_less (registry_Snapshot
     (fold (apply_op Report SyncLifecycle) [OpReport ''b'' ''t'' None 9, OpReport ''a'' ''t'' None 9]
       (Replace [])))"
  using registry_snapshot_complete [OF refl] by blast

end
