(* ===== verification/Placement_Kernel.thy ===== *)
theory Placement_Kernel
  imports Node_Model "HOL-Library.Product_Lexorder"
begin

text \<open>
  The placement vocabulary of the control plane (\<open>kernel/placement\<close>): requests and
  their node-specific resolution, evaluations with their rank, the order in which eligible
  nodes are tried, and the classification of rejections.

  \<open>EvaluationLess\<close> compares field by field; \<open>rank_key\<close> packs the fields into
  one value of a linear order, and the lemmas show that both agree, so that ranking is a
  strict order that decides between any two different nodes.
\<close>

section \<open>Rejection reasons\<close>

datatype rejection_reason =
    RejectionReasonUnspecified
  | RejectionReasonStaleHeartbeat
  | RejectionReasonStaleSummary
  | RejectionReasonAxnodedNotReady
  | RejectionReasonImagemgrUnavailable
  | RejectionReasonImagefsdUnavailable
  | RejectionReasonNodeDraining
  | RejectionReasonNodeDisabled
  | RejectionReasonNodeSelectorMismatch
  | RejectionReasonInsufficientCPU
  | RejectionReasonInsufficientMemory
  | RejectionReasonNetworkUnsupported
  | RejectionReasonCapabilityUnsupported
  | RejectionReasonNodeRetired
  | RejectionReasonInsufficientEphemeralStorage
  | RejectionReasonNodeMemorySystemReserveExhausted
  | RejectionReasonNodeMemoryBudgetUnavailable

fun reason_number :: "rejection_reason \<Rightarrow> nat" where
  "reason_number RejectionReasonUnspecified = 0"
| "reason_number RejectionReasonStaleHeartbeat = 1"
| "reason_number RejectionReasonStaleSummary = 2"
| "reason_number RejectionReasonAxnodedNotReady = 3"
| "reason_number RejectionReasonImagemgrUnavailable = 4"
| "reason_number RejectionReasonImagefsdUnavailable = 5"
| "reason_number RejectionReasonNodeDraining = 6"
| "reason_number RejectionReasonNodeDisabled = 7"
| "reason_number RejectionReasonNodeSelectorMismatch = 8"
| "reason_number RejectionReasonInsufficientCPU = 9"
| "reason_number RejectionReasonInsufficientMemory = 10"
| "reason_number RejectionReasonNetworkUnsupported = 11"
| "reason_number RejectionReasonCapabilityUnsupported = 12"
| "reason_number RejectionReasonNodeRetired = 13"
| "reason_number RejectionReasonInsufficientEphemeralStorage = 14"
| "reason_number RejectionReasonNodeMemorySystemReserveExhausted = 15"
| "reason_number RejectionReasonNodeMemoryBudgetUnavailable = 16"

lemma reason_number_inject: "reason_number a = reason_number b \<longleftrightarrow> a = b"
  by (cases a; cases b) simp_all

instantiation rejection_reason :: linorder
begin

definition less_eq_rejection_reason :: "rejection_reason \<Rightarrow> rejection_reason \<Rightarrow> bool" where
  "less_eq_rejection_reason a b \<longleftrightarrow> reason_number a \<le> reason_number b"

definition less_rejection_reason :: "rejection_reason \<Rightarrow> rejection_reason \<Rightarrow> bool" where
  "less_rejection_reason a b \<longleftrightarrow> reason_number a < reason_number b"

instance
  by standard
    (auto simp: less_eq_rejection_reason_def less_rejection_reason_def reason_number_inject)

end

definition rejectionReasonNames :: "string list" where
  "rejectionReasonNames =
     [''unspecified'', ''stale_heartbeat'', ''stale_summary'', ''axnoded_not_ready'',
      ''imagemgr_unavailable'', ''imagefsd_unavailable'', ''node_draining'', ''node_disabled'',
      ''node_selector_mismatch'', ''insufficient_cpu'', ''insufficient_memory'',
      ''network_unsupported'', ''capability_unsupported'', ''node_retired'',
      ''insufficient_ephemeral_storage'', ''node_memory_system_reserve_exhausted'',
      ''node_memory_budget_unavailable'']"

definition reason_String :: "rejection_reason \<Rightarrow> string" where
  "reason_String r =
     (if reason_number r < length rejectionReasonNames
      then rejectionReasonNames ! reason_number r else ''unspecified'')"

section \<open>Evaluations\<close>

datatype candidate_state =
    CandidateStateUnspecified | CandidateStateEligible | CandidateStateRejected

record rank =
  rk_MountedMatch :: bool
  rk_RetainedRootfsCount :: int32
  rk_RetainedEnvironmentCount :: int32
  rk_NydusDaemonAlive :: bool
  rk_ChunkDBRecentAccessAgeSecs :: int64
  rk_PeerHealthyCount :: int64
  rk_PeerHintedCount :: int64
  rk_IdlePoolReady :: bool
  rk_RuntimeSlotOccupancy :: int64
  rk_ChargedCPUMilli :: int64
  rk_ChargedMemoryBytes :: int64
  rk_ChargedEphemeralBytes :: int64

record evaluation =
  pe_NodeID :: string
  pe_State :: candidate_state
  pe_RejectionReasons :: "rejection_reason list"
  pe_HeartbeatAgeSecs :: int64
  pe_SummaryAgeSecs :: int64
  pe_Pools :: "pools_summary option"
  pe_Locality :: "locality_summary option"
  pe_Rank :: "rank option"

definition zero_rank :: rank where
  "zero_rank =
     \<lparr>rk_MountedMatch = False, rk_RetainedRootfsCount = 0, rk_RetainedEnvironmentCount = 0,
      rk_NydusDaemonAlive = False, rk_ChunkDBRecentAccessAgeSecs = 0, rk_PeerHealthyCount = 0,
      rk_PeerHintedCount = 0, rk_IdlePoolReady = False, rk_RuntimeSlotOccupancy = 0,
      rk_ChargedCPUMilli = 0, rk_ChargedMemoryBytes = 0, rk_ChargedEphemeralBytes = 0\<rparr>"

definition GetRank :: "evaluation \<Rightarrow> rank" where
  "GetRank e = (case pe_Rank e of None \<Rightarrow> zero_rank | Some r \<Rightarrow> r)"

definition zero_evaluation :: evaluation where
  "zero_evaluation =
     \<lparr>pe_NodeID = [], pe_State = CandidateStateUnspecified, pe_RejectionReasons = [],
      pe_HeartbeatAgeSecs = 0, pe_SummaryAgeSecs = 0, pe_Pools = None, pe_Locality = None,
      pe_Rank = None\<rparr>"

definition CloneEvaluation :: "evaluation option \<Rightarrow> evaluation" where
  "CloneEvaluation e = (case e of None \<Rightarrow> zero_evaluation | Some v \<Rightarrow> v)"

definition EvaluationLess :: "evaluation option \<Rightarrow> evaluation option \<Rightarrow> bool" where
  "EvaluationLess left right =
     (case left of
        None \<Rightarrow> False
      | Some l \<Rightarrow>
          (case right of
             None \<Rightarrow> True
           | Some r \<Rightarrow>
               (let a = GetRank l; b = GetRank r in
                if rk_MountedMatch a \<noteq> rk_MountedMatch b then rk_MountedMatch a
                else if rk_RetainedRootfsCount a \<noteq> rk_RetainedRootfsCount b
                then rk_RetainedRootfsCount b < rk_RetainedRootfsCount a
                else if rk_RetainedEnvironmentCount a \<noteq> rk_RetainedEnvironmentCount b
                then rk_RetainedEnvironmentCount b < rk_RetainedEnvironmentCount a
                else if rk_NydusDaemonAlive a \<noteq> rk_NydusDaemonAlive b then rk_NydusDaemonAlive a
                else if rk_ChunkDBRecentAccessAgeSecs a \<noteq> rk_ChunkDBRecentAccessAgeSecs b
                then rk_ChunkDBRecentAccessAgeSecs a < rk_ChunkDBRecentAccessAgeSecs b
                else if rk_PeerHealthyCount a \<noteq> rk_PeerHealthyCount b
                then rk_PeerHealthyCount b < rk_PeerHealthyCount a
                else if rk_PeerHintedCount a \<noteq> rk_PeerHintedCount b
                then rk_PeerHintedCount b < rk_PeerHintedCount a
                else if rk_IdlePoolReady a \<noteq> rk_IdlePoolReady b then rk_IdlePoolReady a
                else if rk_RuntimeSlotOccupancy a \<noteq> rk_RuntimeSlotOccupancy b
                then rk_RuntimeSlotOccupancy a < rk_RuntimeSlotOccupancy b
                else if rk_ChargedCPUMilli a \<noteq> rk_ChargedCPUMilli b
                then rk_ChargedCPUMilli a < rk_ChargedCPUMilli b
                else if rk_ChargedMemoryBytes a \<noteq> rk_ChargedMemoryBytes b
                then rk_ChargedMemoryBytes a < rk_ChargedMemoryBytes b
                else if rk_ChargedEphemeralBytes a \<noteq> rk_ChargedEphemeralBytes b
                then rk_ChargedEphemeralBytes a < rk_ChargedEphemeralBytes b
                else if pe_HeartbeatAgeSecs l \<noteq> pe_HeartbeatAgeSecs r
                then pe_HeartbeatAgeSecs l < pe_HeartbeatAgeSecs r
                else pe_NodeID l < pe_NodeID r)))"

abbreviation evaluation_less :: "evaluation \<Rightarrow> evaluation \<Rightarrow> bool" where
  "evaluation_less a b \<equiv> EvaluationLess (Some a) (Some b)"

section \<open>Requests\<close>

record request =
  rq_RootfsKey :: string
  rq_RootfsType :: rootfs_type
  rq_MountType :: mount_type
  rq_MemoryLimitBytes :: int64
  rq_RootfsWritable :: bool
  rq_EphemeralStorageLimitBytes :: int64
  rq_RootfsSnapshot :: bool
  rq_RequestedCpuMilli :: int64
  rq_RequestedMemoryBytes :: int64
  rq_RequestedEphemeralStorageBytes :: int64
  rq_Network :: string
  rq_NetworkBackend :: string
  rq_RequiresDNSPolicyEnforcement :: bool
  rq_RequiresStrictEgressEnforcement :: bool
  rq_CapabilityRequirements :: "capability_key list"
  rq_ExtensionCapabilityRequirements :: "extension_requirement option list"
  rq_NodeSelector :: "(string \<times> string) list"

datatype resolve_error = NoNetworkBackend | DeriveError capability_error

definition summaryLocality :: "node_summary option \<Rightarrow> locality_summary option list" where
  "summaryLocality summary = (case summary of None \<Rightarrow> [] | Some s \<Rightarrow> ns_locality s)"

definition summarySnapshot :: "node_summary option \<Rightarrow> capability_snapshot option" where
  "summarySnapshot summary = Option.bind summary ns_capability_snapshot"

definition erofsLocality :: "string \<Rightarrow> locality_summary option \<Rightarrow> bool" where
  "erofsLocality key l =
     (case l of None \<Rightarrow> False | Some x \<Rightarrow> loc_key x = key \<and> loc_mount_type x = MT_EROFS)"

definition requestInput :: "request \<Rightarrow> bool \<Rightarrow> requirement_input" where
  "requestInput out erofsBacking =
     \<lparr>ri_NetworkMode = rq_Network out, ri_NetworkBackend = rq_NetworkBackend out,
      ri_RequiresDNSPolicyEnforcement = rq_RequiresDNSPolicyEnforcement out,
      ri_RequiresStrictEgressEnforcement = rq_RequiresStrictEgressEnforcement out,
      ri_MemoryLimitBytes = rq_MemoryLimitBytes out, ri_RootfsWritable = rq_RootfsWritable out,
      ri_EphemeralStorageLimitBytes = rq_EphemeralStorageLimitBytes out,
      ri_EROFSBacking = erofsBacking, ri_RootfsSnapshot = rq_RootfsSnapshot out,
      ri_ExtensionCapabilityRequests = rq_ExtensionCapabilityRequirements out\<rparr>"

text \<open>The derived request of a node and the error, which may both be present: a request that
  could not be bound to a backend is still used for diagnostics.\<close>

definition ResolveRequestForNode ::
  "(string \<Rightarrow> string) \<Rightarrow> request option \<Rightarrow> node_summary option \<Rightarrow> gotime \<Rightarrow>
   request option \<times> resolve_error option" where
  "ResolveRequestForNode ul base summary now =
     (case base of
        None \<Rightarrow> (None, None)
      | Some b \<Rightarrow>
          (let erofsBacking = list_ex (erofsLocality (rq_RootfsKey b)) (summaryLocality summary);
               out = b\<lparr>rq_ExtensionCapabilityRequirements :=
                         filter (\<lambda>r. r \<noteq> None) (rq_ExtensionCapabilityRequirements b),
                       rq_MountType := (if erofsBacking then MT_EROFS else rq_MountType b),
                       rq_NetworkBackend :=
                         (if rq_Network b \<noteq> ''host''
                          then AvailableNetworkBackend ul (summarySnapshot summary) now
                          else rq_NetworkBackend b)\<rparr>;
               networkErr = (rq_Network out \<noteq> ''host'' \<and> rq_NetworkBackend out = []);
               input = requestInput out erofsBacking
           in (case (if networkErr then DeriveRequestStaticRequirements ul input
                     else DeriveRequirements ul input) of
                 Inl e \<Rightarrow> (Some out, Some (DeriveError e))
               | Inr requirements \<Rightarrow>
                   (Some (out\<lparr>rq_CapabilityRequirements := requirements\<rparr>),
                    if networkErr then Some NoNetworkBackend else None))))"

section \<open>Rejection diagnostics\<close>

fun firstOccurrences :: "rejection_reason list \<Rightarrow> rejection_reason list \<Rightarrow> rejection_reason list" where
  "firstOccurrences seen [] = []"
| "firstOccurrences seen (r # rs) =
     (if r \<in> set seen then firstOccurrences seen rs else r # firstOccurrences (r # seen) rs)"

definition CandidateRejectionReasons :: "evaluation list \<Rightarrow> rejection_reason list" where
  "CandidateRejectionReasons candidates =
     firstOccurrences [] (concat (map pe_RejectionReasons candidates))"

definition RejectionReasonLabels :: "rejection_reason list \<Rightarrow> string list" where
  "RejectionReasonLabels reasons =
     sort (filter (\<lambda>l. l \<noteq> [] \<and> l \<noteq> ''unspecified'') (map reason_String reasons))"

fun capacityReason :: "rejection_reason \<Rightarrow> bool" where
  "capacityReason RejectionReasonInsufficientCPU = True"
| "capacityReason RejectionReasonInsufficientMemory = True"
| "capacityReason RejectionReasonInsufficientEphemeralStorage = True"
| "capacityReason _ = False"

definition capacityOnlyRejection :: "rejection_reason list \<Rightarrow> bool" where
  "capacityOnlyRejection reasons =
     (list_all (\<lambda>r. capacityReason r \<or> r = RejectionReasonUnspecified) reasons
      \<and> list_ex capacityReason reasons)"

definition admissionReason :: "evaluation list \<Rightarrow> admission_rejection_reason" where
  "admissionReason rejected =
     (if rejected = [] then RejectionNodeSelection
      else if list_ex (\<lambda>c. \<not> capacityOnlyRejection (pe_RejectionReasons c)) rejected
      then RejectionNodeSelection
      else RejectionPlacementCapacity)"

text \<open>The status returned when no node is eligible; the text and the metadata are functions
  of these fields.\<close>

record no_eligible_node =
  ne_Reason :: admission_rejection_reason
  ne_DiagnosticCode :: admission_diagnostic_code
  ne_Requested :: claim
  ne_Labels :: "string list"

definition NoEligibleNodeError :: "request option \<Rightarrow> evaluation list \<Rightarrow> no_eligible_node" where
  "NoEligibleNodeError req rejected =
     (let reason = admissionReason rejected
      in \<lparr>ne_Reason = reason, ne_DiagnosticCode = AdmissionDiagnosticForReason reason,
          ne_Requested =
            (case req of
               None \<Rightarrow> zero_claim
             | Some r \<Rightarrow> \<lparr>CPUMilli = rq_RequestedCpuMilli r, MemoryBytes = rq_RequestedMemoryBytes r,
                         EphemeralStorageBytes = rq_RequestedEphemeralStorageBytes r\<rparr>),
          ne_Labels = RejectionReasonLabels (CandidateRejectionReasons rejected)\<rparr>)"

section \<open>The rank is a strict total order on nodes\<close>

type_synonym rank_key =
  "bool \<times> int \<times> int \<times> bool \<times> int \<times> int \<times> int \<times> bool \<times> int \<times> int \<times> int \<times> int \<times> int \<times> string"

definition rank_key :: "evaluation \<Rightarrow> rank_key" where
  "rank_key e =
     (let r = GetRank e in
      (\<not> rk_MountedMatch r, - rk_RetainedRootfsCount r, - rk_RetainedEnvironmentCount r,
       \<not> rk_NydusDaemonAlive r, rk_ChunkDBRecentAccessAgeSecs r, - rk_PeerHealthyCount r,
       - rk_PeerHintedCount r, \<not> rk_IdlePoolReady r, rk_RuntimeSlotOccupancy r,
       rk_ChargedCPUMilli r, rk_ChargedMemoryBytes r, rk_ChargedEphemeralBytes r,
       pe_HeartbeatAgeSecs e, pe_NodeID e))"

lemma lex_ascending: "(if x \<noteq> y then x < y else P) \<longleftrightarrow> x < y \<or> x \<le> y \<and> P" for x y :: "'a :: linorder"
  by auto

lemma lex_descending: "(if x \<noteq> y then y < x else P) \<longleftrightarrow> - x < - y \<or> - x \<le> - y \<and> P" for x y :: int
  by auto

lemma lex_flag: "(if x \<noteq> y then x else P) \<longleftrightarrow> (\<not> x) < (\<not> y) \<or> (\<not> x) \<le> (\<not> y) \<and> P"
  by auto

lemma evaluation_less_rank_key: "evaluation_less a b \<longleftrightarrow> rank_key a < rank_key b"
  unfolding EvaluationLess_def rank_key_def Let_def option.case less_prod_simp
  by (simp only: lex_ascending lex_descending lex_flag)

lemma rank_key_node: "rank_key a = rank_key b \<Longrightarrow> pe_NodeID a = pe_NodeID b"
  by (simp add: rank_key_def Let_def)

lemma less_split: "x < z \<Longrightarrow> x < y \<or> y < z" for x y z :: "'a :: linorder"
  by (cases "x < y") auto

interpretation evaluation_order: strict_weak_order evaluation_less
proof
  fix x y z :: evaluation
  show "\<not> evaluation_less x x" by (simp add: evaluation_less_rank_key)
  show "evaluation_less x y \<Longrightarrow> evaluation_less y z \<Longrightarrow> evaluation_less x z"
    unfolding evaluation_less_rank_key by (rule less_trans)
  show "evaluation_less x z \<Longrightarrow> evaluation_less x y \<or> evaluation_less y z"
    unfolding evaluation_less_rank_key by (rule less_split)
qed

lemma evaluation_less_total:
  "pe_NodeID a \<noteq> pe_NodeID b \<Longrightarrow> evaluation_less a b \<or> evaluation_less b a"
  unfolding evaluation_less_rank_key using rank_key_node by (metis linorder_less_linear)

end
