(* ===== verification/Placement_Engine.thy ===== *)
theory Placement_Engine
  imports Placement_Kernel
begin

text \<open>
  The placement engine and the candidate selector (\<open>internal/placement\<close>): predicates,
  rank, evaluation of one node, the plan over a registry snapshot, and the selection of
  candidates with its fallback to retryable nodes.

  The lemmas characterise eligibility, show that planning partitions the nodes and ranks
  the eligible ones independently of the order in which the registry's map is traversed,
  and give the contract durable admission relies on when it evaluates a locked node.
\<close>

section \<open>Predicates and rank\<close>

definition imagemgrUsable :: "node_summary option \<Rightarrow> bool" where
  "imagemgrUsable summary =
     (case Option.bind (Option.bind summary ns_components) comp_imagemgr of
        None \<Rightarrow> False
      | Some c \<Rightarrow> dm_reachable c \<and> dm_state c \<noteq> CST_DISABLED)"

definition imagefsdUsable :: "node_summary option \<Rightarrow> bool" where
  "imagefsdUsable summary =
     (case Option.bind (Option.bind summary ns_components) comp_imagefsd of
        None \<Rightarrow> False
      | Some c \<Rightarrow> dm_reachable c \<and> dm_state c \<noteq> CST_DISABLED)"

definition effectiveNodeState :: "node_summary option \<Rightarrow> bool \<Rightarrow> node_state" where
  "effectiveNodeState summary heartbeatFresh =
     (if \<not> heartbeatFresh then NS_UNREACHABLE
      else
        (case summary of
           None \<Rightarrow> NS_UNSPECIFIED
         | Some s \<Rightarrow>
             if ns_node_state s = NS_DRAINING then NS_DRAINING
             else if ns_node_state s = NS_DISABLED then NS_DISABLED
             else NS_READY))"

definition labelsMatch :: "(string \<times> string) list \<Rightarrow> (string \<times> string) list \<Rightarrow> bool" where
  "labelsMatch labels selector =
     list_all (\<lambda>(key, value). (case map_of labels key of None \<Rightarrow> [] | Some v \<Rightarrow> v) = value) selector"

definition hasCapability ::
  "(string \<Rightarrow> string) \<Rightarrow> node_summary option \<Rightarrow> capability_key \<Rightarrow> gotime \<Rightarrow> bool" where
  "hasCapability ul summary want now =
     (AvailableObservation ul (summarySnapshot summary) (Some want) now \<noteq> None)"

definition requiresNodeDataplane :: "request \<Rightarrow> bool" where
  "requiresNodeDataplane req \<longleftrightarrow> rq_Network req \<noteq> ''host''"

definition summaryAllocatable :: "node_summary option \<Rightarrow> resource_quantity option" where
  "summaryAllocatable summary = Option.bind summary ns_allocatable"

definition hasAvailableCPU :: "admission_policy \<Rightarrow> node_summary option \<Rightarrow> int64 \<Rightarrow> bool" where
  "hasAvailableCPU policy summary requested =
     (requested \<le> 0 \<or>
      policy_Fits policy (summaryAllocatable summary) zero_claim (zero_claim\<lparr>CPUMilli := requested\<rparr>))"

definition hasAvailableMemory :: "admission_policy \<Rightarrow> node_summary option \<Rightarrow> int64 \<Rightarrow> bool" where
  "hasAvailableMemory policy summary requested =
     (requested \<le> 0 \<or>
      policy_Fits policy (summaryAllocatable summary) zero_claim (zero_claim\<lparr>MemoryBytes := requested\<rparr>))"

definition hasAvailableEphemeralStorage ::
  "admission_policy \<Rightarrow> node_summary option \<Rightarrow> int64 \<Rightarrow> bool" where
  "hasAvailableEphemeralStorage policy summary requested =
     (requested \<le> 0 \<or>
      policy_Fits policy (summaryAllocatable summary) zero_claim
        (zero_claim\<lparr>EphemeralStorageBytes := requested\<rparr>))"

definition dedupeRejectionReasons :: "rejection_reason list \<Rightarrow> rejection_reason list" where
  "dedupeRejectionReasons reasons =
     sort (firstOccurrences [] (filter (\<lambda>r. r \<noteq> RejectionReasonUnspecified) reasons))"

fun findMatchingLocality :: "locality_summary option list \<Rightarrow> string \<Rightarrow> locality_summary option" where
  "findMatchingLocality [] key = None"
| "findMatchingLocality (None # rest) key = findMatchingLocality rest key"
| "findMatchingLocality (Some entry # rest) key =
     (if loc_key entry = key then Some entry else findMatchingLocality rest key)"

definition localityMounted :: "locality_summary option \<Rightarrow> string \<Rightarrow> bool" where
  "localityMounted locality key =
     (case locality of None \<Rightarrow> False | Some l \<Rightarrow> loc_key l = key \<and> loc_mounted l)"

definition localityAge :: "locality_summary option \<Rightarrow> int64" where
  "localityAge locality =
     (case locality of
        None \<Rightarrow> 2 ^ 62 - 1
      | Some l \<Rightarrow>
          if loc_chunkdb_recent_access_age_secs l \<le> 0 then 2 ^ 62 - 1
          else loc_chunkdb_recent_access_age_secs l)"

definition hasWarmRuntimeSlot :: "pools_summary option \<Rightarrow> bool" where
  "hasWarmRuntimeSlot pools =
     (case Option.bind pools pools_runtime_slots of None \<Rightarrow> False | Some p \<Rightarrow> 0 < ps_idle p)"

definition buildPlacementRank ::
  "request \<Rightarrow> node_summary option \<Rightarrow> locality_summary option \<Rightarrow> rank" where
  "buildPlacementRank req summary locality =
     zero_rank\<lparr>rk_MountedMatch := localityMounted locality (rq_RootfsKey req),
       rk_RetainedRootfsCount := (case locality of None \<Rightarrow> 0 | Some l \<Rightarrow> loc_retained_rootfs_count l),
       rk_RetainedEnvironmentCount :=
         (case locality of None \<Rightarrow> 0 | Some l \<Rightarrow> loc_retained_environment_count l),
       rk_NydusDaemonAlive := (case locality of None \<Rightarrow> False | Some l \<Rightarrow> loc_nydus_daemon_alive l),
       rk_ChunkDBRecentAccessAgeSecs := localityAge locality,
       rk_PeerHealthyCount := (case locality of None \<Rightarrow> 0 | Some l \<Rightarrow> loc_peer_healthy_count l),
       rk_PeerHintedCount := (case locality of None \<Rightarrow> 0 | Some l \<Rightarrow> loc_peer_hinted_count l),
       rk_IdlePoolReady := hasWarmRuntimeSlot (Option.bind summary ns_pools),
       rk_RuntimeSlotOccupancy := ReportedActiveInstances summary\<rparr>"

section \<open>Evaluation of a node\<close>

record engine =
  eng_heartbeatFreshnessWindow :: duration
  eng_summaryFreshnessWindow :: duration
  eng_resourcePolicy :: admission_policy

definition defaultFreshnessWindow :: duration where
  "defaultFreshnessWindow = 15 * second"

definition NewEngine :: "duration \<Rightarrow> duration \<Rightarrow> admission_policy \<Rightarrow> engine" where
  "NewEngine heartbeatWindow summaryWindow policy =
     \<lparr>eng_heartbeatFreshnessWindow =
        (if heartbeatWindow \<le> 0 then defaultFreshnessWindow else heartbeatWindow),
      eng_summaryFreshnessWindow =
        (if summaryWindow \<le> 0 then defaultFreshnessWindow else summaryWindow),
      eng_resourcePolicy = NormalizeAdmissionPolicy policy\<rparr>"

definition missingCapabilityReason ::
  "(string \<Rightarrow> string) \<Rightarrow> node_summary option \<Rightarrow> gotime \<Rightarrow> capability_key \<Rightarrow> rejection_reason list" where
  "missingCapabilityReason ul summary now requirement =
     (if hasCapability ul summary requirement now then []
      else if GetPlatform (Some requirement) \<in> {PC_NETWORK_BRIDGE, PC_NETWORK_BPFNET}
      then [RejectionReasonNetworkUnsupported]
      else [RejectionReasonCapabilityUnsupported])"

definition missingCapabilityRejectionReasons ::
  "(string \<Rightarrow> string) \<Rightarrow> node_summary option \<Rightarrow> capability_key list \<Rightarrow> gotime \<Rightarrow>
   rejection_reason list" where
  "missingCapabilityRejectionReasons ul summary requirements now =
     dedupeRejectionReasons (concat (map (missingCapabilityReason ul summary now) requirements))"

text \<open>The image components a mount type needs.\<close>

definition mountReasons :: "mount_type \<Rightarrow> node_summary option \<Rightarrow> rejection_reason list" where
  "mountReasons mountType summary =
     (case mountType of
        MT_LOCAL \<Rightarrow> []
      | MT_OCI \<Rightarrow> emit (\<not> imagemgrUsable summary) RejectionReasonImagemgrUnavailable
      | MT_EROFS \<Rightarrow> emit (\<not> imagemgrUsable summary) RejectionReasonImagemgrUnavailable
      | MT_NYDUS \<Rightarrow>
          emit (\<not> imagemgrUsable summary) RejectionReasonImagemgrUnavailable @
          emit (\<not> imagefsdUsable summary) RejectionReasonImagefsdUnavailable
      | _ \<Rightarrow> [RejectionReasonImagemgrUnavailable, RejectionReasonImagefsdUnavailable])"

definition axnodedReady :: "node_summary option \<Rightarrow> bool" where
  "axnodedReady summary =
     (case Option.bind (Option.bind summary ns_components) comp_axnoded of
        None \<Rightarrow> False
      | Some a \<Rightarrow> ax_ready a)"

definition reserveExhausted :: "node_summary option \<Rightarrow> bool" where
  "reserveExhausted summary =
     (case Option.bind summary ns_memory_budget of
        None \<Rightarrow> False
      | Some b \<Rightarrow> mb_system_reserve_exhausted b)"

definition summaryLabels :: "node_summary option \<Rightarrow> (string \<times> string) list" where
  "summaryLabels summary = (case summary of None \<Rightarrow> [] | Some s \<Rightarrow> ns_labels s)"

definition effectiveMountType :: "request \<Rightarrow> locality_summary option \<Rightarrow> mount_type" where
  "effectiveMountType req locality =
     (case locality of
        None \<Rightarrow> rq_MountType req
      | Some l \<Rightarrow> if loc_mount_type l = MT_EROFS then MT_EROFS else rq_MountType req)"

text \<open>The rejection reasons in the order the code appends them.\<close>

definition candidateReasons ::
  "(string \<Rightarrow> string) \<Rightarrow> engine \<Rightarrow> node_record \<Rightarrow> request \<Rightarrow> resolve_error option \<Rightarrow>
   locality_summary option \<Rightarrow> gotime \<Rightarrow> rejection_reason list" where
  "candidateReasons ul e r req derivationErr locality now =
     (let summary = nr_Summary r;
          heartbeatFresh = HeartbeatFresh (nr_LastHeartbeatAt r) now (eng_heartbeatFreshnessWindow e);
          summaryFresh = SummaryFresh summary now (eng_summaryFreshnessWindow e);
          state = effectiveNodeState summary heartbeatFresh;
          policy = eng_resourcePolicy e
      in emit (\<not> record_Active r) RejectionReasonNodeRetired @
         emit (\<not> heartbeatFresh) RejectionReasonStaleHeartbeat @
         emit (\<not> summaryFresh) RejectionReasonStaleSummary @
         emit (state = NS_DRAINING) RejectionReasonNodeDraining @
         emit (state = NS_DISABLED) RejectionReasonNodeDisabled @
         emit (\<not> labelsMatch (summaryLabels summary) (rq_NodeSelector req))
           RejectionReasonNodeSelectorMismatch @
         emit (\<not> axnodedReady summary) RejectionReasonAxnodedNotReady @
         emit (reserveExhausted summary) RejectionReasonNodeMemorySystemReserveExhausted @
         emit (ValidateSummary summary now \<noteq> None) RejectionReasonNodeMemoryBudgetUnavailable @
         mountReasons (effectiveMountType req locality) summary @
         emit (derivationErr \<noteq> None \<and> requiresNodeDataplane req) RejectionReasonNetworkUnsupported @
         missingCapabilityRejectionReasons ul summary (rq_CapabilityRequirements req) now @
         emit (\<not> hasAvailableCPU policy summary (rq_RequestedCpuMilli req))
           RejectionReasonInsufficientCPU @
         emit (\<not> hasAvailableMemory policy summary (rq_RequestedMemoryBytes req))
           RejectionReasonInsufficientMemory @
         emit (\<not> hasAvailableEphemeralStorage policy summary (rq_RequestedEphemeralStorageBytes req))
           RejectionReasonInsufficientEphemeralStorage)"

definition evaluateCandidate ::
  "(string \<Rightarrow> string) \<Rightarrow> engine \<Rightarrow> node_record option \<Rightarrow> request option \<Rightarrow> gotime \<Rightarrow> evaluation option" where
  "evaluateCandidate ul e record_opt request_opt now =
     (case record_opt of
        None \<Rightarrow> None
      | Some r \<Rightarrow>
          (case ResolveRequestForNode ul request_opt (nr_Summary r) now of
             (None, _) \<Rightarrow> None
           | (Some req, derivationErr) \<Rightarrow>
               (let summary = nr_Summary r;
                    locality = findMatchingLocality (summaryLocality summary) (rq_RootfsKey req);
                    reasons = candidateReasons ul e r req derivationErr locality now
                in Some
                  \<lparr>pe_NodeID = nr_NodeID r,
                   pe_State = (if reasons = [] then CandidateStateEligible else CandidateStateRejected),
                   pe_RejectionReasons = (if reasons = [] then [] else dedupeRejectionReasons reasons),
                   pe_HeartbeatAgeSecs = HeartbeatAgeSecs (nr_LastHeartbeatAt r) now,
                   pe_SummaryAgeSecs = SummaryAgeSecs summary now,
                   pe_Pools = Option.bind summary ns_pools,
                   pe_Locality = locality,
                   pe_Rank = Some (buildPlacementRank req summary locality)\<rparr>)))"

definition engine_Evaluate ::
  "(string \<Rightarrow> string) \<Rightarrow> engine \<Rightarrow> node_record option \<Rightarrow> request option \<Rightarrow> gotime \<Rightarrow> evaluation option" where
  "engine_Evaluate ul e record_opt request_opt now = evaluateCandidate ul e record_opt request_opt now"

definition node_id_less :: "evaluation \<Rightarrow> evaluation \<Rightarrow> bool" where
  "node_id_less a b \<longleftrightarrow> pe_NodeID a < pe_NodeID b"

definition Plan ::
  "(string \<Rightarrow> string) \<Rightarrow> engine \<Rightarrow> node_record list \<Rightarrow> request option \<Rightarrow> gotime \<Rightarrow>
   evaluation list \<times> evaluation list" where
  "Plan ul e records req now =
     (let planned = List.map_filter (\<lambda>r. evaluateCandidate ul e (Some r) req now) records;
          eligible = filter (\<lambda>c. pe_State c = CandidateStateEligible) planned;
          rejected = filter (\<lambda>c. pe_State c \<noteq> CandidateStateEligible) planned
      in (sort_slice evaluation_less eligible, sort_slice node_id_less rejected))"

section \<open>Selection of candidates\<close>

record candidate =
  cand_Record :: node_record
  cand_Evaluation :: evaluation
  cand_BaseRequest :: "request option"
  cand_Request :: "request option"

definition CandidateLess :: "candidate option \<Rightarrow> candidate option \<Rightarrow> bool" where
  "CandidateLess left right =
     (case left of
        None \<Rightarrow> False
      | Some l \<Rightarrow>
          (case right of
             None \<Rightarrow> True
           | Some r \<Rightarrow> EvaluationLess (Some (cand_Evaluation l)) (Some (cand_Evaluation r))))"

datatype selection_error =
    SelectionResolve resolve_error
  | SelectionDisappeared
  | SelectionNoEligible no_eligible_node

definition requestForCandidate ::
  "(string \<Rightarrow> string) \<Rightarrow> request option \<Rightarrow> node_record \<Rightarrow> gotime \<Rightarrow>
   request option \<times> resolve_error option" where
  "requestForCandidate ul request_opt r now = ResolveRequestForNode ul request_opt (nr_Summary r) now"

text \<open>The record of an identifier; of records with the same identifier the last one wins.\<close>

definition byID :: "(node_record \<Rightarrow> string) \<Rightarrow> node_record list \<Rightarrow> string \<Rightarrow> node_record option" where
  "byID key records n = map_of (rev (map (\<lambda>r. (key r, r)) records)) n"

fun eligibleCandidates ::
  "(string \<Rightarrow> string) \<Rightarrow> node_record list \<Rightarrow> request option \<Rightarrow> gotime \<Rightarrow> evaluation list \<Rightarrow>
   selection_error + candidate list" where
  "eligibleCandidates ul records req now [] = Inr []"
| "eligibleCandidates ul records req now (ev # evs) =
     (case byID nr_NodeID records (trim_space (pe_NodeID ev)) of
        None \<Rightarrow> eligibleCandidates ul records req now evs
      | Some r \<Rightarrow>
          (case requestForCandidate ul req r now of
             (_, Some e) \<Rightarrow> Inl (SelectionResolve e)
           | (candidateRequest, None) \<Rightarrow>
               bind_result (eligibleCandidates ul records req now evs) (\<lambda>rest.
                 Inr (\<lparr>cand_Record = r, cand_Evaluation = ev, cand_BaseRequest = req,
                       cand_Request = candidateRequest\<rparr> # rest))))"

definition planEligibleCandidates ::
  "(string \<Rightarrow> string) \<Rightarrow> engine \<Rightarrow> node_record list \<Rightarrow> request option \<Rightarrow> gotime \<Rightarrow>
   (selection_error + candidate list) \<times> evaluation list" where
  "planEligibleCandidates ul e records req now =
     (let (eligible, rejected) = Plan ul e records req now
      in if eligible = [] then (Inr [], rejected)
         else
           (case eligibleCandidates ul records req now eligible of
              Inl err \<Rightarrow> (Inl err, rejected)
            | Inr out \<Rightarrow>
                if out = [] then (Inl SelectionDisappeared, rejected) else (Inr out, rejected)))"

fun retryableRejectionReason :: "rejection_reason \<Rightarrow> bool" where
  "retryableRejectionReason RejectionReasonStaleHeartbeat = True"
| "retryableRejectionReason RejectionReasonStaleSummary = True"
| "retryableRejectionReason RejectionReasonAxnodedNotReady = True"
| "retryableRejectionReason RejectionReasonImagemgrUnavailable = True"
| "retryableRejectionReason RejectionReasonImagefsdUnavailable = True"
| "retryableRejectionReason RejectionReasonNodeMemorySystemReserveExhausted = True"
| "retryableRejectionReason RejectionReasonNodeMemoryBudgetUnavailable = True"
| "retryableRejectionReason RejectionReasonUnspecified = True"
| "retryableRejectionReason _ = False"

definition retryableRejection :: "rejection_reason list \<Rightarrow> bool" where
  "retryableRejection reasons \<longleftrightarrow> reasons \<noteq> [] \<and> list_all retryableRejectionReason reasons"

fun retryableCandidatesFromRejected ::
  "(string \<Rightarrow> string) \<Rightarrow> node_record list \<Rightarrow> evaluation list \<Rightarrow> request option \<Rightarrow> gotime \<Rightarrow>
   candidate list" where
  "retryableCandidatesFromRejected ul records [] req now = []"
| "retryableCandidatesFromRejected ul records (ev # evs) req now =
     (if \<not> retryableRejection (pe_RejectionReasons ev)
      then retryableCandidatesFromRejected ul records evs req now
      else
        (case byID (trim_space \<circ> nr_NodeID) records (trim_space (pe_NodeID ev)) of
           None \<Rightarrow> retryableCandidatesFromRejected ul records evs req now
         | Some r \<Rightarrow>
             (case requestForCandidate ul req r now of
                (_, Some e) \<Rightarrow> retryableCandidatesFromRejected ul records evs req now
              | (candidateRequest, None) \<Rightarrow>
                  \<lparr>cand_Record = r, cand_Evaluation = ev, cand_BaseRequest = req,
                   cand_Request = candidateRequest\<rparr>
                  # retryableCandidatesFromRejected ul records evs req now)))"

definition SelectCandidates ::
  "(string \<Rightarrow> string) \<Rightarrow> engine \<Rightarrow> registry \<Rightarrow> request \<Rightarrow> gotime \<Rightarrow>
   selection_error + candidate list" where
  "SelectCandidates ul e nodes req now =
     (let records = registry_Snapshot nodes
      in case planEligibleCandidates ul e records (Some req) now of
           (Inl err, rejected) \<Rightarrow> Inl err
         | (Inr candidates, rejected) \<Rightarrow>
             if candidates = []
             then
               (let retryable = retryableCandidatesFromRejected ul records rejected (Some req) now
                in if retryable = []
                   then Inl (SelectionNoEligible (NoEligibleNodeError (Some req) rejected))
                   else Inr retryable)
             else Inr candidates)"

section \<open>Rejection reasons\<close>

lemma set_firstOccurrences: "set (firstOccurrences seen rs) = set rs - set seen"
  by (induction seen rs rule: firstOccurrences.induct) auto

lemma distinct_firstOccurrences: "distinct (firstOccurrences seen rs)"
  by (induction seen rs rule: firstOccurrences.induct) (auto simp: set_firstOccurrences)

lemma dedupe_props:
  "set (dedupeRejectionReasons rs) = set rs - {RejectionReasonUnspecified}"
  "distinct (dedupeRejectionReasons rs)" "sorted (dedupeRejectionReasons rs)"
  by (auto simp: dedupeRejectionReasons_def set_firstOccurrences distinct_firstOccurrences)

lemma missingCapability_Nil_iff:
  "missingCapabilityRejectionReasons ul summary reqs now = [] \<longleftrightarrow>
   (\<forall>k\<in>set reqs. hasCapability ul summary k now)"
proof -
  have "missingCapabilityRejectionReasons ul summary reqs now = [] \<longleftrightarrow>
      set (missingCapabilityRejectionReasons ul summary reqs now) = {}" by simp
  also have "\<dots> \<longleftrightarrow> (\<forall>k\<in>set reqs. hasCapability ul summary k now)"
    by (auto simp: missingCapabilityRejectionReasons_def dedupe_props missingCapabilityReason_def)
  finally show ?thesis .
qed

definition mountUsable :: "mount_type \<Rightarrow> node_summary option \<Rightarrow> bool" where
  "mountUsable mountType summary \<longleftrightarrow>
     mountType = MT_LOCAL \<or>
     mountType \<in> {MT_OCI, MT_EROFS, MT_NYDUS} \<and> imagemgrUsable summary \<and>
       (mountType = MT_NYDUS \<longrightarrow> imagefsdUsable summary)"

lemma mountReasons_Nil_iff: "mountReasons mountType summary = [] \<longleftrightarrow> mountUsable mountType summary"
  by (cases mountType) (auto simp: mountReasons_def mountUsable_def)

lemma candidateReasons_no_unspecified:
  "RejectionReasonUnspecified \<notin> set (candidateReasons ul e r req err locality now)"
  by (cases "effectiveMountType req locality")
    (auto simp: candidateReasons_def Let_def mountReasons_def missingCapabilityRejectionReasons_def
      dedupe_props)

text \<open>What eligibility means, condition by condition.\<close>

definition eligible_on ::
  "(string \<Rightarrow> string) \<Rightarrow> engine \<Rightarrow> node_record \<Rightarrow> request \<Rightarrow> gotime \<Rightarrow> bool" where
  "eligible_on ul e r req now \<longleftrightarrow>
     record_Active r \<and>
     HeartbeatFresh (nr_LastHeartbeatAt r) now (eng_heartbeatFreshnessWindow e) \<and>
     SummaryFresh (nr_Summary r) now (eng_summaryFreshnessWindow e) \<and>
     effectiveNodeState (nr_Summary r) True \<notin> {NS_DRAINING, NS_DISABLED} \<and>
     labelsMatch (summaryLabels (nr_Summary r)) (rq_NodeSelector req) \<and>
     axnodedReady (nr_Summary r) \<and> \<not> reserveExhausted (nr_Summary r) \<and>
     ValidateSummary (nr_Summary r) now = None \<and>
     mountUsable (effectiveMountType req
       (findMatchingLocality (summaryLocality (nr_Summary r)) (rq_RootfsKey req))) (nr_Summary r) \<and>
     (\<forall>k\<in>set (rq_CapabilityRequirements req). hasCapability ul (nr_Summary r) k now) \<and>
     hasAvailableCPU (eng_resourcePolicy e) (nr_Summary r) (rq_RequestedCpuMilli req) \<and>
     hasAvailableMemory (eng_resourcePolicy e) (nr_Summary r) (rq_RequestedMemoryBytes req) \<and>
     hasAvailableEphemeralStorage (eng_resourcePolicy e) (nr_Summary r)
       (rq_RequestedEphemeralStorageBytes req)"

lemma candidateReasons_Nil_iff:
  "candidateReasons ul e r req err
     (findMatchingLocality (summaryLocality (nr_Summary r)) (rq_RootfsKey req)) now = [] \<longleftrightarrow>
   eligible_on ul e r req now \<and> (err = None \<or> \<not> requiresNodeDataplane req)"
  by (auto simp: candidateReasons_def Let_def eligible_on_def missingCapability_Nil_iff
      mountReasons_Nil_iff)

lemma evaluateCandidate_cases:
  assumes "evaluateCandidate ul e (Some r) (Some base) now = Some ev"
  obtains req err where "ResolveRequestForNode ul (Some base) (nr_Summary r) now = (Some req, err)"
    and "pe_NodeID ev = nr_NodeID r"
    and "pe_State ev = CandidateStateEligible \<longleftrightarrow>
      eligible_on ul e r req now \<and> (err = None \<or> \<not> requiresNodeDataplane req)"
    and "pe_State ev \<in> {CandidateStateEligible, CandidateStateRejected}"
    and "set (pe_RejectionReasons ev) = set (candidateReasons ul e r req err
      (findMatchingLocality (summaryLocality (nr_Summary r)) (rq_RootfsKey req)) now)"
    and "sorted (pe_RejectionReasons ev)" "distinct (pe_RejectionReasons ev)"
proof -
  obtain o_req err where res: "ResolveRequestForNode ul (Some base) (nr_Summary r) now = (o_req, err)"
    by fastforce
  with assms obtain req where req: "o_req = Some req"
    by (cases o_req) (auto simp: evaluateCandidate_def)
  define reasons where "reasons = candidateReasons ul e r req err
      (findMatchingLocality (summaryLocality (nr_Summary r)) (rq_RootfsKey req)) now"
  have ev: "pe_NodeID ev = nr_NodeID r"
    "pe_State ev = (if reasons = [] then CandidateStateEligible else CandidateStateRejected)"
    "pe_RejectionReasons ev = (if reasons = [] then [] else dedupeRejectionReasons reasons)"
    using assms res req
    by (auto simp: evaluateCandidate_def Let_def reasons_def [symmetric])
  have "RejectionReasonUnspecified \<notin> set reasons"
    unfolding reasons_def by (rule candidateReasons_no_unspecified)
  then show thesis
    using that [of req err] res req ev candidateReasons_Nil_iff [of ul e r req err now]
    by (auto simp: reasons_def [symmetric] dedupe_props)
qed

lemma evaluateCandidate_Some:
  "\<exists>ev. evaluateCandidate ul e (Some r) (Some base) now = Some ev \<and> pe_NodeID ev = nr_NodeID r"
proof -
  have "fst (ResolveRequestForNode ul (Some base) (nr_Summary r) now) \<noteq> None"
    by (auto simp: ResolveRequestForNode_def Let_def split: sum.splits)
  then show ?thesis
    by (cases "ResolveRequestForNode ul (Some base) (nr_Summary r) now")
      (auto simp: evaluateCandidate_def Let_def)
qed

section \<open>Planning\<close>

interpretation node_id_order: strict_weak_order node_id_less
  by unfold_locales (auto simp: node_id_less_def)

definition planned ::
  "(string \<Rightarrow> string) \<Rightarrow> engine \<Rightarrow> request \<Rightarrow> gotime \<Rightarrow> node_record list \<Rightarrow> evaluation list" where
  "planned ul e base now records =
     map (\<lambda>r. the (evaluateCandidate ul e (Some r) (Some base) now)) records"

lemma planned_map_filter:
  "List.map_filter (\<lambda>r. evaluateCandidate ul e (Some r) (Some base) now) records =
   planned ul e base now records"
proof (induction records)
  case (Cons r records)
  obtain ev where "evaluateCandidate ul e (Some r) (Some base) now = Some ev"
    using evaluateCandidate_Some by blast
  with Cons show ?case by (simp add: planned_def List.map_filter_def)
qed (simp add: planned_def List.map_filter_def)

lemma planned_ids: "map pe_NodeID (planned ul e base now records) = map nr_NodeID records"
proof -
  have "pe_NodeID (the (evaluateCandidate ul e (Some r) (Some base) now)) = nr_NodeID r" for r
    using evaluateCandidate_Some [of ul e r base now] by auto
  then show ?thesis by (simp add: planned_def)
qed

lemma Plan_eq:
  "Plan ul e records (Some base) now =
     (sort_slice evaluation_less
        (filter (\<lambda>c. pe_State c = CandidateStateEligible) (planned ul e base now records)),
      sort_slice node_id_less
        (filter (\<lambda>c. pe_State c \<noteq> CandidateStateEligible) (planned ul e base now records)))"
  by (simp add: Plan_def Let_def planned_map_filter)

lemma distinct_ids_pairwise:
  assumes "distinct (map f xs)" "a \<in> set xs" "b \<in> set xs" "a \<noteq> b"
  shows "f a \<noteq> f b"
  using assms by (auto simp: distinct_map inj_on_def)

lemma evaluations_total:
  assumes "distinct (map pe_NodeID xs)" "a \<in> set xs" "b \<in> set xs" "a \<noteq> b"
  shows "evaluation_less a b \<or> evaluation_less b a" "node_id_less a b \<or> node_id_less b a"
  using distinct_ids_pairwise [OF assms] evaluation_less_total
  unfolding node_id_less_def by (blast, metis linorder_less_linear)

lemma Plan_sorted:
  assumes "distinct (map nr_NodeID records)" "Plan ul e records (Some base) now = (el, rj)"
  shows "sorted_wrt evaluation_less el" "sorted_wrt node_id_less rj"
    and "mset el + mset rj = mset (planned ul e base now records)"
proof -
  let ?p = "planned ul e base now records"
  have dist: "distinct (map pe_NodeID ?p)" using assms(1) by (simp only: planned_ids)
  then have d: "distinct ?p" by (simp add: distinct_map)
  from assms(2) have el: "el = sort_slice evaluation_less (filter (\<lambda>c. pe_State c = CandidateStateEligible) ?p)"
    and rj: "rj = sort_slice node_id_less (filter (\<lambda>c. pe_State c \<noteq> CandidateStateEligible) ?p)"
    by (simp_all add: Plan_eq)
  show "sorted_wrt evaluation_less el"
    unfolding el
    by (rule evaluation_order.sorted_strict [OF evaluation_order.sort_slice_sorted])
      (use d evaluations_total(1) [OF dist] in auto)
  show "sorted_wrt node_id_less rj"
    unfolding rj
    by (rule node_id_order.sorted_strict [OF node_id_order.sort_slice_sorted])
      (use d evaluations_total(2) [OF dist] in auto)
  show "mset el + mset rj = mset ?p"
    by (simp add: el rj mset_filter multiset_partition [symmetric])
qed

lemma Plan_mset:
  assumes "mset records = mset records'" "distinct (map nr_NodeID records)"
  shows "Plan ul e records (Some base) now = Plan ul e records' (Some base) now"
proof -
  let ?p = "planned ul e base now records" and ?q = "planned ul e base now records'"
  have pq: "mset ?p = mset ?q" using assms(1) by (simp add: planned_def)
  have dist: "distinct (map pe_NodeID ?p)" using assms(2) by (simp only: planned_ids)
  moreover have dist': "distinct (map pe_NodeID ?q)"
    using dist pq by (metis mset_map mset_eq_imp_distinct_iff)
  ultimately have d: "distinct ?p" "distinct ?q" by (simp_all add: distinct_map)
  have s: "set ?p = set ?q" using pq by (metis set_mset_mset)
  have "sort_slice evaluation_less (filter P ?p) = sort_slice evaluation_less (filter P ?q)" for P
    by (rule evaluation_order.sort_slice_determined)
      (use d s evaluations_total(1) [OF dist'] evaluation_order.sort_slice_sorted in auto)
  moreover have "sort_slice node_id_less (filter P ?p) = sort_slice node_id_less (filter P ?q)" for P
    by (rule node_id_order.sort_slice_determined)
      (use d s evaluations_total(2) [OF dist'] node_id_order.sort_slice_sorted in auto)
  ultimately show ?thesis by (simp add: Plan_eq)
qed

section \<open>Selection\<close>

lemma byID_distinct:
  assumes "distinct (map key records)"
  shows "byID key records n = Some r \<longleftrightarrow> r \<in> set records \<and> key r = n"
proof -
  have "distinct (map fst (rev (map (\<lambda>r. (key r, r)) records)))"
    using assms by (simp add: rev_map [symmetric] comp_def)
  then show ?thesis by (auto simp: byID_def map_of_eq_Some_iff)
qed

lemma eligibleCandidates_error:
  "eligibleCandidates ul records req now evs = Inl err \<Longrightarrow> \<exists>e. err = SelectionResolve e"
proof (induction evs)
  case (Cons ev evs)
  then show ?case
    by (cases "eligibleCandidates ul records req now evs") (auto split: option.splits prod.splits)
qed simp

text \<open>A candidate that pairs an evaluation with its own node and its resolved request.\<close>

definition coherent ::
  "(string \<Rightarrow> string) \<Rightarrow> engine \<Rightarrow> node_record list \<Rightarrow> request \<Rightarrow> gotime \<Rightarrow> candidate \<Rightarrow> bool" where
  "coherent ul e records base now c \<longleftrightarrow>
     cand_Record c \<in> set records \<and> cand_BaseRequest c = Some base \<and>
     evaluateCandidate ul e (Some (cand_Record c)) (Some base) now = Some (cand_Evaluation c) \<and>
     ResolveRequestForNode ul (Some base) (nr_Summary (cand_Record c)) now = (cand_Request c, None)"

lemma planned_record:
  assumes "distinct (map nr_NodeID records)" "ev \<in> set (planned ul e base now records)"
    and "r \<in> set records" "nr_NodeID r = pe_NodeID ev"
  shows "evaluateCandidate ul e (Some r) (Some base) now = Some ev"
proof -
  from assms(2) obtain r0 where r0: "r0 \<in> set records"
    "ev = the (evaluateCandidate ul e (Some r0) (Some base) now)" by (auto simp: planned_def)
  with evaluateCandidate_Some [of ul e r0 base now]
  have ev: "evaluateCandidate ul e (Some r0) (Some base) now = Some ev" "pe_NodeID ev = nr_NodeID r0"
    by auto
  with assms(1,3,4) r0(1) have "r = r0" by (auto simp: distinct_map inj_on_def)
  with ev show ?thesis by simp
qed

lemma planned_lookup:
  assumes ids: "distinct (map nr_NodeID records)"
    and trimmed: "\<forall>r\<in>set records. trim_space (nr_NodeID r) = nr_NodeID r"
    and "ev \<in> set (planned ul e base now records)"
  obtains r where "r \<in> set records" "nr_NodeID r = pe_NodeID ev" "trim_space (pe_NodeID ev) = pe_NodeID ev"
    "byID nr_NodeID records (trim_space (pe_NodeID ev)) = Some r"
    "byID (trim_space \<circ> nr_NodeID) records (trim_space (pe_NodeID ev)) = Some r"
    "evaluateCandidate ul e (Some r) (Some base) now = Some ev"
proof -
  have "pe_NodeID ev \<in> set (map pe_NodeID (planned ul e base now records))" using assms(3) by simp
  then obtain r where r: "r \<in> set records" "nr_NodeID r = pe_NodeID ev"
    unfolding planned_ids by auto
  have same: "map (trim_space \<circ> nr_NodeID) records = map nr_NodeID records" using trimmed by simp
  have dist: "distinct (map (trim_space \<circ> nr_NodeID) records)" unfolding same by (rule ids)
  have "trim_space (pe_NodeID ev) = pe_NodeID ev" using r trimmed by metis
  then show thesis
    using that [OF r] r byID_distinct [OF ids] byID_distinct [OF dist]
      planned_record [OF ids assms(3) r] by simp
qed

lemma eligibleCandidates_ok:
  assumes ids: "distinct (map nr_NodeID records)"
    and trimmed: "\<forall>r\<in>set records. trim_space (nr_NodeID r) = nr_NodeID r"
    and "set evs \<subseteq> set (planned ul e base now records)"
    and "eligibleCandidates ul records (Some base) now evs = Inr cs"
  shows "map cand_Evaluation cs = evs \<and> (\<forall>c\<in>set cs. coherent ul e records base now c)"
  using assms(3,4)
proof (induction evs arbitrary: cs)
  case (Cons ev evs)
  have "ev \<in> set (planned ul e base now records)" using Cons.prems(1) by simp
  from planned_lookup [OF ids trimmed this] obtain r where r: "r \<in> set records"
    "byID nr_NodeID records (trim_space (pe_NodeID ev)) = Some r"
    "evaluateCandidate ul e (Some r) (Some base) now = Some ev" by metis
  obtain q err where q: "requestForCandidate ul (Some base) r now = (q, err)" by fastforce
  with Cons.prems(2) r have "err = None" by (cases err) auto
  with Cons.prems(2) r q obtain rest where
    "eligibleCandidates ul records (Some base) now evs = Inr rest"
    "cs = \<lparr>cand_Record = r, cand_Evaluation = ev, cand_BaseRequest = Some base,
           cand_Request = q\<rparr> # rest" by auto
  with Cons r q \<open>err = None\<close> show ?case
    by (auto simp: coherent_def requestForCandidate_def)
qed simp

lemma retryable_ok:
  assumes ids: "distinct (map nr_NodeID records)"
    and trimmed: "\<forall>r\<in>set records. trim_space (nr_NodeID r) = nr_NodeID r"
    and "set evs \<subseteq> set (planned ul e base now records)"
    and "c \<in> set (retryableCandidatesFromRejected ul records evs (Some base) now)"
  shows "coherent ul e records base now c \<and> cand_Evaluation c \<in> set evs \<and>
    retryableRejection (pe_RejectionReasons (cand_Evaluation c))"
  using assms(3,4)
proof (induction evs)
  case (Cons ev evs)
  have "ev \<in> set (planned ul e base now records)" using Cons.prems(1) by simp
  from planned_lookup [OF ids trimmed this] obtain r where r: "r \<in> set records"
    "byID (trim_space \<circ> nr_NodeID) records (trim_space (pe_NodeID ev)) = Some r"
    "evaluateCandidate ul e (Some r) (Some base) now = Some ev" by metis
  obtain q err where q: "requestForCandidate ul (Some base) r now = (q, err)" by fastforce
  show ?case
    using Cons r q
    by (cases err) (auto simp: coherent_def requestForCandidate_def split: if_splits)
qed simp

lemma SelectCandidates_cases:
  assumes "registry_inv nodes" "\<forall>r\<in>snd ` set nodes. trim_space (nr_NodeID r) = nr_NodeID r"
    and "SelectCandidates ul e nodes base now = Inr cs"
    and "Plan ul e (registry_Snapshot nodes) (Some base) now = (el, rj)"
  shows "cs \<noteq> []" "\<forall>c\<in>set cs. coherent ul e (registry_Snapshot nodes) base now c"
    and "el \<noteq> [] \<and> map cand_Evaluation cs = el \<or>
      el = [] \<and> (\<forall>c\<in>set cs. retryableRejection (pe_RejectionReasons (cand_Evaluation c)))"
proof -
  let ?records = "registry_Snapshot nodes"
  have ids: "distinct (map nr_NodeID ?records)"
    and trimmed: "\<forall>r\<in>set ?records. trim_space (nr_NodeID r) = nr_NodeID r"
    using registry_Snapshot_sorted [OF assms(1)] assms(2) by auto
  have "mset el + mset rj = mset (planned ul e base now ?records)"
    by (rule Plan_sorted(3) [OF ids assms(4)])
  then have sub: "set el \<subseteq> set (planned ul e base now ?records)"
    "set rj \<subseteq> set (planned ul e base now ?records)"
    by (metis Un_upper1 set_mset_mset set_mset_union, metis Un_upper2 set_mset_mset set_mset_union)
  note eligible = eligibleCandidates_ok [OF ids trimmed sub(1)]
  note retry = retryable_ok [OF ids trimmed sub(2)]
  have "cs \<noteq> [] \<and> (\<forall>c\<in>set cs. coherent ul e ?records base now c) \<and>
    (el \<noteq> [] \<and> map cand_Evaluation cs = el \<or>
      el = [] \<and> (\<forall>c\<in>set cs. retryableRejection (pe_RejectionReasons (cand_Evaluation c))))"
  proof (cases "el = []")
    case True
    with assms(3,4) retry show ?thesis
      by (auto simp: SelectCandidates_def planEligibleCandidates_def Let_def split: if_splits)
  next
    case False
    with assms(3,4) obtain out where "eligibleCandidates ul ?records (Some base) now el = Inr out"
      by (cases "eligibleCandidates ul ?records (Some base) now el")
        (auto simp: SelectCandidates_def planEligibleCandidates_def Let_def)
    with assms(3,4) False eligible [OF this] show ?thesis
      by (auto simp: SelectCandidates_def planEligibleCandidates_def Let_def split: if_splits)
  qed
  then show "cs \<noteq> []" "\<forall>c\<in>set cs. coherent ul e ?records base now c"
    "el \<noteq> [] \<and> map cand_Evaluation cs = el \<or>
      el = [] \<and> (\<forall>c\<in>set cs. retryableRejection (pe_RejectionReasons (cand_Evaluation c)))"
    by blast+
qed

section \<open>The evaluator contract\<close>

text \<open>What durable admission relies on when it evaluates a locked node: an eligible verdict
  belongs to that node, and the node is active, has a valid memory budget and every
  capability of the resolved request.\<close>

locale placement_evaluator =
  fixes ul :: "string \<Rightarrow> string"
    and evaluate :: "node_record option \<Rightarrow> request option \<Rightarrow> gotime \<Rightarrow> evaluation option"
  assumes evaluated_node: "evaluate (Some r) (Some base) now = Some ev \<Longrightarrow> pe_NodeID ev = nr_NodeID r"
    and eligible_sound: "evaluate (Some r) (Some base) now = Some ev \<Longrightarrow>
      pe_State ev = CandidateStateEligible \<Longrightarrow>
      ResolveRequestForNode ul (Some base) (nr_Summary r) now = (Some req, err) \<Longrightarrow>
      record_Active r \<and> ValidateSummary (nr_Summary r) now = None \<and>
      (\<forall>k\<in>set (rq_CapabilityRequirements req).
         AvailableObservation ul (summarySnapshot (nr_Summary r)) (Some k) now \<noteq> None)"

interpretation engine_evaluator: placement_evaluator ul "engine_Evaluate ul e"
proof
  fix r base now ev
  assume ev: "engine_Evaluate ul e (Some r) (Some base) now = Some ev"
  show "pe_NodeID ev = nr_NodeID r"
    by (rule evaluateCandidate_cases [OF ev [unfolded engine_Evaluate_def]]) simp
  fix req err
  assume "pe_State ev = CandidateStateEligible"
    "ResolveRequestForNode ul (Some base) (nr_Summary r) now = (Some req, err)"
  moreover obtain req' err' where
    "ResolveRequestForNode ul (Some base) (nr_Summary r) now = (Some req', err')"
    "pe_State ev = CandidateStateEligible \<longleftrightarrow>
      eligible_on ul e r req' now \<and> (err' = None \<or> \<not> requiresNodeDataplane req')"
    by (rule evaluateCandidate_cases [OF ev [unfolded engine_Evaluate_def]])
  ultimately show "record_Active r \<and> ValidateSummary (nr_Summary r) now = None \<and>
      (\<forall>k\<in>set (rq_CapabilityRequirements req).
         AvailableObservation ul (summarySnapshot (nr_Summary r)) (Some k) now \<noteq> None)"
    by (simp add: eligible_on_def hasCapability_def)
qed

section \<open>Properties\<close>

definition sample_engine :: engine where
  "sample_engine = NewEngine 0 0 \<lparr>CPUOvercommitRatio = F64 0 0\<rparr>"

definition sample_record :: "string \<Rightarrow> node_record" where
  "sample_record n =
     (zero_record n)\<lparr>nr_Summary := Some sample_summary, nr_Lifecycle := LifecycleActive,
        nr_AdmittedAt := 1000 * second, nr_LastHeartbeatAt := 1005 * second\<rparr>"

definition sample_request :: "int64 \<Rightarrow> request" where
  "sample_request cpu =
     \<lparr>rq_RootfsKey = ''env'', rq_RootfsType = RT_IMAGE, rq_MountType = MT_OCI,
      rq_MemoryLimitBytes = 0, rq_RootfsWritable = False, rq_EphemeralStorageLimitBytes = 0,
      rq_RootfsSnapshot = False, rq_RequestedCpuMilli = cpu, rq_RequestedMemoryBytes = 100,
      rq_RequestedEphemeralStorageBytes = 0, rq_Network = ''host'', rq_NetworkBackend = [],
      rq_RequiresDNSPolicyEnforcement = False, rq_RequiresStrictEgressEnforcement = False,
      rq_CapabilityRequirements = [], rq_ExtensionCapabilityRequirements = [],
      rq_NodeSelector = [(''zone'', ''a'')]\<rparr>"

abbreviation sample_time :: gotime where
  "sample_time \<equiv> 1010000000000"

text \<open>C21. A node is eligible exactly when every placement condition holds for the request
  resolved on that node: active, fresh, neither draining nor disabled, matching labels,
  agent and image services ready, a valid memory budget, every required capability
  available, physical capacity sufficient, and a network backend where one is needed.
  A node that is not eligible carries its reasons, sorted and without repetition.\<close>

theorem eligibility_characterised:
  assumes "evaluateCandidate ul e (Some r) (Some base) now = Some ev"
    and "ResolveRequestForNode ul (Some base) (nr_Summary r) now = (Some req, err)"
  shows "(pe_State ev = CandidateStateEligible \<longleftrightarrow>
      eligible_on ul e r req now \<and> (err = None \<or> \<not> requiresNodeDataplane req)) \<and>
    (pe_State ev = CandidateStateRejected \<longleftrightarrow> pe_RejectionReasons ev \<noteq> []) \<and>
    sorted (pe_RejectionReasons ev) \<and> distinct (pe_RejectionReasons ev) \<and>
    pe_NodeID ev = nr_NodeID r"
proof -
  obtain req' err' where
    res: "ResolveRequestForNode ul (Some base) (nr_Summary r) now = (Some req', err')"
    and ev: "pe_NodeID ev = nr_NodeID r"
      "pe_State ev = CandidateStateEligible \<longleftrightarrow>
        eligible_on ul e r req' now \<and> (err' = None \<or> \<not> requiresNodeDataplane req')"
      "pe_State ev \<in> {CandidateStateEligible, CandidateStateRejected}"
      "set (pe_RejectionReasons ev) = set (candidateReasons ul e r req' err'
        (findMatchingLocality (summaryLocality (nr_Summary r)) (rq_RootfsKey req')) now)"
      "sorted (pe_RejectionReasons ev)" "distinct (pe_RejectionReasons ev)"
    by (rule evaluateCandidate_cases [OF assms(1)])
  from res assms(2) have "req' = req" "err' = err" by simp_all
  moreover have "pe_RejectionReasons ev = [] \<longleftrightarrow>
      eligible_on ul e r req' now \<and> (err' = None \<or> \<not> requiresNodeDataplane req')"
    unfolding candidateReasons_Nil_iff [symmetric] using ev(4) by auto
  ultimately show ?thesis using ev by auto
qed

theorem eligibility_characterised_witness:
  "\<exists>ev. evaluateCandidate (\<lambda>s. s) sample_engine (Some (sample_record ''n1''))
      (Some (sample_request 500)) sample_time = Some ev \<and> pe_State ev = CandidateStateEligible \<and>
      eligible_on (\<lambda>s. s) sample_engine (sample_record ''n1'') (sample_request 500) sample_time"
proof -
  obtain ev where ev: "evaluateCandidate (\<lambda>s. s) sample_engine (Some (sample_record ''n1''))
      (Some (sample_request 500)) sample_time = Some ev"
    using evaluateCandidate_Some by blast
  have "ResolveRequestForNode (\<lambda>s. s) (Some (sample_request 500))
      (nr_Summary (sample_record ''n1'')) sample_time = (Some (sample_request 500), None)"
    by code_simp
  note elig = eligibility_characterised [OF ev this]
  have "map_option pe_State (evaluateCandidate (\<lambda>s. s) sample_engine (Some (sample_record ''n1''))
      (Some (sample_request 500)) sample_time) = Some CandidateStateEligible"
    by code_simp
  with ev have "pe_State ev = CandidateStateEligible" by simp
  with ev elig show ?thesis by blast
qed

text \<open>C22. The order in which eligible nodes are tried is the lexicographic order of their
  rank (mounted first, then retained root file systems and environments, warm daemons and
  caches, peers, idle slots, lower occupancy and charges, fresher heartbeat, node
  identifier), and it decides between any two different nodes.\<close>

theorem ranking_is_strict_total_order:
  "(evaluation_less a b \<longleftrightarrow> rank_key a < rank_key b) \<and> \<not> evaluation_less a a \<and>
   (evaluation_less a b \<and> evaluation_less b c \<longrightarrow> evaluation_less a c) \<and>
   (pe_NodeID a \<noteq> pe_NodeID b \<longrightarrow> evaluation_less a b \<or> evaluation_less b a)"
  using evaluation_less_rank_key [of a b] evaluation_order.irrefl [of a]
    evaluation_order.trans [of a b c] evaluation_less_total [of a b] by blast

theorem ranking_is_strict_total_order_witness:
  "evaluation_less (zero_evaluation\<lparr>pe_NodeID := ''a''\<rparr>) (zero_evaluation\<lparr>pe_NodeID := ''b''\<rparr>) \<or>
   evaluation_less (zero_evaluation\<lparr>pe_NodeID := ''b''\<rparr>) (zero_evaluation\<lparr>pe_NodeID := ''a''\<rparr>)"
proof -
  let ?a = "zero_evaluation\<lparr>pe_NodeID := ''a''\<rparr>" and ?b = "zero_evaluation\<lparr>pe_NodeID := ''b''\<rparr>"
  have "pe_NodeID ?a \<noteq> pe_NodeID ?b" by simp
  with ranking_is_strict_total_order [of ?a ?b] show ?thesis by blast
qed

text \<open>C23. A plan over nodes with distinct identifiers loses and invents nothing: eligible and
  rejected evaluations together are one per node, the eligible ones strictly ranked, the
  rejected ones strictly sorted by identifier; and the plan does not depend on the order in
  which the nodes are listed, so map iteration and unstable sorting have no effect.\<close>

theorem plan_partitions_deterministically:
  assumes "distinct (map nr_NodeID records)" "Plan ul e records (Some base) now = (el, rj)"
    and "mset records' = mset records"
  shows "mset (map pe_NodeID (el @ rj)) = mset (map nr_NodeID records) \<and>
    sorted_wrt evaluation_less el \<and> sorted_wrt node_id_less rj \<and>
    (\<forall>ev\<in>set el. pe_State ev = CandidateStateEligible) \<and>
    (\<forall>ev\<in>set rj. pe_State ev \<noteq> CandidateStateEligible) \<and>
    Plan ul e records' (Some base) now = (el, rj)"
proof -
  have "mset (map pe_NodeID (el @ rj)) = image_mset pe_NodeID (mset el + mset rj)" by simp
  also have "\<dots> = mset (map nr_NodeID records)"
    unfolding Plan_sorted(3) [OF assms(1,2)] by (simp only: mset_map [symmetric] planned_ids)
  finally have "mset (map pe_NodeID (el @ rj)) = mset (map nr_NodeID records)" .
  moreover have "\<forall>ev\<in>set el. pe_State ev = CandidateStateEligible"
    "\<forall>ev\<in>set rj. pe_State ev \<noteq> CandidateStateEligible"
    using assms(2) by (auto simp: Plan_eq)
  moreover have "Plan ul e records' (Some base) now = (el, rj)"
    using Plan_mset [OF assms(3) [symmetric] assms(1)] assms(2) by simp
  ultimately show ?thesis using Plan_sorted(1,2) [OF assms(1,2)] by blast
qed

theorem plan_partitions_deterministically_witness:
  "\<exists>el rj. Plan (\<lambda>s. s) sample_engine [sample_record ''b'', sample_record ''a'']
      (Some (sample_request 500)) sample_time = (el, rj) \<and>
    Plan (\<lambda>s. s) sample_engine [sample_record ''a'', sample_record ''b'']
      (Some (sample_request 500)) sample_time = (el, rj)"
proof -
  obtain el rj where plan: "Plan (\<lambda>s. s) sample_engine [sample_record ''b'', sample_record ''a'']
      (Some (sample_request 500)) sample_time = (el, rj)" by fastforce
  have "distinct (map nr_NodeID [sample_record ''b'', sample_record ''a''])" by code_simp
  moreover have "mset [sample_record ''a'', sample_record ''b''] = mset [sample_record ''b'', sample_record ''a'']"
    by simp
  ultimately show ?thesis
    using plan_partitions_deterministically [OF _ plan] plan by blast
qed

text \<open>C24. Selected candidates are coherent: each pairs a registered node with its own
  evaluation and its own resolved request.  Either they are all the eligible nodes in rank
  order, or no node is eligible and every candidate was rejected for reasons a retry may
  clear.\<close>

theorem selection_sound:
  assumes "registry_inv nodes" "\<forall>r\<in>snd ` set nodes. trim_space (nr_NodeID r) = nr_NodeID r"
    and "SelectCandidates ul e nodes base now = Inr cs"
    and "Plan ul e (registry_Snapshot nodes) (Some base) now = (el, rj)"
  shows "cs \<noteq> [] \<and>
    (\<forall>c\<in>set cs. cand_Record c \<in> snd ` set nodes \<and>
       evaluateCandidate ul e (Some (cand_Record c)) (Some base) now = Some (cand_Evaluation c) \<and>
       ResolveRequestForNode ul (Some base) (nr_Summary (cand_Record c)) now = (cand_Request c, None)) \<and>
    (el \<noteq> [] \<and> map cand_Evaluation cs = el \<or>
     el = [] \<and> (\<forall>c\<in>set cs. retryableRejection (pe_RejectionReasons (cand_Evaluation c))))"
  using SelectCandidates_cases [OF assms] registry_Snapshot_sorted(2) [OF assms(1)]
  by (auto simp: coherent_def)

theorem selection_sound_witness:
  "\<exists>cs. SelectCandidates (\<lambda>s. s) sample_engine [(''n1'', sample_record ''n1'')] (sample_request 500)
      sample_time = Inr cs \<and> cs \<noteq> []"
proof -
  let ?nodes = "[(''n1'', sample_record ''n1'')]"
  have "is_ok (SelectCandidates (\<lambda>s. s) sample_engine ?nodes (sample_request 500) sample_time)"
    by code_simp
  then obtain cs where cs:
    "SelectCandidates (\<lambda>s. s) sample_engine ?nodes (sample_request 500) sample_time = Inr cs"
    by (auto simp: is_ok_iff)
  obtain el rj where plan: "Plan (\<lambda>s. s) sample_engine (registry_Snapshot ?nodes)
      (Some (sample_request 500)) sample_time = (el, rj)" by fastforce
  have "registry_inv ?nodes" "\<forall>r\<in>snd ` set ?nodes. trim_space (nr_NodeID r) = nr_NodeID r"
    by (simp add: registry_inv_def sample_record_def zero_record_def, code_simp)
  from selection_sound [OF this cs plan] cs show ?thesis by blast
qed

text \<open>C25. When selection reports that no node is eligible, none is, and the report blames
  capacity exactly when there are nodes and every one of them was rejected for CPU, memory
  or ephemeral storage only.\<close>

theorem no_eligible_node_diagnosis:
  assumes "SelectCandidates ul e nodes base now = Inl (SelectionNoEligible ne)"
    and "Plan ul e (registry_Snapshot nodes) (Some base) now = (el, rj)"
  shows "el = [] \<and>
    (ne_Reason ne = RejectionPlacementCapacity \<longleftrightarrow>
       rj \<noteq> [] \<and> (\<forall>ev\<in>set rj. pe_RejectionReasons ev \<noteq> [] \<and>
         set (pe_RejectionReasons ev) \<inter> {RejectionReasonInsufficientCPU, RejectionReasonInsufficientMemory,
           RejectionReasonInsufficientEphemeralStorage} \<noteq> {} \<and>
         set (pe_RejectionReasons ev) \<subseteq> {RejectionReasonUnspecified, RejectionReasonInsufficientCPU,
           RejectionReasonInsufficientMemory, RejectionReasonInsufficientEphemeralStorage}))"
proof -
  have cap: "capacityReason r \<longleftrightarrow> r \<in> {RejectionReasonInsufficientCPU, RejectionReasonInsufficientMemory,
      RejectionReasonInsufficientEphemeralStorage}" for r
    by (cases r) simp_all
  have el: "el = []"
  proof (rule ccontr)
    assume "el \<noteq> []"
    with assms show False
      by (cases "eligibleCandidates ul (registry_Snapshot nodes) (Some base) now el")
        (auto simp: SelectCandidates_def planEligibleCandidates_def Let_def
          dest!: eligibleCandidates_error split: if_splits)
  qed
  with assms have "ne = NoEligibleNodeError (Some base) rj"
    by (auto simp: SelectCandidates_def planEligibleCandidates_def Let_def split: if_splits)
  with el show ?thesis
    by (auto simp: NoEligibleNodeError_def Let_def admissionReason_def capacityOnlyRejection_def
        list_ex_iff list_all_iff cap)
qed

theorem no_eligible_node_diagnosis_witness:
  "\<exists>ne. SelectCandidates (\<lambda>s. s) sample_engine [(''n1'', sample_record ''n1'')] (sample_request 9000)
      sample_time = Inl (SelectionNoEligible ne) \<and> ne_Reason ne = RejectionPlacementCapacity"
proof -
  let ?nodes = "[(''n1'', sample_record ''n1'')]"
  obtain el rj where plan: "Plan (\<lambda>s. s) sample_engine (registry_Snapshot ?nodes)
      (Some (sample_request 9000)) sample_time = (el, rj)" by fastforce
  have "map pe_RejectionReasons (snd (Plan (\<lambda>s. s) sample_engine (registry_Snapshot ?nodes)
      (Some (sample_request 9000)) sample_time)) = [[RejectionReasonInsufficientCPU]]"
    by code_simp
  with plan have rj: "map pe_RejectionReasons rj = [[RejectionReasonInsufficientCPU]]" by simp
  have "\<not> is_ok (SelectCandidates (\<lambda>s. s) sample_engine ?nodes (sample_request 9000) sample_time)"
    "(case SelectCandidates (\<lambda>s. s) sample_engine ?nodes (sample_request 9000) sample_time of
        Inl (SelectionNoEligible _) \<Rightarrow> True | _ \<Rightarrow> False)"
    by code_simp+
  then obtain ne where ne: "SelectCandidates (\<lambda>s. s) sample_engine ?nodes (sample_request 9000)
      sample_time = Inl (SelectionNoEligible ne)"
    by (auto split: sum.splits selection_error.splits)
  from no_eligible_node_diagnosis [OF ne plan] rj ne show ?thesis by auto
qed

end
