(* ===== verification/Go_Path.thy ===== *)
theory Go_Path
  imports Go_Text
begin

text \<open>
  The parts of Go's packages \<open>path\<close> and \<open>mime\<close> the sources use:
  \<open>path.Clean\<close> on slash-separated paths and the acceptance test of
  \<open>mime.ParseMediaType\<close> (the parameters it returns are not used by the sources, only
  whether it returns an error). The lemmas give the normal form of a cleaned path.
\<close>

section \<open>Cleaning paths\<close>

text \<open>One path element after another; \<open>out\<close> holds the elements kept so far, last
  first. A ".." removes the last element, is dropped at the root, and is kept where a
  relative path has nothing left to remove.\<close>

definition clean_step :: "bool \<Rightarrow> string list \<Rightarrow> string \<Rightarrow> string list" where
  "clean_step rooted out e =
     (if e = [] \<or> e = ''.'' then out
      else if e = ''..'' then
        (case out of
           [] \<Rightarrow> (if rooted then [] else [''..''])
         | o1 # rest \<Rightarrow> (if o1 = ''..'' then ''..'' # out else rest))
      else e # out)"

definition clean_elements :: "bool \<Rightarrow> string list \<Rightarrow> string list" where
  "clean_elements rooted es = rev (foldl (clean_step rooted) [] es)"

definition is_rooted :: "string \<Rightarrow> bool" where
  "is_rooted p = prefix ''/'' p"

definition Clean :: "string \<Rightarrow> string" where
  "Clean p =
     (let out = clean_elements (is_rooted p) (split_on (CHR ''/'') p)
      in if is_rooted p then ''/'' @ join_with ''/'' out
         else if out = [] then ''.''
         else join_with ''/'' out)"

text \<open>A plain element: it survives cleaning and is kept as it is.\<close>

definition plain_element :: "string \<Rightarrow> bool" where
  "plain_element e \<longleftrightarrow> e \<noteq> [] \<and> e \<noteq> ''.'' \<and> e \<noteq> ''..'' \<and> CHR ''/'' \<notin> set e"

lemma split_on_slash_prefix: "split_on c (c # s) = [] # split_on c s"
  by (cases "split_on c s") auto

lemma split_on_join:
  "es \<noteq> [] \<Longrightarrow> \<forall>e\<in>set es. c \<notin> set e \<Longrightarrow> split_on c (join_with [c] es) = es"
proof (induction es)
  case (Cons e es)
  then show ?case
    by (cases es) (simp_all add: split_on_append_sep split_on_no_sep)
qed simp

lemma foldl_plain:
  "\<forall>e\<in>set es. e \<noteq> [] \<and> e \<noteq> ''.'' \<and> e \<noteq> ''..'' \<Longrightarrow> foldl (clean_step rooted) out es = rev es @ out"
  by (induction es arbitrary: out) (simp_all add: clean_step_def)

lemma clean_step_plain:
  "\<forall>e\<in>set out. plain_element e \<Longrightarrow> CHR ''/'' \<notin> set e \<Longrightarrow>
   \<forall>x\<in>set (clean_step True out e). plain_element x"
  by (cases out) (simp_all add: clean_step_def plain_element_def)

lemma foldl_clean_plain:
  "\<forall>e\<in>set out. plain_element e \<Longrightarrow> \<forall>e\<in>set es. CHR ''/'' \<notin> set e \<Longrightarrow>
   \<forall>x\<in>set (foldl (clean_step True) out es). plain_element x"
proof (induction es arbitrary: out)
  case (Cons e es)
  have "\<forall>x\<in>set (clean_step True out e). plain_element x"
    by (rule clean_step_plain) (use Cons.prems in auto)
  then show ?case using Cons by simp
qed simp

lemma Clean_rooted:
  assumes "is_rooted p"
  obtains es where "Clean p = ''/'' @ join_with ''/'' es" "\<forall>e\<in>set es. plain_element e"
proof
  let ?es = "clean_elements True (split_on (CHR ''/'') p)"
  show "Clean p = ''/'' @ join_with ''/'' ?es"
    using assms by (simp add: Clean_def)
  have "\<forall>x\<in>set (foldl (clean_step True) [] (split_on (CHR ''/'') p)). plain_element x"
    by (rule foldl_clean_plain) (use split_on_pieces in auto)
  then show "\<forall>e\<in>set ?es. plain_element e"
    by (simp add: clean_elements_def)
qed

lemma Clean_join_plain:
  assumes "\<forall>e\<in>set es. plain_element e"
  shows "Clean (''/'' @ join_with ''/'' es) = ''/'' @ join_with ''/'' es"
proof (cases "es = []")
  case True
  then show ?thesis by (simp add: Clean_def is_rooted_def clean_elements_def clean_step_def)
next
  case False
  then have "split_on (CHR ''/'') (join_with ''/'' es) = es"
    using assms by (intro split_on_join) (auto simp: plain_element_def)
  then have "split_on (CHR ''/'') (''/'' @ join_with ''/'' es) = [] # es"
    using split_on_slash_prefix [of "CHR ''/''" "join_with ''/'' es"] by simp
  moreover have "foldl (clean_step True) [] es = rev es"
    using foldl_plain [of es True "[]"] assms by (auto simp: plain_element_def)
  ultimately show ?thesis
    by (simp add: Clean_def is_rooted_def clean_elements_def clean_step_def del: split_on.simps)
qed

lemma Clean_rooted_idem: "is_rooted p \<Longrightarrow> Clean (Clean p) = Clean p"
  by (metis Clean_rooted Clean_join_plain)

lemma Clean_rooted_is_rooted: "is_rooted p \<Longrightarrow> is_rooted (Clean p)"
  by (simp add: Clean_def is_rooted_def Let_def)

text \<open>A relative path stays relative, so a cleaned path is rooted exactly when the
  path was.\<close>

lemma clean_step_no_slash:
  "\<forall>e\<in>set out. e \<noteq> [] \<and> CHR ''/'' \<notin> set e \<Longrightarrow> CHR ''/'' \<notin> set e \<Longrightarrow>
   \<forall>x\<in>set (clean_step rooted out e). x \<noteq> [] \<and> CHR ''/'' \<notin> set x"
  by (cases out) (simp_all add: clean_step_def)

lemma foldl_clean_no_slash:
  "\<forall>e\<in>set out. e \<noteq> [] \<and> CHR ''/'' \<notin> set e \<Longrightarrow> \<forall>e\<in>set es. CHR ''/'' \<notin> set e \<Longrightarrow>
   \<forall>x\<in>set (foldl (clean_step rooted) out es). x \<noteq> [] \<and> CHR ''/'' \<notin> set x"
proof (induction es arbitrary: out)
  case (Cons e es)
  have "\<forall>x\<in>set (clean_step rooted out e). x \<noteq> [] \<and> CHR ''/'' \<notin> set x"
    by (rule clean_step_no_slash) (use Cons.prems in simp_all)
  from Cons.IH [OF this] Cons.prems(2) show ?case by simp
qed simp

lemma join_with_not_rooted:
  assumes "es \<noteq> []" "\<forall>x\<in>set es. x \<noteq> [] \<and> CHR ''/'' \<notin> set x"
  shows "\<not> is_rooted (join_with ''/'' es)"
proof -
  obtain e rest where es: "es = e # rest" using assms(1) by (cases es) auto
  obtain c cs where e: "e = c # cs" "c \<noteq> CHR ''/''" using assms(2) es by (cases e) auto
  show ?thesis by (cases rest) (use es e in \<open>simp_all add: is_rooted_def\<close>)
qed

lemma Clean_is_rooted_iff: "is_rooted (Clean p) \<longleftrightarrow> is_rooted p"
proof (cases "is_rooted p")
  case False
  let ?es = "clean_elements False (split_on (CHR ''/'') p)"
  have "\<forall>x\<in>set ?es. x \<noteq> [] \<and> CHR ''/'' \<notin> set x"
    unfolding clean_elements_def set_rev
    by (rule foldl_clean_no_slash) (use split_on_pieces in auto)
  then show ?thesis
    using False join_with_not_rooted [of ?es]
    by (cases "?es = []") (simp_all add: Clean_def Let_def, simp add: is_rooted_def)
qed (simp add: Clean_rooted_is_rooted)

section \<open>Media types\<close>

definition is_tspecial :: "char \<Rightarrow> bool" where
  "is_tspecial c \<longleftrightarrow> c \<in> set (''()<>@,;:/[]?='' @ [CHR 0x22, CHR 0x5C])"

definition is_token_char :: "char \<Rightarrow> bool" where
  "is_token_char c \<longleftrightarrow> 0x20 < byte c \<and> byte c < 0x7F \<and> \<not> is_tspecial c"

definition consumeToken :: "string \<Rightarrow> string \<times> string" where
  "consumeToken v = (takeWhile is_token_char v, dropWhile is_token_char v)"

definition checkMediaTypeDisposition :: "string \<Rightarrow> bool" where
  "checkMediaTypeDisposition s =
     (let (typ, rest) = consumeToken s
      in typ \<noteq> [] \<and>
         (case rest of
            [] \<Rightarrow> True
          | c # tail \<Rightarrow>
              c = CHR ''/'' \<and>
              (let (sub, rest2) = consumeToken tail in sub \<noteq> [] \<and> rest2 = [])))"

text \<open>The body of a quoted string after the opening quote: its value and what follows
  the closing quote, or \<open>None\<close> for an unterminated string or a line break.\<close>

fun quoted :: "string \<Rightarrow> string \<Rightarrow> (string \<times> string) option" where
  "quoted acc [] = None"
| "quoted acc (c # cs) =
     (if c = CHR 0x22 then Some (rev acc, cs)
      else if c = CHR 0x5C then
        (case cs of
           d # ds \<Rightarrow> if is_tspecial d then quoted (d # acc) ds else quoted (c # acc) cs
         | [] \<Rightarrow> None)
      else if c = CHR 0x0D \<or> c = CHR 0x0A then None
      else quoted (c # acc) cs)"

definition consumeValue :: "string \<Rightarrow> string \<times> string" where
  "consumeValue v =
     (case v of
        [] \<Rightarrow> ([], [])
      | c # cs \<Rightarrow>
          if c \<noteq> CHR 0x22 then consumeToken v
          else (case quoted [] cs of Some r \<Rightarrow> r | None \<Rightarrow> ([], v)))"

text \<open>A parameter, its value and the rest, \<open>None\<close> where the library returns an empty
  parameter name.\<close>

definition consumeMediaParam ::
  "(string \<Rightarrow> string) \<Rightarrow> string \<Rightarrow> (string \<times> string \<times> string) option" where
  "consumeMediaParam ul v =
     (case trim_left v of
        [] \<Rightarrow> None
      | c # cs \<Rightarrow>
          if c \<noteq> CHR '';'' then None
          else
            let (token, rest) = consumeToken (trim_left cs);
                param = to_lower ul token
            in if param = [] then None
               else
                 (case trim_left rest of
                    [] \<Rightarrow> None
                  | d # ds \<Rightarrow>
                      if d \<noteq> CHR ''='' then None
                      else
                        let r = trim_left ds;
                            (value, rest2) = consumeValue r
                        in if value = [] \<and> rest2 = r then None
                           else Some (param, value, rest2)))"

lemma length_trim_left: "length (trim_left s) \<le> length s"
  unfolding trim_left_def by (simp add: strip_suffix suffix_length_le)

lemma length_quoted: "quoted acc v = Some (value, rest) \<Longrightarrow> length rest \<le> length v"
  by (induction acc v rule: quoted.induct) (auto split: if_splits list.splits)

lemma length_consumeToken: "consumeToken v = (t, rest) \<Longrightarrow> length rest \<le> length v"
  by (auto simp: consumeToken_def length_dropWhile_le)

lemma length_consumeValue: "consumeValue v = (value, rest) \<Longrightarrow> length rest \<le> length v"
  by (auto simp: consumeValue_def le_SucI dest: length_quoted length_consumeToken
      split: list.splits if_splits option.splits)

lemma length_consumeMediaParam:
  assumes "consumeMediaParam ul v = Some (param, value, rest)"
  shows "length rest < length v"
proof -
  obtain c cs where v: "trim_left v = c # cs"
    using assms by (cases "trim_left v") (simp_all add: consumeMediaParam_def)
  obtain token r1 where t: "consumeToken (trim_left cs) = (token, r1)" by fastforce
  obtain d ds where r: "trim_left r1 = d # ds"
    using assms v t by (cases "trim_left r1")
      (simp_all add: consumeMediaParam_def Let_def split: if_splits)
  obtain val r2 where w: "consumeValue (trim_left ds) = (val, r2)" by fastforce
  have "rest = r2"
    using assms v t r w by (simp add: consumeMediaParam_def Let_def split: if_splits)
  moreover have "length r2 \<le> length ds"
    using length_consumeValue [OF w] length_trim_left [of ds] by simp
  moreover have "length ds < length r1" using length_trim_left [of r1] r by simp
  moreover have "length r1 \<le> length cs"
    using length_consumeToken [OF t] length_trim_left [of cs] by simp
  moreover have "length cs < length v" using length_trim_left [of v] v by simp
  ultimately show ?thesis by simp
qed

text \<open>The parameter loop. The library keeps the parameters with a continuation mark in
  maps of their own, one per base name; a full name determines its base name, so one list
  of names and values decides the same duplicates.\<close>

function media_params :: "(string \<Rightarrow> string) \<Rightarrow> (string \<times> string) list \<Rightarrow> string \<Rightarrow> bool" where
  "media_params ul seen v =
     (let w = trim_left v
      in if w = [] then True
         else
           (case consumeMediaParam ul w of
              None \<Rightarrow> trim_space w = '';''
            | Some (key, value, rest) \<Rightarrow>
                (case map_of seen key of
                   Some old \<Rightarrow> old = value \<and> media_params ul seen rest
                 | None \<Rightarrow> media_params ul ((key, value) # seen) rest)))"
  by pat_completeness auto

termination
proof (relation "measure (\<lambda>(ul, seen, v). length v)")
  fix ul :: "string \<Rightarrow> string" and seen :: "(string \<times> string) list"
    and v w key val rest :: string and r q
  assume w: "w = trim_left v" and "w \<noteq> []" "consumeMediaParam ul w = Some r"
    "(key, q) = r" "(val, rest) = q"
  then have "length rest < length w" using length_consumeMediaParam by blast
  then show "((ul, seen, rest), ul, seen, v) \<in> measure (\<lambda>(ul, seen, v). length v)"
    using w length_trim_left [of v] by simp
  from \<open>length rest < length w\<close>
  show "((ul, (key, val) # seen, rest), ul, seen, v) \<in> measure (\<lambda>(ul, seen, v). length v)"
    using w length_trim_left [of v] by simp
qed simp

declare media_params.simps [simp del]

definition media_base :: "string \<Rightarrow> string" where
  "media_base v = takeWhile (\<lambda>c. c \<noteq> CHR '';'') v"

text \<open>Whether \<open>mime.ParseMediaType\<close> returns without an error.\<close>

definition ParseMediaType :: "(string \<Rightarrow> string) \<Rightarrow> string \<Rightarrow> bool" where
  "ParseMediaType ul v =
     (checkMediaTypeDisposition (trim_space (to_lower ul (media_base v))) \<and>
      media_params ul [] (drop (length (media_base v)) v))"

end
