(* ===== verification/Go_Net.thy ===== *)
theory Go_Net
  imports Go_Text
begin

text \<open>
  The part of package \<open>net/netip\<close> the network policy uses: addresses, CIDR prefixes,
  their parsers and their canonical text. An IPv4 address is a number below \<open>2^32\<close>, an
  IPv6 address eight 16-bit groups and a zone. The lemmas show that printing and parsing an
  IPv4 prefix are inverse and that masking is idempotent.
\<close>

section \<open>Addresses\<close>

datatype addr = V4 int | V6 "int list" string

fun Is4 :: "addr \<Rightarrow> bool" where
  "Is4 (V4 n) = True"
| "Is4 (V6 gs z) = False"

definition Is4In6 :: "addr \<Rightarrow> bool" where
  "Is4In6 a =
     (case a of
        V4 n \<Rightarrow> False
      | V6 gs z \<Rightarrow> take 6 gs = [0, 0, 0, 0, 0, 65535])"

fun BitLen :: "addr \<Rightarrow> nat" where
  "BitLen (V4 n) = 32"
| "BitLen (V6 gs z) = 128"

definition is_hex_char :: "char \<Rightarrow> bool" where
  "is_hex_char c \<longleftrightarrow> is_digit_char c \<or> (97 \<le> byte c \<and> byte c \<le> 102) \<or> (65 \<le> byte c \<and> byte c \<le> 70)"

definition hex_value :: "char \<Rightarrow> int" where
  "hex_value c =
     (if is_digit_char c then int (byte c) - 48
      else if 97 \<le> byte c then int (byte c) - 87 else int (byte c) - 55)"

definition digits_value :: "int \<Rightarrow> string \<Rightarrow> int" where
  "digits_value b s = foldl (\<lambda>v c. v * b + hex_value c) 0 s"

text \<open>An octet: one to three decimal digits without a leading zero, at most 255.\<close>

definition parse_octet :: "string \<Rightarrow> int option" where
  "parse_octet s =
     (if s = [] \<or> \<not> list_all is_digit_char s \<or> (1 < length s \<and> hd s = CHR ''0'')
      then None
      else let v = digits_value 10 s in if v \<le> 255 then Some v else None)"

fun four_fields :: "int option list \<Rightarrow> (int \<times> int \<times> int \<times> int) option" where
  "four_fields [Some a, Some b, Some c, Some d] = Some (a, b, c, d)"
| "four_fields _ = None"

definition parseIPv4Fields :: "string \<Rightarrow> (int \<times> int \<times> int \<times> int) option" where
  "parseIPv4Fields s = four_fields (map parse_octet (split_on (CHR ''.'') s))"

definition v4_value :: "int \<Rightarrow> int \<Rightarrow> int \<Rightarrow> int \<Rightarrow> int" where
  "v4_value a b c d = ((a * 256 + b) * 256 + c) * 256 + d"

definition parseIPv4 :: "string \<Rightarrow> addr option" where
  "parseIPv4 s = map_option (\<lambda>(a, b, c, d). V4 (v4_value a b c d)) (parseIPv4Fields s)"

text \<open>The group loop of \<open>parseIPv6\<close>: the groups read so far, the position of the
  ellipsis, the text left. The result carries the groups and the ellipsis. The loop ends after
  eight groups; text left over is an error.\<close>

function parse_groups :: "int list \<Rightarrow> nat option \<Rightarrow> string \<Rightarrow> (int list \<times> nat option) option" where
  "parse_groups gs el s =
     (if 8 \<le> length gs then (if s = [] then Some (gs, el) else None)
      else
        let ds = takeWhile is_hex_char s; rest = dropWhile is_hex_char s
        in if ds = [] \<or> 4 < length ds then None
           else if rest \<noteq> [] \<and> hd rest = CHR ''.'' then
             (if (el = None \<and> length gs \<noteq> 6) \<or> 6 < length gs then None
              else map_option (\<lambda>(a, b, c, d). (gs @ [a * 256 + b, c * 256 + d], el)) (parseIPv4Fields s))
           else
             let gs' = gs @ [digits_value 16 ds]
             in if rest = [] then Some (gs', el)
                else if hd rest \<noteq> CHR '':'' \<or> tl rest = [] then None
                else if hd (tl rest) = CHR '':'' then
                  (if el \<noteq> None then None
                   else if tl (tl rest) = [] then Some (gs', Some (length gs'))
                   else parse_groups gs' (Some (length gs')) (tl (tl rest)))
                else parse_groups gs' el (tl rest))"
  by pat_completeness auto
termination by (relation "measure (\<lambda>(gs, el, s). 8 - length gs)") (auto simp: Let_def)

declare parse_groups.simps [simp del]

definition expand_groups :: "int list \<times> nat option \<Rightarrow> int list option" where
  "expand_groups r =
     (case r of
        (gs, el) \<Rightarrow>
          (case el of
             None \<Rightarrow> if length gs < 8 then None else Some gs
           | Some k \<Rightarrow>
               if length gs < 8
               then Some (take k gs @ replicate (8 - length gs) 0 @ drop k gs) else None))"

definition parseIPv6 :: "string \<Rightarrow> addr option" where
  "parseIPv6 full =
     (let (s, zone, zone_ok) =
        (case cut_on (CHR ''%'') full of
           None \<Rightarrow> (full, [], True)
         | Some (a, z) \<Rightarrow> (a, z, z \<noteq> []))
      in if \<not> zone_ok then None
         else if take 2 s = ''::'' then
           (if drop 2 s = [] then Some (V6 (replicate 8 0) zone)
            else map_option (\<lambda>gs. V6 gs zone)
                   (Option.bind (parse_groups [] (Some 0) (drop 2 s)) expand_groups))
         else map_option (\<lambda>gs. V6 gs zone)
                (Option.bind (parse_groups [] None s) expand_groups))"

definition ParseAddr :: "string \<Rightarrow> addr option" where
  "ParseAddr s =
     (case find (\<lambda>c. c \<in> {CHR ''.'', CHR '':'', CHR ''%''}) s of
        None \<Rightarrow> None
      | Some c \<Rightarrow>
          if c = CHR ''.'' then parseIPv4 s
          else if c = CHR '':'' then parseIPv6 s else None)"

section \<open>Prefixes\<close>

type_synonym cidr_prefix = "addr \<times> nat"

definition parse_bits :: "string \<Rightarrow> nat option" where
  "parse_bits s =
     (if s = [] \<or> \<not> list_all is_digit_char s \<or> (1 < length s \<and> hd s = CHR ''0'')
      then None else Some (nat (digits_value 10 s)))"

definition no_zone :: "addr \<Rightarrow> bool" where
  "no_zone a = (case a of V4 n \<Rightarrow> True | V6 gs z \<Rightarrow> z = [])"

definition cut_last_slash :: "string \<Rightarrow> (string \<times> string) option" where
  "cut_last_slash s = map_option (\<lambda>(b, a). (rev a, rev b)) (cut_on (CHR ''/'') (rev s))"

definition ParsePrefix :: "string \<Rightarrow> cidr_prefix option" where
  "ParsePrefix s =
     (case cut_last_slash s of
        None \<Rightarrow> None
      | Some (ip, bits) \<Rightarrow>
          (case ParseAddr ip of
             None \<Rightarrow> None
           | Some a \<Rightarrow>
               if \<not> no_zone a then None
               else case parse_bits bits of
                      None \<Rightarrow> None
                    | Some n \<Rightarrow> if n \<le> BitLen a then Some (a, n) else None))"

text \<open>\<open>Prefix.Masked\<close> clears the bits after the prefix length; \<open>Prefix.Contains\<close>
  compares the bits before it.\<close>

definition keep_bits :: "nat \<Rightarrow> nat \<Rightarrow> int \<Rightarrow> int" where
  "keep_bits w n v = v div 2 ^ (w - n) * 2 ^ (w - n)"

fun mask_groups :: "nat \<Rightarrow> int list \<Rightarrow> int list" where
  "mask_groups n [] = []"
| "mask_groups n (g # gs) = keep_bits 16 (min 16 n) g # mask_groups (n - 16) gs"

definition mask_addr :: "nat \<Rightarrow> addr \<Rightarrow> addr" where
  "mask_addr n a = (case a of V4 v \<Rightarrow> V4 (keep_bits 32 n v) | V6 gs z \<Rightarrow> V6 (mask_groups n gs) [])"

definition Masked :: "cidr_prefix \<Rightarrow> cidr_prefix" where
  "Masked p = (mask_addr (snd p) (fst p), snd p)"

definition prefix_Contains :: "cidr_prefix \<Rightarrow> addr \<Rightarrow> bool" where
  "prefix_Contains p a \<longleftrightarrow>
     no_zone a \<and> BitLen a = BitLen (fst p) \<and> mask_addr (snd p) a = mask_addr (snd p) (fst p)"

section \<open>Text\<close>

definition v4_text :: "int \<Rightarrow> string" where
  "v4_text v =
     fmt_int (v div 16777216) @ ''.'' @ fmt_int (v div 65536 mod 256) @ ''.'' @
     fmt_int (v div 256 mod 256) @ ''.'' @ fmt_int (v mod 256)"

definition hex_digit :: "int \<Rightarrow> char" where
  "hex_digit n = ''0123456789abcdef'' ! nat n"

function fmt_hex :: "int \<Rightarrow> string" where
  "fmt_hex n = (if n < 16 then [hex_digit n] else fmt_hex (n div 16) @ [hex_digit (n mod 16)])"
  by pat_completeness auto
termination by (relation "measure nat") auto

declare fmt_hex.simps [simp del]

definition zero_run :: "int list \<Rightarrow> nat" where
  "zero_run gs = length (takeWhile (\<lambda>g. g = 0) gs)"

text \<open>The first longest run of at least two zero groups, as start and end.\<close>

fun best_run :: "nat \<Rightarrow> int list \<Rightarrow> (nat \<times> nat) option \<Rightarrow> (nat \<times> nat) option" where
  "best_run i [] best = best"
| "best_run i (g # gs) best =
     (let l = zero_run (g # gs)
      in best_run (Suc i) gs
           (if 2 \<le> l \<and> (case best of None \<Rightarrow> True | Some (a, b) \<Rightarrow> b - a < l)
            then Some (i, i + l) else best))"

definition v6_text :: "int list \<Rightarrow> string" where
  "v6_text gs =
     (case best_run 0 gs None of
        None \<Rightarrow> join_with '':'' (map fmt_hex gs)
      | Some (a, b) \<Rightarrow>
          join_with '':'' (map fmt_hex (take a gs)) @ ''::'' @
          join_with '':'' (map fmt_hex (drop b gs)))"

definition addr_String :: "addr \<Rightarrow> string" where
  "addr_String a =
     (case a of
        V4 v \<Rightarrow> v4_text v
      | V6 gs z \<Rightarrow>
          (if Is4In6 a then ''::ffff:'' @ v4_text (gs ! 6 * 65536 + gs ! 7) else v6_text gs) @
          (if z = [] then [] else ''%'' @ z))"

definition prefix_String :: "cidr_prefix \<Rightarrow> string" where
  "prefix_String p = addr_String (fst p) @ ''/'' @ fmt_nat (snd p)"

section \<open>Printing and parsing are inverse\<close>

definition wf_addr :: "addr \<Rightarrow> bool" where
  "wf_addr a =
     (case a of
        V4 v \<Rightarrow> 0 \<le> v \<and> v < 2 ^ 32
      | V6 gs z \<Rightarrow> length gs = 8 \<and> (\<forall>g\<in>set gs. 0 \<le> g \<and> g < 65536) \<and> z = [])"

lemma digits_value_snoc: "digits_value b (s @ [c]) = digits_value b s * b + hex_value c"
  by (simp add: digits_value_def)

lemma decimal_digit:
  assumes "n < 10"
  shows "is_digit_char (char_of (48 + n))" "hex_value (char_of (48 + n)) = int n"
    and "n \<noteq> 0 \<Longrightarrow> char_of (48 + n) \<noteq> CHR ''0''"
proof -
  have b: "byte (char_of (48 + n)) = 48 + n"
    using assms by (simp add: byte_def take_bit_nat_eq_self)
  then show d: "is_digit_char (char_of (48 + n))"
    using assms by (simp add: is_digit_char_def)
  then show "hex_value (char_of (48 + n)) = int n"
    using b by (simp add: hex_value_def)
  have "byte (CHR ''0'') = 48" by (simp add: byte_def)
  then show "char_of (48 + n) \<noteq> CHR ''0''" if "n \<noteq> 0"
    using b that by (metis add_cancel_left_right)
qed

lemma fmt_nat_digits:
  "list_all is_digit_char (fmt_nat n) \<and> digits_value 10 (fmt_nat n) = int n \<and> fmt_nat n \<noteq> [] \<and>
   (n \<noteq> 0 \<longrightarrow> hd (fmt_nat n) \<noteq> CHR ''0'') \<and> (n = 0 \<longrightarrow> length (fmt_nat n) = 1)"
proof (induction n rule: fmt_nat.induct)
  case (1 n)
  show ?case
  proof (cases "n < 10")
    case True
    then show ?thesis
      using decimal_digit [of n]
      by (simp add: fmt_nat.simps [of n] fmt_nat.simps [of 0] digits_value_def)
  next
    case False
    then have "n div 10 \<noteq> 0" "n mod 10 < 10" by auto
    moreover have "int (n div 10) * 10 + int (n mod 10) = int n" by presburger
    ultimately show ?thesis
      using False 1 [OF False] decimal_digit [of "n mod 10"]
      by (simp del: of_nat_mod of_nat_div
            add: fmt_nat.simps [of n] digits_value_snoc)
  qed
qed

lemma decimal_text_ok: "\<not> (1 < length (fmt_nat n) \<and> hd (fmt_nat n) = CHR ''0'')"
  using fmt_nat_digits [of n] by (cases "n = 0") auto

lemma octet_round_trip:
  assumes "0 \<le> n" "n < 256"
  shows "parse_octet (fmt_int n) = Some n" "list_all is_digit_char (fmt_int n)"
  using fmt_nat_digits [of "nat n"] decimal_text_ok [of "nat n"] assms
  by (auto simp: parse_octet_def fmt_int_def Let_def)

lemma bits_round_trip:
  "parse_bits (fmt_nat n) = Some n" "list_all is_digit_char (fmt_nat n)"
  using fmt_nat_digits [of n] decimal_text_ok [of n] by (auto simp: parse_bits_def)

lemma digit_not_special:
  "is_digit_char c \<Longrightarrow> c \<noteq> CHR ''.'' \<and> c \<noteq> CHR '':'' \<and> c \<noteq> CHR ''%'' \<and> c \<noteq> CHR ''/''"
  by (auto simp: is_digit_char_def byte_def)

lemma hex_not_special:
  "is_hex_char c \<Longrightarrow> c \<noteq> CHR ''.'' \<and> c \<noteq> CHR '':'' \<and> c \<noteq> CHR ''%'' \<and> c \<noteq> CHR ''/''"
  by (auto simp: is_hex_char_def is_digit_char_def byte_def)

lemma v4_octets:
  fixes v :: int
  assumes "0 \<le> v" "v < 2 ^ 32"
  shows "v4_value (v div 16777216) (v div 65536 mod 256) (v div 256 mod 256) (v mod 256) = v"
    and "0 \<le> v div 16777216 \<and> v div 16777216 < 256"
proof -
  define a where "a = v div 256"
  define b where "b = a div 256"
  define c where "c = b div 256"
  have d: "v div 65536 = b" "v div 16777216 = c"
    by (simp_all add: a_def b_def c_def zdiv_zmult2_eq [symmetric])
  have "v = a * 256 + v mod 256" "a = b * 256 + a mod 256" "b = c * 256 + b mod 256"
    by (simp_all add: a_def b_def c_def)
  then show "v4_value (v div 16777216) (v div 65536 mod 256) (v div 256 mod 256) (v mod 256) = v"
    unfolding d v4_value_def by (simp add: a_def)
  show "0 \<le> v div 16777216 \<and> v div 16777216 < 256"
    using assms by (auto simp: pos_imp_zdiv_nonneg_iff intro!: div_less_iff_less_mult [THEN iffD2])
qed

lemma digits_no_sep:
  "list_all is_digit_char s \<Longrightarrow> c \<in> {CHR ''.'', CHR '':'', CHR ''%'', CHR ''/''} \<Longrightarrow> c \<notin> set s"
  using digit_not_special by (auto simp: list_all_iff)

definition dotted :: "int \<Rightarrow> int \<Rightarrow> int \<Rightarrow> int \<Rightarrow> string" where
  "dotted a b c d =
     fmt_int a @ CHR ''.'' # (fmt_int b @ CHR ''.'' # (fmt_int c @ CHR ''.'' # fmt_int d))"

definition is_octet :: "int \<Rightarrow> bool" where
  "is_octet n \<longleftrightarrow> 0 \<le> n \<and> n < 256"

lemma octet_text:
  assumes "is_octet n"
  shows "parse_octet (fmt_int n) = Some n"
    and "c \<in> {CHR ''.'', CHR '':'', CHR ''%'', CHR ''/''} \<Longrightarrow> c \<notin> set (fmt_int n)"
  using octet_round_trip [of n] digits_no_sep [of "fmt_int n" c] assms by (simp_all add: is_octet_def)

lemma parseIPv4Fields_dotted:
  assumes "is_octet a" "is_octet b" "is_octet c" "is_octet d"
  shows "parseIPv4Fields (dotted a b c d) = Some (a, b, c, d)"
proof -
  have no_dot: "CHR ''.'' \<notin> set (fmt_int n)" if "is_octet n" for n
    using octet_text(2) [OF that, of "CHR ''.''"] by simp
  have "split_on (CHR ''.'') (dotted a b c d) = [fmt_int a, fmt_int b, fmt_int c, fmt_int d]"
    by (simp only: dotted_def split_on_append_sep split_on_no_sep no_dot assms not_False_eq_True)
  then show ?thesis
    by (simp add: parseIPv4Fields_def octet_text(1) assms)
qed

lemma v4_dotted:
  assumes "0 \<le> v" "v < 2 ^ 32"
  obtains a b c d where "is_octet a" "is_octet b" "is_octet c" "is_octet d"
    "v4_text v = dotted a b c d" "v4_value a b c d = v"
proof (rule that)
  show "v4_text v = dotted (v div 16777216) (v div 65536 mod 256) (v div 256 mod 256) (v mod 256)"
    by (simp add: v4_text_def dotted_def)
qed (use v4_octets [OF assms] in \<open>simp_all add: is_octet_def\<close>)

lemma parseIPv4_text:
  assumes "0 \<le> v" "v < 2 ^ 32"
  shows "parseIPv4 (v4_text v) = Some (V4 v)"
proof -
  obtain a b c d where o: "is_octet a" "is_octet b" "is_octet c" "is_octet d"
    and t: "v4_text v = dotted a b c d" "v4_value a b c d = v"
    using assms by (rule v4_dotted)
  show ?thesis
    unfolding parseIPv4_def t(1) parseIPv4Fields_dotted [OF o] by (simp add: t(2))
qed

lemma find_append_first:
  "(\<forall>x\<in>set xs. \<not> P x) \<Longrightarrow> P y \<Longrightarrow> find P (xs @ y # ys) = Some y"
  by (induction xs) auto

lemma ParseAddr_v4_text:
  assumes "0 \<le> v" "v < 2 ^ 32"
  shows "ParseAddr (v4_text v) = Some (V4 v)"
proof -
  obtain a b c d where o: "is_octet a" "is_octet b" "is_octet c" "is_octet d"
    and t: "v4_text v = dotted a b c d" "v4_value a b c d = v"
    using assms by (rule v4_dotted)
  have "find (\<lambda>c. c \<in> {CHR ''.'', CHR '':'', CHR ''%''}) (v4_text v) = Some (CHR ''.'')"
    unfolding t(1) dotted_def by (rule find_append_first) (use octet_text(2) [OF o(1)] in auto)
  then show ?thesis
    by (simp add: ParseAddr_def parseIPv4_text [OF assms])
qed

lemma hex_digit_facts_table:
  "list_all (\<lambda>n. is_hex_char (hex_digit n) \<and> hex_value (hex_digit n) = n) [0..15]"
  by code_simp

lemma hex_digit_facts:
  "0 \<le> n \<Longrightarrow> n < 16 \<Longrightarrow> is_hex_char (hex_digit n) \<and> hex_value (hex_digit n) = n"
  using hex_digit_facts_table by (auto simp: list_all_iff)

lemma fmt_hex_digits:
  "0 \<le> n \<Longrightarrow> list_all is_hex_char (fmt_hex n) \<and> digits_value 16 (fmt_hex n) = n \<and> fmt_hex n \<noteq> []"
proof (induction n rule: fmt_hex.induct)
  case (1 n)
  show ?case
  proof (cases "n < 16")
    case True
    then show ?thesis
      using 1 hex_digit_facts [of n] by (simp add: fmt_hex.simps [of n] digits_value_def)
  next
    case False
    then show ?thesis
      using 1 hex_digit_facts [of "n mod 16"]
      by (simp add: fmt_hex.simps [of n] digits_value_snoc pos_imp_zdiv_nonneg_iff)
  qed
qed

lemma length_fmt_hex: "n < 16 ^ Suc k \<Longrightarrow> length (fmt_hex n) \<le> Suc k"
proof (induction k arbitrary: n)
  case 0
  then show ?case by (simp add: fmt_hex.simps [of n])
next
  case (Suc k)
  then have "n div 16 < 16 ^ Suc k" by (simp add: div_less_iff_less_mult)
  then have "length (fmt_hex (n div 16)) \<le> Suc k" by (rule Suc.IH)
  then show ?case by (simp add: fmt_hex.simps [of n])
qed

lemma group_text:
  assumes "0 \<le> g" "g < 65536" "rest = [] \<or> hd rest = CHR '':''"
  shows "takeWhile is_hex_char (fmt_hex g @ rest) = fmt_hex g"
    and "dropWhile is_hex_char (fmt_hex g @ rest) = rest"
    and "digits_value 16 (fmt_hex g) = g" "fmt_hex g \<noteq> []" "length (fmt_hex g) \<le> 4"
proof -
  have h: "list_all is_hex_char (fmt_hex g)" "digits_value 16 (fmt_hex g) = g" "fmt_hex g \<noteq> []"
    using fmt_hex_digits [OF assms(1)] by auto
  have "\<not> is_hex_char (CHR '':'')" using hex_not_special by blast
  then have r: "takeWhile is_hex_char rest = []" "dropWhile is_hex_char rest = rest"
    using assms(3) by (cases rest; simp)+
  show "takeWhile is_hex_char (fmt_hex g @ rest) = fmt_hex g"
    "dropWhile is_hex_char (fmt_hex g @ rest) = rest"
    using h(1) r by (simp_all add: list_all_iff takeWhile_append dropWhile_append)
  show "digits_value 16 (fmt_hex g) = g" "fmt_hex g \<noteq> []"
    using h by auto
  show "length (fmt_hex g) \<le> 4"
    using length_fmt_hex [of g 3] assms(2) by simp
qed

definition is_group :: "int \<Rightarrow> bool" where
  "is_group g \<longleftrightarrow> 0 \<le> g \<and> g < 65536"

definition groups_text :: "int list \<Rightarrow> string" where
  "groups_text hs = join_with '':'' (map fmt_hex hs)"

lemma groups_text_Cons:
  "groups_text [h] = fmt_hex h"
  "groups_text (h # h' # hs) = fmt_hex h @ CHR '':'' # groups_text (h' # hs)"
  by (simp_all add: groups_text_def)

lemma groups_text_hd:
  assumes "is_group h"
  shows "groups_text (h # hs) \<noteq> []" "hd (groups_text (h # hs)) \<noteq> CHR '':''"
    "groups_text (h # hs) @ t \<noteq> []" "hd (groups_text (h # hs) @ t) \<noteq> CHR '':''"
proof -
  have f: "fmt_hex h \<noteq> []" "list_all is_hex_char (fmt_hex h)"
    using assms fmt_hex_digits [of h] by (auto simp: is_group_def)
  then have "is_hex_char (hd (fmt_hex h))" by (cases "fmt_hex h") auto
  then have "hd (fmt_hex h) \<noteq> CHR '':''" using hex_not_special by blast
  then show "groups_text (h # hs) \<noteq> []" "hd (groups_text (h # hs)) \<noteq> CHR '':''"
    "groups_text (h # hs) @ t \<noteq> []" "hd (groups_text (h # hs) @ t) \<noteq> CHR '':''"
    using f(1) by (cases hs; simp add: groups_text_Cons)+
qed

text \<open>One turn of the loop on a group that is followed by nothing or by a colon.\<close>

lemma parse_groups_step:
  assumes "is_group h" "length gs < 8" "rest = [] \<or> hd rest = CHR '':''"
  shows "parse_groups gs el (fmt_hex h @ rest) =
     (if rest = [] then Some (gs @ [h], el)
      else if tl rest = [] then None
      else if hd (tl rest) = CHR '':'' then
        (if el \<noteq> None then None
         else if tl (tl rest) = [] then Some (gs @ [h], Some (Suc (length gs)))
         else parse_groups (gs @ [h]) (Some (Suc (length gs))) (tl (tl rest)))
      else parse_groups (gs @ [h]) el (tl rest))"
proof -
  note g = group_text [OF _ _ assms(3), of h]
  have "0 \<le> h" "h < 65536" using assms(1) by (simp_all add: is_group_def)
  note g = g [OF this]
  have "\<not> (rest \<noteq> [] \<and> hd rest = CHR ''.'')" using assms(3) by auto
  moreover have "\<not> (fmt_hex h = [] \<or> 4 < length (fmt_hex h))" using g by auto
  moreover have "\<not> 8 \<le> length gs" using assms(2) by simp
  moreover have "rest \<noteq> [] \<Longrightarrow> hd rest = CHR '':''" using assms(3) by auto
  ultimately show ?thesis
    by (subst parse_groups.simps) (simp only: g(1,2,3) Let_def if_False if_True, simp)
qed

lemma parse_groups_all:
  assumes "list_all is_group hs" "hs \<noteq> []" "length gs + length hs \<le> 8"
  shows "parse_groups gs el (groups_text hs) = Some (gs @ hs, el)"
  using assms
proof (induction hs arbitrary: gs)
  case (Cons h hs)
  show ?case
  proof (cases hs)
    case Nil
    then show ?thesis
      using parse_groups_step [of h gs "[]" el] Cons.prems by (simp add: groups_text_Cons)
  next
    case (Cons h' hs')
    then have t: "groups_text (h # hs) = fmt_hex h @ CHR '':'' # groups_text hs"
      by (simp add: groups_text_Cons)
    have "parse_groups gs el (groups_text (h # hs)) = parse_groups (gs @ [h]) el (groups_text hs)"
      unfolding t using Cons.prems groups_text_hd [of h' hs'] \<open>hs = h' # hs'\<close>
      by (subst parse_groups_step) auto
    then show ?thesis using Cons.IH [of "gs @ [h]"] Cons.prems \<open>hs = h' # hs'\<close> by simp
  qed
qed simp

lemma parse_groups_ellipsis:
  assumes "list_all is_group hs" "hs \<noteq> []" "list_all is_group ts"
    "length gs + length hs + length ts < 8"
  shows "parse_groups gs None (groups_text hs @ ''::'' @ groups_text ts) =
         Some (gs @ hs @ ts, Some (length gs + length hs))"
  using assms
proof (induction hs arbitrary: gs)
  case (Cons h hs)
  show ?case
  proof (cases hs)
    case Nil
    have "parse_groups gs None (fmt_hex h @ CHR '':'' # CHR '':'' # groups_text ts) =
        (if groups_text ts = [] then Some (gs @ [h], Some (Suc (length gs)))
         else parse_groups (gs @ [h]) (Some (Suc (length gs))) (groups_text ts))"
      using Cons.prems by (subst parse_groups_step) auto
    moreover have "ts = [] \<longleftrightarrow> groups_text ts = []"
      using Cons.prems groups_text_hd(1) by (cases ts) (auto simp: groups_text_def)
    ultimately show ?thesis
      using Nil Cons.prems parse_groups_all [of ts "gs @ [h]" "Some (Suc (length gs))"]
      by (cases "ts = []") (simp_all add: groups_text_Cons)
  next
    case (Cons h' hs')
    then have t: "groups_text (h # hs) = fmt_hex h @ CHR '':'' # groups_text hs"
      by (simp add: groups_text_Cons)
    have "parse_groups gs None (groups_text (h # hs) @ ''::'' @ groups_text ts) =
        parse_groups (gs @ [h]) None (groups_text hs @ ''::'' @ groups_text ts)"
      unfolding t using Cons.prems groups_text_hd(3,4) [of h' hs' "''::'' @ groups_text ts"] \<open>hs = h' # hs'\<close>
      by (subst append_assoc, subst append_Cons, subst parse_groups_step) auto
    then show ?thesis using Cons.IH [of "gs @ [h]"] Cons.prems \<open>hs = h' # hs'\<close> by simp
  qed
qed simp

text \<open>The run \<open>best_run\<close> finds is a run of zero groups of the list.\<close>

definition zero_span :: "int list \<Rightarrow> nat \<times> nat \<Rightarrow> bool" where
  "zero_span gs r \<longleftrightarrow>
     fst r + 2 \<le> snd r \<and> snd r \<le> length gs \<and>
     take (fst r) gs @ replicate (snd r - fst r) 0 @ drop (snd r) gs = gs"

lemma zero_run_span:
  assumes "2 \<le> zero_run gs"
  shows "zero_span (ps @ gs) (length ps, length ps + zero_run gs)"
proof -
  have "takeWhile (\<lambda>g. g = 0) gs = replicate (zero_run gs) 0"
    unfolding zero_run_def by (rule replicate_eqI) (auto dest: set_takeWhileD)
  then have "gs = replicate (zero_run gs) 0 @ drop (zero_run gs) gs"
    using takeWhile_dropWhile_id [of "\<lambda>g. g = 0" gs] dropWhile_eq_drop [of "\<lambda>g. g = 0" gs]
    by (simp add: zero_run_def)
  moreover have "zero_run gs \<le> length gs"
    by (simp add: zero_run_def length_takeWhile_le)
  ultimately show ?thesis
    using assms by (simp add: zero_span_def)
qed

lemma best_run_span:
  "best_run (length ps) gs best = Some r \<Longrightarrow> (\<And>b. best = Some b \<Longrightarrow> zero_span (ps @ gs) b) \<Longrightarrow>
   zero_span (ps @ gs) r"
proof (induction gs arbitrary: ps best)
  case (Cons g gs)
  let ?l = "zero_run (g # gs)"
  let ?best = "if 2 \<le> ?l \<and> (case best of None \<Rightarrow> True | Some (a, b) \<Rightarrow> b - a < ?l)
               then Some (length ps, length ps + ?l) else best"
  have "zero_span ((ps @ [g]) @ gs) r"
  proof (rule Cons.IH)
    show "best_run (length (ps @ [g])) gs ?best = Some r"
      using Cons.prems(1) by (simp add: Let_def)
    show "zero_span ((ps @ [g]) @ gs) b" if "?best = Some b" for b
      using that Cons.prems(2) [of b] zero_run_span [of "g # gs" ps] by (auto split: if_splits)
  qed
  then show ?case by simp
qed simp

lemma hex_text_special:
  assumes "list_all is_group hs" "c \<in> set (groups_text hs)"
  shows "is_hex_char c \<or> c = CHR '':''"
  using assms
proof (induction hs rule: induct_list012)
  case (2 h)
  then show ?case
    using fmt_hex_digits [of h] by (auto simp: groups_text_Cons is_group_def list_all_iff)
next
  case (3 h h' hs)
  then show ?case
    using fmt_hex_digits [of h] by (auto simp: groups_text_Cons is_group_def list_all_iff)
qed (simp add: groups_text_def)

lemma find_first_colon:
  assumes "\<forall>c\<in>set s. is_hex_char c \<or> c = CHR '':''" "CHR '':'' \<in> set s"
  shows "find (\<lambda>c. c \<in> {CHR ''.'', CHR '':'', CHR ''%''}) s = Some (CHR '':'')"
  using assms
proof (induction s)
  case (Cons x s)
  then show ?case using hex_not_special [of x] by auto
qed simp

lemma no_percent:
  "\<forall>c\<in>set s. is_hex_char c \<or> c = CHR '':'' \<Longrightarrow> CHR ''%'' \<notin> set s"
  using hex_not_special by force

lemma colon_in_groups: "2 \<le> length hs \<Longrightarrow> CHR '':'' \<in> set (groups_text hs)"
  by (cases hs; cases "tl hs") (auto simp: groups_text_Cons)

lemma ParseAddr_v6_colon:
  assumes "\<forall>c\<in>set s. is_hex_char c \<or> c = CHR '':''" "CHR '':'' \<in> set s"
  shows "ParseAddr s =
     (if take 2 s = ''::'' then
        (if drop 2 s = [] then Some (V6 (replicate 8 0) [])
         else map_option (\<lambda>gs. V6 gs [])
                (Option.bind (parse_groups [] (Some 0) (drop 2 s)) expand_groups))
      else map_option (\<lambda>gs. V6 gs []) (Option.bind (parse_groups [] None s) expand_groups))"
proof -
  have "cut_on (CHR ''%'') s = None"
    using no_percent [OF assms(1)] by (simp add: cut_on_def)
  then show ?thesis
    using find_first_colon [OF assms] by (simp add: ParseAddr_def parseIPv6_def Let_def)
qed

lemma take2_groups:
  assumes "is_group h"
  shows "take 2 (groups_text (h # hs) @ t) \<noteq> ''::''"
  using groups_text_hd(3,4) [OF assms, of hs t]
  by (cases "groups_text (h # hs) @ t") auto

text \<open>The three shapes of a text with an ellipsis: at the start and alone, at the start, and
  after some groups.\<close>

lemma v6_leading_ellipsis:
  assumes "list_all is_group ts" "length ts < 8"
  shows "ParseAddr (''::'' @ groups_text ts) = Some (V6 (replicate (8 - length ts) 0 @ ts) [])"
proof -
  have chars: "\<forall>c\<in>set (''::'' @ groups_text ts). is_hex_char c \<or> c = CHR '':''"
    using hex_text_special [OF assms(1)] by auto
  show ?thesis
  proof (cases "ts = []")
    case True
    then show ?thesis using ParseAddr_v6_colon [OF chars] by (simp add: groups_text_def)
  next
    case False
    then have "groups_text ts \<noteq> []"
      using groups_text_hd(1) assms(1) by (cases ts) auto
    moreover have "parse_groups [] (Some 0) (groups_text ts) = Some ([] @ ts, Some 0)"
      using parse_groups_all [OF assms(1) False, of "[]" "Some 0"] assms(2) by simp
    ultimately show ?thesis
      using ParseAddr_v6_colon [OF chars] assms(2) by (simp add: expand_groups_def)
  qed
qed

lemma v6_inner_ellipsis:
  assumes "list_all is_group hs" "hs \<noteq> []" "list_all is_group ts" "length hs + length ts < 8"
  shows "ParseAddr (groups_text hs @ ''::'' @ groups_text ts) =
         Some (V6 (hs @ replicate (8 - length hs - length ts) 0 @ ts) [])"
proof -
  obtain h hs' where hs: "hs = h # hs'" using assms(2) by (cases hs) auto
  have chars: "\<forall>c\<in>set (groups_text hs @ ''::'' @ groups_text ts). is_hex_char c \<or> c = CHR '':''"
    using hex_text_special [OF assms(1)] hex_text_special [OF assms(3)] by auto
  have "take 2 (groups_text hs @ ''::'' @ groups_text ts) \<noteq> ''::''"
    using take2_groups [of h hs'] assms(1) hs by simp
  moreover have "parse_groups [] None (groups_text hs @ ''::'' @ groups_text ts) =
      Some (hs @ ts, Some (length hs))"
    using parse_groups_ellipsis [OF assms(1,2,3), of "[]"] assms(4) by simp
  ultimately show ?thesis
    using ParseAddr_v6_colon [OF chars] assms(4) by (simp add: expand_groups_def)
qed

lemma v6_full_text:
  assumes "length gs = 8" "list_all is_group gs"
  shows "ParseAddr (groups_text gs) = Some (V6 gs [])"
proof -
  obtain h hs where gs: "gs = h # hs" using assms(1) by (cases gs) auto
  have "take 2 (groups_text gs) \<noteq> ''::''"
    using take2_groups [of h hs "[]"] assms(2) gs by simp
  moreover have "\<forall>c\<in>set (groups_text gs). is_hex_char c \<or> c = CHR '':''" "CHR '':'' \<in> set (groups_text gs)"
    using hex_text_special [OF assms(2)] colon_in_groups assms(1) by auto
  moreover have "parse_groups [] None (groups_text gs) = Some (gs, None)"
    using parse_groups_all [of gs "[]" None] assms by fastforce
  ultimately show ?thesis
    using assms(1) by (simp add: ParseAddr_v6_colon expand_groups_def)
qed

lemma ParseAddr_v6_text:
  assumes "length gs = 8" "list_all is_group gs"
  shows "ParseAddr (v6_text gs) = Some (V6 gs [])"
proof (cases "best_run 0 gs None")
  case None
  then show ?thesis
    using v6_full_text [OF assms] by (simp add: v6_text_def groups_text_def)
next
  case (Some r)
  obtain a b where r: "r = (a, b)" by (cases r)
  have span: "a + 2 \<le> b" "b \<le> 8" "take a gs @ replicate (b - a) 0 @ drop b gs = gs"
    using best_run_span [of "[]" gs None r] Some assms(1) r by (auto simp: zero_span_def)
  have grp: "list_all is_group (take a gs)" "list_all is_group (drop b gs)"
    using assms(2) by (auto simp: list_all_iff dest: in_set_takeD in_set_dropD)
  have t: "v6_text gs = groups_text (take a gs) @ ''::'' @ groups_text (drop b gs)"
    using Some r by (simp add: v6_text_def groups_text_def)
  show ?thesis
  proof (cases "a = 0")
    case True
    then show ?thesis
      using v6_leading_ellipsis [OF grp(2)] span assms(1) by (simp add: t groups_text_def)
  next
    case False
    then have "take a gs \<noteq> []" using assms(1) by auto
    then show ?thesis
      using v6_inner_ellipsis [OF grp(1) _ grp(2)] span assms(1) by (simp add: t)
  qed
qed

lemma ParseAddr_text:
  assumes "wf_addr a" "\<not> Is4In6 a"
  shows "ParseAddr (addr_String a) = Some a"
  using assms ParseAddr_v4_text ParseAddr_v6_text
  by (cases a) (auto simp: addr_String_def wf_addr_def list_all_iff is_group_def)

lemma cut_last_slash_text:
  "CHR ''/'' \<notin> set b \<Longrightarrow> cut_last_slash (a @ CHR ''/'' # b) = Some (a, b)"
  by (simp add: cut_last_slash_def cut_on_sep)

lemma ParsePrefix_text:
  assumes "wf_addr (fst p)" "\<not> Is4In6 (fst p)" "snd p \<le> BitLen (fst p)"
  shows "ParsePrefix (prefix_String p) = Some p"
proof -
  obtain a n where p: "p = (a, n)" by (cases p)
  have "cut_last_slash (prefix_String p) = Some (addr_String a, fmt_nat n)"
    using digits_no_sep [OF bits_round_trip(2), of "CHR ''/''" n] p
    by (simp add: prefix_String_def cut_last_slash_text)
  moreover have "no_zone a"
    using assms(1) p by (auto simp: no_zone_def wf_addr_def split: addr.splits)
  ultimately show ?thesis
    using assms ParseAddr_text [of a] bits_round_trip(1) [of n] p by (simp add: ParsePrefix_def)
qed

section \<open>Masking\<close>

lemma keep_bits_idem [simp]: "keep_bits w n (keep_bits w n v) = keep_bits w n v"
  by (simp add: keep_bits_def)

lemma keep_bits_bounds:
  assumes "0 \<le> v"
  shows "0 \<le> keep_bits w n v" "keep_bits w n v \<le> v"
proof -
  have "v = keep_bits w n v + v mod 2 ^ (w - n)"
    unfolding keep_bits_def by (rule div_mult_mod_eq [symmetric])
  moreover have "0 \<le> v mod 2 ^ (w - n)" by simp
  ultimately show "keep_bits w n v \<le> v" by linarith
  show "0 \<le> keep_bits w n v"
    using assms by (simp add: keep_bits_def pos_imp_zdiv_nonneg_iff)
qed

lemma mask_groups_idem [simp]: "mask_groups n (mask_groups n gs) = mask_groups n gs"
  by (induction gs arbitrary: n) auto

lemma length_mask_groups [simp]: "length (mask_groups n gs) = length gs"
  by (induction gs arbitrary: n) auto

lemma mask_groups_bounds:
  "\<forall>g\<in>set gs. 0 \<le> g \<and> g < 65536 \<Longrightarrow> \<forall>g\<in>set (mask_groups n gs). 0 \<le> g \<and> g < 65536"
proof (induction gs arbitrary: n)
  case (Cons g gs)
  then show ?case using keep_bits_bounds [of g 16 "min 16 n"] by fastforce
qed simp

lemma mask_addr_idem [simp]: "mask_addr n (mask_addr n a) = mask_addr n a"
  by (cases a) (simp_all add: mask_addr_def)

lemma Masked_idem [simp]: "Masked (Masked p) = Masked p"
  by (simp add: Masked_def)

lemma BitLen_mask [simp]: "BitLen (mask_addr n a) = BitLen a"
  by (cases a) (simp_all add: mask_addr_def)

lemma no_zone_mask [simp]: "no_zone (mask_addr n a)"
  by (cases a) (simp_all add: mask_addr_def no_zone_def)

lemma wf_mask: "wf_addr a \<Longrightarrow> wf_addr (mask_addr n a)"
proof (cases a)
  case (V4 v)
  then show "wf_addr a \<Longrightarrow> wf_addr (mask_addr n a)"
    using keep_bits_bounds [of v 32 n] by (auto simp: wf_addr_def mask_addr_def)
next
  case (V6 gs z)
  then show "wf_addr a \<Longrightarrow> wf_addr (mask_addr n a)"
    using mask_groups_bounds [of gs n] by (auto simp: wf_addr_def mask_addr_def)
qed

text \<open>Masking cannot produce an IPv4-mapped address from one that is not.\<close>

lemma keep_bits_all_ones:
  assumes "0 \<le> g" "g < 65536" "keep_bits 16 (min 16 n) g = 65535"
  shows "16 \<le> n"
proof (rule ccontr)
  assume "\<not> 16 \<le> n"
  then obtain k where k: "16 - min 16 n = Suc k" by (cases "16 - min 16 n") auto
  have "keep_bits 16 (min 16 n) g = 2 * (g div 2 ^ Suc k * 2 ^ k)"
    by (simp add: keep_bits_def k)
  then have "even (keep_bits 16 (min 16 n) g)" by simp
  then show False unfolding assms(3) by simp
qed

lemma mask_groups_nth:
  "i < length gs \<Longrightarrow> mask_groups n gs ! i = keep_bits 16 (min 16 (n - 16 * i)) (gs ! i)"
proof (induction gs arbitrary: n i)
  case (Cons g gs)
  then show ?case by (cases i) (simp_all add: diff_diff_eq)
qed simp

lemma mask_groups_take: "16 * k \<le> n \<Longrightarrow> take k (mask_groups n gs) = take k gs"
proof (induction gs arbitrary: n k)
  case (Cons g gs)
  then show ?case by (cases k) (auto simp: keep_bits_def)
qed simp

lemma Is4In6_mask:
  assumes "wf_addr a" "Is4In6 (mask_addr n a)"
  shows "Is4In6 a"
proof (cases a)
  case (V4 v)
  with assms show ?thesis by (simp add: Is4In6_def mask_addr_def)
next
  case (V6 gs z)
  with assms(1) have len: "length gs = 8" and b: "\<forall>g\<in>set gs. 0 \<le> g \<and> g < 65536"
    by (auto simp: wf_addr_def)
  have m: "take 6 (mask_groups n gs) = [0, 0, 0, 0, 0, 65535]"
    using assms(2) V6 by (simp add: Is4In6_def mask_addr_def)
  then have "take 6 (mask_groups n gs) ! 5 = 65535" by simp
  then have "keep_bits 16 (min 16 (n - 80)) (gs ! 5) = 65535"
    using mask_groups_nth [of 5 gs n] len by simp
  then have "16 \<le> n - 80"
    using keep_bits_all_ones [of "gs ! 5" "n - 80"] b len by simp
  then have "take 6 gs = [0, 0, 0, 0, 0, 65535]"
    using mask_groups_take [of 6 n gs] m by simp
  then show ?thesis by (simp add: V6 Is4In6_def)
qed

section \<open>Parsed addresses are well formed\<close>

lemma parse_octet_bounds: "parse_octet s = Some v \<Longrightarrow> is_octet v"
proof -
  have "0 \<le> hex_value c" if "is_digit_char c" for c
    using that by (simp add: hex_value_def is_digit_char_def)
  then have "0 \<le> digits_value 10 s" if "list_all is_digit_char s"
    using that by (induction s rule: rev_induct) (auto simp: digits_value_def)
  then show "parse_octet s = Some v \<Longrightarrow> is_octet v"
    by (auto simp: parse_octet_def is_octet_def Let_def split: if_splits)
qed

lemma four_fields_Some: "four_fields xs = Some (a, b, c, d) \<Longrightarrow> xs = [Some a, Some b, Some c, Some d]"
  by (cases xs rule: four_fields.cases) simp_all

lemma parseIPv4Fields_bounds:
  "parseIPv4Fields s = Some (a, b, c, d) \<Longrightarrow> is_octet a \<and> is_octet b \<and> is_octet c \<and> is_octet d"
  unfolding parseIPv4Fields_def
  by (drule four_fields_Some) (auto simp: map_eq_Cons_conv intro: parse_octet_bounds)

lemma hex_value_bounds: "is_hex_char c \<Longrightarrow> 0 \<le> hex_value c \<and> hex_value c < 16"
  by (auto simp: is_hex_char_def hex_value_def is_digit_char_def)

lemma digit_step_bounds:
  fixes v h p :: int
  assumes "0 \<le> v" "v < p" "0 \<le> h" "h < 16"
  shows "0 \<le> v * 16 + h \<and> v * 16 + h < p * 16"
  using assms by linarith

lemma digits_value_bounds:
  "list_all is_hex_char s \<Longrightarrow> 0 \<le> digits_value 16 s \<and> digits_value 16 s < 16 ^ length s"
proof (induction s rule: rev_induct)
  case (snoc c s)
  then have "0 \<le> digits_value 16 s" "digits_value 16 s < 16 ^ length s" "is_hex_char c"
    by simp_all
  then have "0 \<le> digits_value 16 s * 16 + hex_value c \<and>
      digits_value 16 s * 16 + hex_value c < 16 ^ length s * 16"
    using hex_value_bounds by (intro digit_step_bounds) blast+
  then show ?case by (simp only: digits_value_snoc length_append_singleton power_Suc2)
qed (simp add: digits_value_def)

lemma group_value:
  assumes "length (takeWhile is_hex_char s) \<le> 4"
  shows "is_group (digits_value 16 (takeWhile is_hex_char s))"
proof -
  let ?d = "takeWhile is_hex_char s"
  have "list_all is_hex_char ?d" by (auto simp: list_all_iff dest: set_takeWhileD)
  then have "0 \<le> digits_value 16 ?d" "digits_value 16 ?d < 16 ^ length ?d"
    using digits_value_bounds by blast+
  moreover have "(16::int) ^ length ?d \<le> 16 ^ 4"
    using assms by (intro power_increasing) auto
  ultimately show ?thesis by (simp add: is_group_def)
qed

lemma octets_group: "is_octet a \<Longrightarrow> is_octet b \<Longrightarrow> is_group (a * 256 + b)"
  by (simp add: is_octet_def is_group_def)

lemma parse_groups_cases:
  assumes "parse_groups gs el s = Some r"
  obtains (full) "8 \<le> length gs" "r = (gs, el)"
  | (dotted) a b c d where "length gs \<le> 6" "is_octet a" "is_octet b" "is_octet c" "is_octet d"
      "r = (gs @ [a * 256 + b, c * 256 + d], el)"
  | (last) g el' where "length gs < 8" "is_group g" "el' = el \<or> el' = Some (Suc (length gs))"
      "r = (gs @ [g], el')"
  | (step) g el' t where "length gs < 8" "is_group g" "el' = el \<or> el' = Some (Suc (length gs))"
      "parse_groups (gs @ [g]) el' t = Some r"
proof (cases "8 \<le> length gs")
  case True
  then show ?thesis
    using assms full by (auto simp: parse_groups.simps [of gs el s] split: if_splits)
next
  case False
  define ds where "ds = takeWhile is_hex_char s"
  define rest where "rest = dropWhile is_hex_char s"
  have len: "length gs < 8" using False by simp
  note eq = assms [unfolded parse_groups.simps [of gs el s] Let_def, folded ds_def rest_def]
  from eq False have ok: "\<not> (ds = [] \<or> 4 < length ds)" by (auto split: if_splits)
  then have d: "is_group (digits_value 16 ds)" using group_value [of s] by (simp add: ds_def)
  show ?thesis
  proof (cases "rest \<noteq> [] \<and> hd rest = CHR ''.''")
    case True
    with eq False ok show ?thesis
      using dotted parseIPv4Fields_bounds [of s] by (auto split: if_splits)
  next
    case other: False
    have "(if rest = [] then Some (gs @ [digits_value 16 ds], el)
           else if hd rest \<noteq> CHR '':'' \<or> tl rest = [] then None
           else if hd (tl rest) = CHR '':'' then
             (if el \<noteq> None then None
              else if tl (tl rest) = [] then Some (gs @ [digits_value 16 ds], Some (length (gs @ [digits_value 16 ds])))
              else parse_groups (gs @ [digits_value 16 ds]) (Some (length (gs @ [digits_value 16 ds]))) (tl (tl rest)))
           else parse_groups (gs @ [digits_value 16 ds]) el (tl rest)) = Some r"
      using eq False ok other by (simp only: if_False)
    then show ?thesis
      using last [OF len d] step [OF len d] by (auto split: if_splits)
  qed
qed

lemma parse_groups_bounds:
  assumes "parse_groups gs el s = Some (hs, el')" "list_all is_group gs" "length gs \<le> 8"
    "\<forall>k. el = Some k \<longrightarrow> k \<le> length gs"
  shows "list_all is_group hs \<and> length hs \<le> 8 \<and> (\<forall>k. el' = Some k \<longrightarrow> k \<le> length hs)"
  using assms
proof (induction "8 - length gs" arbitrary: gs el s)
  case 0
  from 0(2) show ?case by (cases rule: parse_groups_cases) (use 0 in auto)
next
  case (Suc n)
  from Suc.prems(1) show ?case
  proof (cases rule: parse_groups_cases)
    case (step g e t)
    have "8 - length (gs @ [g]) = n" using Suc.hyps(2) by simp
    then show ?thesis
      using Suc.hyps(1) [of "gs @ [g]" e t] step Suc.prems by fastforce
  qed (use Suc.prems in \<open>auto simp: octets_group\<close>)
qed

lemma expand_groups_bounds:
  assumes "parse_groups [] el t = Some r" "expand_groups r = Some gs" "el = None \<or> el = Some 0"
  shows "list_all is_group gs \<and> length gs = 8"
proof -
  obtain hs el' where r: "r = (hs, el')" by (cases r)
  have h: "\<forall>x\<in>set hs. is_group x" "length hs \<le> 8" "\<forall>k. el' = Some k \<longrightarrow> k \<le> length hs"
    using parse_groups_bounds [of "[]" el t hs el'] assms r by (auto simp: list_all_iff)
  have z: "is_group 0" by (simp add: is_group_def)
  show ?thesis
    using assms(2) r h z
    by (auto simp: expand_groups_def list_all_iff dest!: in_set_takeD in_set_dropD
          split: option.splits if_splits)
qed

lemma parseIPv6_wf: "parseIPv6 s = Some a \<Longrightarrow> no_zone a \<Longrightarrow> wf_addr a"
proof -
  assume p: "parseIPv6 s = Some a" and z: "no_zone a"
  then obtain gs where a: "a = V6 gs []"
    by (auto simp: parseIPv6_def no_zone_def Let_def split: if_splits option.splits prod.splits)
  have "gs = replicate 8 0 \<or> (\<exists>el t r. parse_groups [] el t = Some r \<and> expand_groups r = Some gs \<and>
      (el = None \<or> el = Some 0))"
    using p a
    by (auto simp: parseIPv6_def Let_def bind_eq_Some_conv split: if_splits option.splits prod.splits)
  then have "list_all is_group gs \<and> length gs = 8"
    using expand_groups_bounds by (auto simp: is_group_def list_all_iff)
  then show "wf_addr a" by (simp add: a wf_addr_def list_all_iff is_group_def)
qed

lemma parseIPv4_wf: "parseIPv4 s = Some a \<Longrightarrow> wf_addr a"
  using parseIPv4Fields_bounds [of s]
  by (auto simp: parseIPv4_def wf_addr_def v4_value_def is_octet_def)

lemma ParseAddr_wf: "ParseAddr s = Some a \<Longrightarrow> no_zone a \<Longrightarrow> wf_addr a"
  using parseIPv4_wf parseIPv6_wf by (auto simp: ParseAddr_def split: option.splits if_splits)

lemma ParsePrefix_wf:
  "ParsePrefix s = Some p \<Longrightarrow> wf_addr (fst p) \<and> snd p \<le> BitLen (fst p)"
  using ParseAddr_wf by (fastforce simp: ParsePrefix_def split: option.splits if_splits prod.splits)

text \<open>The canonical text of a masked prefix parses to the masked prefix.\<close>

lemma ParsePrefix_masked:
  assumes "ParsePrefix s = Some p" "\<not> Is4In6 (fst p)"
  shows "ParsePrefix (prefix_String (Masked p)) = Some (Masked p)"
proof (rule ParsePrefix_text)
  have wf: "wf_addr (fst p)" "snd p \<le> BitLen (fst p)"
    using ParsePrefix_wf [OF assms(1)] by auto
  show "wf_addr (fst (Masked p))" using wf_mask [OF wf(1)] by (simp add: Masked_def)
  show "\<not> Is4In6 (fst (Masked p))"
    using Is4In6_mask [OF wf(1)] assms(2) by (auto simp: Masked_def)
  show "snd (Masked p) \<le> BitLen (fst (Masked p))" using wf(2) by (simp add: Masked_def)
qed

end
