(* ===== verification/Network_Policy.thy ===== *)
theory Network_Policy
  imports Go_Net
begin

text \<open>
  The sandbox network policy, package \<open>lib/go/networkpolicy\<close>: normalisation of the
  network mode, of domain rules, of CIDR rules and of port ranges, and the predicates the
  control plane and the node runtime derive from a policy. The IDNA conversion of
  \<open>golang.org/x/net/idna\<close> is the parameter \<open>idna\<close>, \<open>None\<close> being its error;
  \<open>ul\<close> is the case table of \<open>strings.ToLower\<close>. The lemmas show that a
  normalised policy is canonical and grants exactly what the rules it was made from grant.
\<close>

section \<open>The policy messages\<close>

datatype network_mode = NM_UNSPECIFIED | NM_DEFAULT | NM_ISOLATED | NM_HOST | NM_OTHER int

datatype egress_protocol = EGRESS_UNSPECIFIED | EGRESS_TCP | EGRESS_UDP | EGRESS_OTHER int

record port_range =
  pr_Start :: int
  pr_End :: int

record cidr_rule =
  cr_Cidr :: string
  cr_Protocol :: egress_protocol
  cr_Ports :: "port_range option list"

record strict_policy =
  sp_AllowedDomains :: "string list"
  sp_AllowedCidrs :: "cidr_rule option list"

record dns_deny_policy =
  dp_DeniedDomains :: "string list"

text \<open>The oneof of \<open>NetworkEgressPolicy\<close>: unset, or one of its kinds with a body that
  may be nil.\<close>

datatype egress_policy =
  PolicyUnset | PolicyStrict "strict_policy option" | PolicyDnsDeny "dns_deny_policy option"

record network_spec =
  ns_Mode :: network_mode
  ns_EgressPolicy :: "egress_policy option"

datatype domain_error =
  DomainNotUTF8 | DomainNotDNSName | DomainNotIDNA | DomainTooLong | DomainBadLabel | DomainIsIPLiteral

datatype cidr_error =
  RuleNil | InvalidCIDR | MappedCIDR | ForbiddenCIDR | BadProtocol | NoPorts | BadPortRange

datatype network_error =
  UnknownNetworkMode | HostWithPolicy | IsolatedWithPolicy | PolicyKindRequired |
  PolicyBodyRequired | BadDomain domain_error | BadCIDR cidr_error | TooManyRules | NoDeniedDomain

definition MaxRules :: nat where
  "MaxRules = 256"

fun GetStrict :: "egress_policy option \<Rightarrow> strict_policy option" where
  "GetStrict (Some (PolicyStrict s)) = s"
| "GetStrict _ = None"

fun GetDnsDeny :: "egress_policy option \<Rightarrow> dns_deny_policy option" where
  "GetDnsDeny (Some (PolicyDnsDeny d)) = d"
| "GetDnsDeny _ = None"

section \<open>Domains\<close>

definition trim_suffix :: "string \<Rightarrow> string \<Rightarrow> string" where
  "trim_suffix p s = (if suffix p s then take (length s - length p) s else s)"

definition domain_value :: "string \<Rightarrow> string" where
  "domain_value raw = trim_suffix ''.'' (trim_space raw)"

definition bad_domain_chars :: string where
  "bad_domain_chars = ''/:@?#[]%''"

definition normalizeDomain ::
  "(string \<Rightarrow> string) \<Rightarrow> (string \<Rightarrow> string option) \<Rightarrow> string \<Rightarrow> domain_error + string" where
  "normalizeDomain ul idna raw =
     (let value = domain_value raw
      in if \<not> valid_utf8 value then Inl DomainNotUTF8
         else
           let wildcard = prefix ''*.'' value;
               name = trim_prefix ''*.'' value
           in if name = [] \<or> CHR ''*'' \<in> set name \<or> list_ex (\<lambda>c. c \<in> set bad_domain_chars) name
              then Inl DomainNotDNSName
              else case idna name of
                     None \<Rightarrow> Inl DomainNotIDNA
                   | Some converted \<Rightarrow>
                       let ascii = to_lower ul converted
                       in if 253 < length ascii then Inl DomainTooLong
                          else if list_ex (\<lambda>label. label = [] \<or> 63 < length label) (split_on (CHR ''.'') ascii)
                          then Inl DomainBadLabel
                          else if ParseAddr ascii \<noteq> None then Inl DomainIsIPLiteral
                          else Inr (if wildcard then ''*.'' @ ascii else ascii))"

definition normalizeDomains ::
  "(string \<Rightarrow> string) \<Rightarrow> (string \<Rightarrow> string option) \<Rightarrow> string list \<Rightarrow> domain_error + string list" where
  "normalizeDomains ul idna rules =
     bind_result (map_result (normalizeDomain ul idna) rules) (\<lambda>ds. Inr (sort (remdups ds)))"

section \<open>Ports\<close>

text \<open>Ports are \<open>uint32\<close>: a port that is not 0 is positive.\<close>

definition port_range_ok :: "port_range option \<Rightarrow> bool" where
  "port_range_ok p =
     (case p of
        None \<Rightarrow> False
      | Some r \<Rightarrow> 0 < pr_Start r \<and> pr_Start r \<le> 65535 \<and> 0 < pr_End r \<and> pr_End r \<le> 65535 \<and>
                  pr_Start r \<le> pr_End r)"

definition port_less :: "port_range \<Rightarrow> port_range \<Rightarrow> bool" where
  "port_less a b =
     (if pr_Start a = pr_Start b then pr_End a < pr_End b else pr_Start a < pr_Start b)"

text \<open>The merging loop; the ranges merged so far are kept last first.\<close>

fun mergePorts :: "port_range list \<Rightarrow> port_range list \<Rightarrow> port_range list" where
  "mergePorts merged [] = rev merged"
| "mergePorts [] (c # cs) = mergePorts [c] cs"
| "mergePorts (m # ms) (c # cs) =
     (if pr_End m + 1 < pr_Start c then mergePorts (c # m # ms) cs
      else mergePorts ((if pr_End m < pr_End c then m\<lparr>pr_End := pr_End c\<rparr> else m) # ms) cs)"

definition normalizePorts :: "port_range option list \<Rightarrow> cidr_error + port_range list" where
  "normalizePorts ports =
     (if list_all port_range_ok ports
      then Inr (mergePorts [] (sort_slice port_less (map the ports)))
      else Inl BadPortRange)"

section \<open>CIDR rules\<close>

definition forbiddenCIDRs :: "cidr_prefix list" where
  "forbiddenCIDRs =
     map (\<lambda>s. the (ParsePrefix s))
       [''0.0.0.0/32'', ''100.100.100.200/32'', ''127.0.0.0/8'', ''169.254.0.0/16'',
        ''192.0.0.192/32'', ''224.0.0.0/4'', ''::/128'', ''::1/128'', ''fe80::/10'', ''ff00::/8'']"

definition forbiddenPrefix :: "cidr_prefix \<Rightarrow> bool" where
  "forbiddenPrefix candidate =
     list_ex (\<lambda>forbidden.
        BitLen (fst candidate) = BitLen (fst forbidden) \<and> snd forbidden \<le> snd candidate \<and>
        prefix_Contains forbidden (fst candidate)) forbiddenCIDRs"

fun protocol_number :: "egress_protocol \<Rightarrow> int" where
  "protocol_number EGRESS_UNSPECIFIED = 0"
| "protocol_number EGRESS_TCP = 1"
| "protocol_number EGRESS_UDP = 2"
| "protocol_number (EGRESS_OTHER n) = n"

type_synonym cidr_key = "string \<times> egress_protocol"

definition cidr_key_less :: "cidr_key \<Rightarrow> cidr_key \<Rightarrow> bool" where
  "cidr_key_less a b =
     (if fst a = fst b then protocol_number (snd a) < protocol_number (snd b) else fst a < fst b)"

text \<open>One step of the grouping loop: the key of a rule and its ports.\<close>

definition cidrEntry :: "cidr_rule option \<Rightarrow> cidr_error + (cidr_key \<times> port_range option list)" where
  "cidrEntry rule =
     (case rule of
        None \<Rightarrow> Inl RuleNil
      | Some r \<Rightarrow>
          (case ParsePrefix (trim_space (cr_Cidr r)) of
             None \<Rightarrow> Inl InvalidCIDR
           | Some p \<Rightarrow>
               if Is4In6 (fst p) then Inl MappedCIDR
               else if forbiddenPrefix (Masked p) then Inl ForbiddenCIDR
               else if cr_Protocol r \<noteq> EGRESS_TCP \<and> cr_Protocol r \<noteq> EGRESS_UDP then Inl BadProtocol
               else if cr_Ports r = [] then Inl NoPorts
               else Inr ((prefix_String (Masked p), cr_Protocol r), cr_Ports r)))"

definition grouped :: "(cidr_key \<times> port_range option list) list \<Rightarrow> cidr_key \<Rightarrow> port_range option list" where
  "grouped entries k = concat (map snd (filter (\<lambda>e. fst e = k) entries))"

definition cidrRule ::
  "(cidr_key \<times> port_range option list) list \<Rightarrow> cidr_key \<Rightarrow> cidr_error + cidr_rule option" where
  "cidrRule entries k =
     bind_result (normalizePorts (grouped entries k))
       (\<lambda>ports. Inr (Some \<lparr>cr_Cidr = fst k, cr_Protocol = snd k, cr_Ports = map Some ports\<rparr>))"

definition normalizeCIDRs :: "cidr_rule option list \<Rightarrow> cidr_error + cidr_rule option list" where
  "normalizeCIDRs rules =
     bind_result (map_result cidrEntry rules) (\<lambda>entries.
       map_result (cidrRule entries) (sort_slice cidr_key_less (remdups (map fst entries))))"

section \<open>Policies\<close>

fun lift_error :: "('e \<Rightarrow> 'f) \<Rightarrow> 'e + 'a \<Rightarrow> 'f + 'a" where
  "lift_error g (Inl e) = Inl (g e)"
| "lift_error g (Inr x) = Inr x"

lemma lift_error_Inr_iff [simp]: "lift_error g r = Inr x \<longleftrightarrow> r = Inr x"
  by (cases r) auto

definition normalizeStrict ::
  "(string \<Rightarrow> string) \<Rightarrow> (string \<Rightarrow> string option) \<Rightarrow> strict_policy option \<Rightarrow> network_error + strict_policy" where
  "normalizeStrict ul idna body =
     (case body of
        None \<Rightarrow> Inl PolicyBodyRequired
      | Some s \<Rightarrow>
          bind_result (lift_error BadDomain (normalizeDomains ul idna (sp_AllowedDomains s))) (\<lambda>domains.
          bind_result (lift_error BadCIDR (normalizeCIDRs (sp_AllowedCidrs s))) (\<lambda>cidrs.
            if MaxRules < length domains + length cidrs then Inl TooManyRules
            else Inr \<lparr>sp_AllowedDomains = domains, sp_AllowedCidrs = cidrs\<rparr>)))"

definition normalizeDNSDeny ::
  "(string \<Rightarrow> string) \<Rightarrow> (string \<Rightarrow> string option) \<Rightarrow> dns_deny_policy option \<Rightarrow> network_error + dns_deny_policy" where
  "normalizeDNSDeny ul idna body =
     (case body of
        None \<Rightarrow> Inl PolicyBodyRequired
      | Some d \<Rightarrow>
          bind_result (lift_error BadDomain (normalizeDomains ul idna (dp_DeniedDomains d))) (\<lambda>domains.
            if domains = [] then Inl NoDeniedDomain
            else if MaxRules < length domains then Inl TooManyRules
            else Inr \<lparr>dp_DeniedDomains = domains\<rparr>))"

definition strict_empty :: "strict_policy \<Rightarrow> bool" where
  "strict_empty s \<longleftrightarrow> sp_AllowedDomains s = [] \<and> sp_AllowedCidrs s = []"

definition known_mode :: "network_mode \<Rightarrow> bool" where
  "known_mode m \<longleftrightarrow> m \<in> {NM_UNSPECIFIED, NM_DEFAULT, NM_ISOLATED, NM_HOST}"

definition NormalizeNetwork ::
  "(string \<Rightarrow> string) \<Rightarrow> (string \<Rightarrow> string option) \<Rightarrow> network_spec option \<Rightarrow>
   network_error + network_spec option" where
  "NormalizeNetwork ul idna spec =
     (case spec of
        None \<Rightarrow> Inr None
      | Some i \<Rightarrow>
          let mode = ns_Mode i; policy = ns_EgressPolicy i
          in if \<not> known_mode mode then Inl UnknownNetworkMode
             else if mode = NM_HOST \<and> policy \<noteq> None then Inl HostWithPolicy
             else if mode = NM_ISOLATED then
               (if policy \<noteq> None \<and> (case GetStrict policy of None \<Rightarrow> True | Some s \<Rightarrow> \<not> strict_empty s)
                then Inl IsolatedWithPolicy
                else Inr (Some \<lparr>ns_Mode = mode, ns_EgressPolicy = None\<rparr>))
             else
               (case policy of
                  None \<Rightarrow> Inr (Some \<lparr>ns_Mode = mode, ns_EgressPolicy = None\<rparr>)
                | Some PolicyUnset \<Rightarrow> Inl PolicyKindRequired
                | Some (PolicyStrict body) \<Rightarrow>
                    bind_result (normalizeStrict ul idna body) (\<lambda>s.
                      if strict_empty s then Inr (Some \<lparr>ns_Mode = NM_ISOLATED, ns_EgressPolicy = None\<rparr>)
                      else Inr (Some \<lparr>ns_Mode = mode, ns_EgressPolicy = Some (PolicyStrict (Some s))\<rparr>))
                | Some (PolicyDnsDeny body) \<Rightarrow>
                    bind_result (normalizeDNSDeny ul idna body) (\<lambda>d.
                      Inr (Some \<lparr>ns_Mode = mode, ns_EgressPolicy = Some (PolicyDnsDeny (Some d))\<rparr>))))"

definition ValidateNetworkSpec ::
  "(string \<Rightarrow> string) \<Rightarrow> (string \<Rightarrow> string option) \<Rightarrow> network_spec option \<Rightarrow> network_error option" where
  "ValidateNetworkSpec ul idna spec = result_error (NormalizeNetwork ul idna spec)"

datatype enforcement_mode = EnforcementNone | EnforcementDNSDeny | EnforcementStrict

definition PolicyMode :: "network_spec option \<Rightarrow> enforcement_mode" where
  "PolicyMode spec =
     (case spec of
        None \<Rightarrow> EnforcementNone
      | Some i \<Rightarrow>
          if ns_Mode i = NM_ISOLATED \<or> GetStrict (ns_EgressPolicy i) \<noteq> None then EnforcementStrict
          else if GetDnsDeny (ns_EgressPolicy i) \<noteq> None then EnforcementDNSDeny
          else EnforcementNone)"

definition specPolicy :: "network_spec option \<Rightarrow> egress_policy option" where
  "specPolicy spec = Option.bind spec ns_EgressPolicy"

definition StrictNeedsEgressd :: "network_spec option \<Rightarrow> bool" where
  "StrictNeedsEgressd spec =
     (case GetStrict (specPolicy spec) of None \<Rightarrow> False | Some s \<Rightarrow> \<not> strict_empty s)"

definition IsStrictDenyAll :: "network_spec option \<Rightarrow> bool" where
  "IsStrictDenyAll spec =
     (case spec of
        None \<Rightarrow> False
      | Some i \<Rightarrow> ns_Mode i = NM_ISOLATED \<or>
          (case GetStrict (ns_EgressPolicy i) of None \<Rightarrow> False | Some s \<Rightarrow> strict_empty s))"

definition RequiresDNSUpstreams :: "egress_policy option \<Rightarrow> bool" where
  "RequiresDNSUpstreams policy =
     (policy \<noteq> None \<and>
      (GetDnsDeny policy \<noteq> None \<or>
       (case GetStrict policy of None \<Rightarrow> False | Some s \<Rightarrow> sp_AllowedDomains s \<noteq> [])))"

section \<open>Merged port ranges\<close>

definition in_range :: "port_range \<Rightarrow> int \<Rightarrow> bool" where
  "in_range r p \<longleftrightarrow> pr_Start r \<le> p \<and> p \<le> pr_End r"

definition covers :: "port_range list \<Rightarrow> int \<Rightarrow> bool" where
  "covers rs p \<longleftrightarrow> (\<exists>r\<in>set rs. in_range r p)"

text \<open>Ranges in increasing order with a gap of at least one port between neighbours.\<close>

definition separated :: "port_range list \<Rightarrow> bool" where
  "separated rs \<longleftrightarrow> sorted_wrt (\<lambda>a b. pr_End a + 1 < pr_Start b) rs"

definition valid_ports :: "port_range list \<Rightarrow> bool" where
  "valid_ports rs \<longleftrightarrow> (\<forall>r\<in>set rs. 1 \<le> pr_Start r \<and> pr_Start r \<le> pr_End r \<and> pr_End r \<le> 65535)"

interpretation port_order: strict_weak_order port_less
  by unfold_locales (auto simp: port_less_def split: if_splits)

lemma covers_Cons: "covers (r # rs) p \<longleftrightarrow> in_range r p \<or> covers rs p"
  by (simp add: covers_def)

lemma valid_ports_Cons:
  "valid_ports (r # rs) \<longleftrightarrow>
     1 \<le> pr_Start r \<and> pr_Start r \<le> pr_End r \<and> pr_End r \<le> 65535 \<and> valid_ports rs"
  by (auto simp: valid_ports_def)

lemma separated_rev_Cons:
  "separated (rev (m # ms)) \<longleftrightarrow> separated (rev ms) \<and> (\<forall>x\<in>set ms. pr_End x + 1 < pr_Start m)"
  by (auto simp: separated_def sorted_wrt_append)

lemma mergePorts_spec:
  assumes "sorted_wrt (\<lambda>a b. pr_Start a \<le> pr_Start b) cs" "valid_ports cs"
    "separated (rev acc)" "valid_ports acc"
    "\<forall>m\<in>set (take 1 acc). \<forall>c\<in>set cs. pr_Start m \<le> pr_Start c"
  shows "separated (mergePorts acc cs) \<and> valid_ports (mergePorts acc cs) \<and>
         (\<forall>p. covers (mergePorts acc cs) p \<longleftrightarrow> covers acc p \<or> covers cs p)"
  using assms
proof (induction acc cs rule: mergePorts.induct)
  case (1 merged)
  then show ?case by (simp add: covers_def valid_ports_def)
next
  case (2 c cs)
  have "separated (rev [c])" "valid_ports [c]" "valid_ports cs"
    using 2(3) by (simp_all add: valid_ports_Cons separated_def) (simp add: valid_ports_def)
  with 2(1,2) show ?case by (simp add: covers_Cons) (simp add: covers_def)
next
  case (3 m ms c cs)
  note m = 3(6) [unfolded valid_ports_Cons] and c = 3(4) [unfolded valid_ports_Cons]
    and sep = 3(5) [unfolded separated_rev_Cons]
  have mc: "pr_Start m \<le> pr_Start c" "\<forall>x\<in>set cs. pr_Start m \<le> pr_Start x" using 3(7) by simp_all
  have cs: "sorted_wrt (\<lambda>a b. pr_Start a \<le> pr_Start b) cs" "\<forall>x\<in>set cs. pr_Start c \<le> pr_Start x"
    using 3(3) by simp_all
  show ?case
  proof (cases "pr_End m + 1 < pr_Start c")
    case True
    have "\<forall>x\<in>set (m # ms). pr_End x + 1 < pr_Start c" using sep mc True by fastforce
    then have "separated (rev (c # m # ms))" using 3(5) by (subst separated_rev_Cons) simp
    then show ?thesis
      using 3(1) [OF True cs(1)] m c cs(2) True by (simp add: covers_Cons valid_ports_Cons) blast
  next
    case False
    define m' where "m' = (if pr_End m < pr_End c then m\<lparr>pr_End := pr_End c\<rparr> else m)"
    have start: "pr_Start m' = pr_Start m" by (simp add: m'_def)
    have cov: "in_range m' p \<longleftrightarrow> in_range m p \<or> in_range c p" for p
      using False mc m c by (auto simp: m'_def in_range_def)
    have "separated (rev (m' # ms))" using sep by (subst separated_rev_Cons) (simp add: start)
    moreover have "valid_ports (m' # ms)" using m c by (simp add: valid_ports_Cons m'_def)
    ultimately show ?thesis
      using 3(2) [OF False cs(1)] c mc(2) False
      by (simp add: covers_Cons cov start m'_def [symmetric]) blast
  qed
qed

lemma mergePorts_separated:
  "separated (rev acc @ cs) \<Longrightarrow> mergePorts acc cs = rev acc @ cs"
proof (induction acc cs rule: mergePorts.induct)
  case (3 m ms c cs)
  then have "pr_End m + 1 < pr_Start c" by (auto simp: separated_def sorted_wrt_append)
  with 3 show ?case by simp
qed auto

lemma sort_slice_sorted_id:
  "(\<And>a b. lt a b \<Longrightarrow> \<not> lt b a) \<Longrightarrow> sorted_wrt lt xs \<Longrightarrow> sort_slice lt xs = xs"
proof (induction xs)
  case (Cons x xs)
  then show ?case by (cases xs) auto
qed simp

lemma port_range_ok_iff:
  "port_range_ok p \<longleftrightarrow> (\<exists>r. p = Some r \<and> 1 \<le> pr_Start r \<and> pr_Start r \<le> pr_End r \<and> pr_End r \<le> 65535)"
  by (cases p) (auto simp: port_range_ok_def)

lemma ports_ok_valid: "list_all port_range_ok ports \<Longrightarrow> valid_ports (map the ports)"
  by (auto simp: list_all_iff port_range_ok_iff valid_ports_def)

lemma sorted_ports: "sorted_wrt (\<lambda>a b. pr_Start a \<le> pr_Start b) (sort_slice port_less ps)"
  using port_order.sort_slice_sorted [of ps]
  by (rule sorted_wrt_mono_rel [rotated]) (auto simp: port_less_def split: if_splits)

lemma normalizePorts_canonical:
  assumes "normalizePorts ports = Inr out"
  shows "separated out \<and> valid_ports out \<and> (\<forall>p. covers out p \<longleftrightarrow> covers (map the ports) p) \<and>
    list_all port_range_ok ports"
proof -
  let ?ps = "sort_slice port_less (map the ports)"
  have ok: "list_all port_range_ok ports" and out: "out = mergePorts [] ?ps"
    using assms by (auto simp: normalizePorts_def split: if_splits)
  have "valid_ports ?ps" using ports_ok_valid [OF ok] by (simp add: valid_ports_def)
  then have "separated out \<and> valid_ports out \<and> (\<forall>p. covers out p \<longleftrightarrow> covers [] p \<or> covers ?ps p)"
    unfolding out using sorted_ports
    by (intro mergePorts_spec) (simp_all add: separated_def valid_ports_def)
  with ok show ?thesis by (simp add: covers_def)
qed

lemma normalizePorts_fixed:
  assumes "separated rs" "valid_ports rs"
  shows "normalizePorts (map Some rs) = Inr rs"
proof -
  have "port_less a b" if "a \<in> set rs" "pr_End a + 1 < pr_Start b" for a b
    using that assms(2) by (auto simp: valid_ports_def port_less_def)
  then have "sorted_wrt port_less rs"
    using sorted_wrt_mono_rel [OF _ assms(1) [unfolded separated_def]] by blast
  then have "sort_slice port_less rs = rs"
    by (rule sort_slice_sorted_id [rotated]) (rule port_order.asym)
  moreover have "list_all port_range_ok (map Some rs)"
    using assms(2) by (auto simp: list_all_iff port_range_ok_iff valid_ports_def)
  ultimately show ?thesis
    using mergePorts_separated [of "[]" rs] assms(1) by (simp add: normalizePorts_def comp_def)
qed

section \<open>Canonical texts survive trimming\<close>

definition is_graphic :: "char \<Rightarrow> bool" where
  "is_graphic c \<longleftrightarrow> 33 \<le> byte c \<and> byte c \<le> 126"

lemma space_runes_not_graphic:
  "\<forall>w\<in>set space_runes. w \<noteq> [] \<and> \<not> is_graphic (hd w) \<and> \<not> is_graphic (last w)"
  by code_simp

lemma trim_space_Nil: "trim_space [] = []"
  by code_simp

lemma trim_space_graphic:
  assumes "list_all is_graphic s"
  shows "trim_space s = s"
proof (cases "s = []")
  case True
  then show ?thesis by (simp add: trim_space_Nil)
next
  case False
  then obtain c t where s: "s = c # t" "is_graphic c" using assms by (cases s) auto
  with space_runes_not_graphic have "trim_left s = s"
    unfolding trim_left_def by (auto intro: strip_hd)
  moreover obtain d u where r: "rev s = d # u" "is_graphic d"
    using False assms by (cases "rev s") (auto simp: list_all_iff dest: arg_cong [of _ _ set])
  with space_runes_not_graphic have "strip (map rev space_runes) (rev s) = rev s"
    by (auto simp: hd_rev intro!: strip_hd)
  ultimately show ?thesis by (simp add: trim_space_def trim_right_def)
qed

lemma digits_graphic: "list_all is_digit_char s \<Longrightarrow> list_all is_graphic s"
  by (auto simp: list_all_iff is_digit_char_def is_graphic_def)

lemma hex_graphic: "is_hex_char c \<or> c = CHR '':'' \<Longrightarrow> is_graphic c"
  by (auto simp: is_hex_char_def is_digit_char_def is_graphic_def byte_def)

lemma graphic_marks: "is_graphic (CHR ''.'')" "is_graphic (CHR '':'')" "is_graphic (CHR ''/'')"
  by (simp_all add: is_graphic_def byte_def)

lemma v4_text_graphic: "0 \<le> v \<Longrightarrow> v < 2 ^ 32 \<Longrightarrow> list_all is_graphic (v4_text v)"
  by (erule (1) v4_dotted)
    (simp add: dotted_def graphic_marks digits_graphic octet_round_trip(2) is_octet_def)

lemma v6_text_graphic: "list_all is_group gs \<Longrightarrow> list_all is_graphic (v6_text gs)"
proof -
  have g: "list_all is_graphic (groups_text hs)" if "list_all is_group hs" for hs
    using hex_text_special [OF that] hex_graphic by (auto simp: list_all_iff)
  assume gs: "list_all is_group gs"
  then have "list_all is_group (take a gs)" "list_all is_group (drop b gs)" for a b
    by (auto simp: list_all_iff dest: in_set_takeD in_set_dropD)
  then show ?thesis
    using g gs graphic_marks by (auto simp: v6_text_def groups_text_def split: option.split)
qed

lemma prefix_String_graphic:
  assumes "wf_addr (fst p)" "\<not> Is4In6 (fst p)"
  shows "list_all is_graphic (prefix_String p)"
proof -
  have "list_all is_graphic (addr_String (fst p))"
    using assms v4_text_graphic v6_text_graphic
    by (cases "fst p") (auto simp: addr_String_def wf_addr_def list_all_iff is_group_def)
  then show ?thesis
    using bits_round_trip(2) [of "snd p"] digits_graphic graphic_marks by (simp add: prefix_String_def)
qed

section \<open>Canonical CIDR rules\<close>

definition rule_key :: "cidr_rule \<Rightarrow> cidr_key" where
  "rule_key r = (cr_Cidr r, cr_Protocol r)"

definition canonical_prefix :: "string \<Rightarrow> cidr_prefix \<Rightarrow> bool" where
  "canonical_prefix s p \<longleftrightarrow>
     ParsePrefix s = Some p \<and> Masked p = p \<and> prefix_String p = s \<and> trim_space s = s \<and>
     \<not> Is4In6 (fst p) \<and> \<not> forbiddenPrefix p"

definition canonical_rule :: "cidr_rule \<Rightarrow> bool" where
  "canonical_rule r \<longleftrightarrow>
     (\<exists>p. canonical_prefix (cr_Cidr r) p) \<and> cr_Protocol r \<in> {EGRESS_TCP, EGRESS_UDP} \<and>
     (\<exists>ps. cr_Ports r = map Some ps \<and> ps \<noteq> [] \<and> separated ps \<and> valid_ports ps)"

definition canonical_cidrs :: "cidr_rule option list \<Rightarrow> bool" where
  "canonical_cidrs rules \<longleftrightarrow>
     (\<exists>rs. rules = map Some rs \<and> (\<forall>r\<in>set rs. canonical_rule r) \<and>
           sorted_wrt cidr_key_less (map rule_key rs))"

interpretation cidr_order: strict_weak_order cidr_key_less
  by unfold_locales (auto simp: cidr_key_less_def split: if_splits)

lemma masked_canonical:
  assumes "ParsePrefix s = Some p" "\<not> Is4In6 (fst p)" "\<not> forbiddenPrefix (Masked p)"
  shows "canonical_prefix (prefix_String (Masked p)) (Masked p)"
proof -
  have wf: "wf_addr (fst p)" using ParsePrefix_wf [OF assms(1)] by simp
  have "wf_addr (fst (Masked p))" using wf_mask [OF wf] by (simp add: Masked_def)
  moreover have "\<not> Is4In6 (fst (Masked p))"
    using Is4In6_mask [OF wf] assms(2) by (auto simp: Masked_def)
  ultimately show ?thesis
    using ParsePrefix_masked [OF assms(1,2)] assms(3) prefix_String_graphic trim_space_graphic
    by (simp add: canonical_prefix_def)
qed

lemma cidrEntry_Inr:
  "cidrEntry rule = Inr e \<longleftrightarrow>
     (\<exists>r p. rule = Some r \<and> ParsePrefix (trim_space (cr_Cidr r)) = Some p \<and> \<not> Is4In6 (fst p) \<and>
        \<not> forbiddenPrefix (Masked p) \<and> cr_Protocol r \<in> {EGRESS_TCP, EGRESS_UDP} \<and> cr_Ports r \<noteq> [] \<and>
        e = ((prefix_String (Masked p), cr_Protocol r), cr_Ports r))"
  by (auto simp: cidrEntry_def split: option.splits)

lemma covers_grouped:
  "covers (map the (grouped entries k)) p \<longleftrightarrow>
     (\<exists>e\<in>set entries. fst e = k \<and> covers (map the (snd e)) p)"
  unfolding covers_def grouped_def by (simp add: Bex_def) blast

lemma cidrRule_Inr:
  "cidrRule entries k = Inr x \<longleftrightarrow>
     (\<exists>ps. normalizePorts (grouped entries k) = Inr ps \<and>
           x = Some \<lparr>cr_Cidr = fst k, cr_Protocol = snd k, cr_Ports = map Some ps\<rparr>)"
  by (auto simp: cidrRule_def)

lemma rule_key_new: "rule_key \<lparr>cr_Cidr = fst k, cr_Protocol = snd k, cr_Ports = ps\<rparr> = k"
  by (simp add: rule_key_def)

text \<open>The rules made of the sorted keys, one per key.\<close>

lemma cidr_rules_shape:
  assumes "list_all2 (\<lambda>k x. cidrRule entries k = Inr x) keys out"
  shows "\<exists>rs. out = map Some rs \<and> map rule_key rs = keys \<and>
     (\<forall>r\<in>set rs. \<exists>ps. normalizePorts (grouped entries (rule_key r)) = Inr ps \<and> cr_Ports r = map Some ps)"
  using assms
proof (induction rule: list_all2_induct)
  case (Cons k ks x xs)
  then obtain rs where rs: "xs = map Some rs" "map rule_key rs = ks"
    "\<forall>r\<in>set rs. \<exists>ps. normalizePorts (grouped entries (rule_key r)) = Inr ps \<and> cr_Ports r = map Some ps"
    by auto
  obtain ps where ps: "normalizePorts (grouped entries k) = Inr ps"
    and x: "x = Some \<lparr>cr_Cidr = fst k, cr_Protocol = snd k, cr_Ports = map Some ps\<rparr>"
    using Cons(1) by (auto simp: cidrRule_Inr)
  show ?case
    by (rule exI [of _ "\<lparr>cr_Cidr = fst k, cr_Protocol = snd k, cr_Ports = map Some ps\<rparr> # rs"])
      (use rs ps x in \<open>simp add: rule_key_new\<close>)
qed simp

lemma normalizeCIDRs_Inr:
  assumes "normalizeCIDRs rules = Inr out"
  obtains entries rs where "list_all2 (\<lambda>r e. cidrEntry r = Inr e) rules entries"
    "out = map Some rs" "map rule_key rs = sort_slice cidr_key_less (remdups (map fst entries))"
    "\<And>r. r \<in> set rs \<Longrightarrow>
       \<exists>ps. normalizePorts (grouped entries (rule_key r)) = Inr ps \<and> cr_Ports r = map Some ps"
proof -
  obtain entries where e: "list_all2 (\<lambda>r e. cidrEntry r = Inr e) rules entries"
    and o: "list_all2 (\<lambda>k x. cidrRule entries k = Inr x)
              (sort_slice cidr_key_less (remdups (map fst entries))) out"
    using assms by (auto simp: normalizeCIDRs_def map_result_Inr_iff)
  from cidr_rules_shape [OF o] e that show ?thesis by blast
qed

lemma list_all2_set_right:
  "list_all2 P xs ys \<Longrightarrow> y \<in> set ys \<Longrightarrow> \<exists>x\<in>set xs. P x y"
  by (induction rule: list_all2_induct) auto

lemma list_all2_set_left:
  "list_all2 P xs ys \<Longrightarrow> x \<in> set xs \<Longrightarrow> \<exists>y\<in>set ys. P x y"
  by (induction rule: list_all2_induct) auto

lemma protocol_number_inject:
  "a \<in> {EGRESS_TCP, EGRESS_UDP} \<Longrightarrow> b \<in> {EGRESS_TCP, EGRESS_UDP} \<Longrightarrow>
   protocol_number a = protocol_number b \<Longrightarrow> a = b"
  by auto

lemma valid_ports_covers: "valid_ports rs \<Longrightarrow> rs \<noteq> [] \<Longrightarrow> \<exists>p. covers rs p"
  by (cases rs) (auto simp: valid_ports_Cons covers_Cons in_range_def)

lemma cidrEntry_canonical:
  assumes "cidrEntry rule = Inr e"
  shows "\<exists>p. canonical_prefix (fst (fst e)) p"
    and "snd (fst e) \<in> {EGRESS_TCP, EGRESS_UDP}" "snd e \<noteq> []"
proof -
  obtain r :: cidr_rule and p where "ParsePrefix (trim_space (cr_Cidr r)) = Some p" "\<not> Is4In6 (fst p)"
    "\<not> forbiddenPrefix (Masked p)" and pr: "cr_Protocol r \<in> {EGRESS_TCP, EGRESS_UDP}" "cr_Ports r \<noteq> []"
    and e: "e = ((prefix_String (Masked p), cr_Protocol r), cr_Ports r)"
    using assms [unfolded cidrEntry_Inr] by (elim exE conjE) (rule that)
  then show "\<exists>p. canonical_prefix (fst (fst e)) p"
    using masked_canonical by (metis fst_conv)
  show "snd (fst e) \<in> {EGRESS_TCP, EGRESS_UDP}" "snd e \<noteq> []"
    using pr by (simp_all add: e)
qed

lemma merged_ports_canonical:
  assumes "normalizePorts (grouped entries k) = Inr ps" "x \<in> set entries" "fst x = k" "snd x \<noteq> []"
  shows "ps \<noteq> [] \<and> separated ps \<and> valid_ports ps"
proof -
  note np = normalizePorts_canonical [OF assms(1)]
  have "valid_ports (map the (grouped entries k))" using np ports_ok_valid by blast
  moreover have "\<exists>y\<in>set entries. fst y = k \<and> snd y \<noteq> []" using assms(2,3,4) by blast
  then have "grouped entries k \<noteq> []" by (auto simp: grouped_def)
  ultimately obtain p where "covers ps p"
    using np valid_ports_covers [of "map the (grouped entries k)"] by auto
  then show ?thesis using np by (auto simp: covers_def)
qed

lemma sorted_keys:
  assumes "\<And>k. k \<in> set keys \<Longrightarrow> snd k \<in> {EGRESS_TCP, EGRESS_UDP}"
  shows "sorted_wrt cidr_key_less (sort_slice cidr_key_less (remdups keys))"
proof (rule cidr_order.sorted_strict [OF cidr_order.sort_slice_sorted])
  fix a b
  assume "a \<in> set (sort_slice cidr_key_less (remdups keys))"
    "b \<in> set (sort_slice cidr_key_less (remdups keys))" and ne: "a \<noteq> b"
  then have "snd a \<in> {EGRESS_TCP, EGRESS_UDP}" "snd b \<in> {EGRESS_TCP, EGRESS_UDP}"
    using assms by (simp_all del: insert_iff)
  with ne show "cidr_key_less a b \<or> cidr_key_less b a"
    using protocol_number_inject [of "snd a" "snd b"]
    by (cases a; cases b) (auto simp: cidr_key_less_def)
qed simp

lemma normalizeCIDRs_canonical:
  assumes "normalizeCIDRs rules = Inr out"
  shows "canonical_cidrs out"
proof -
  obtain entries rs where e: "list_all2 (\<lambda>r e. cidrEntry r = Inr e) rules entries"
    and out: "out = map Some rs"
    and keys: "map rule_key rs = sort_slice cidr_key_less (remdups (map fst entries))"
    and ports: "\<And>r. r \<in> set rs \<Longrightarrow>
       \<exists>ps. normalizePorts (grouped entries (rule_key r)) = Inr ps \<and> cr_Ports r = map Some ps"
    using assms by (rule normalizeCIDRs_Inr) blast
  have entry: "\<exists>p. canonical_prefix (fst (fst x)) p" "snd (fst x) \<in> {EGRESS_TCP, EGRESS_UDP}"
    "snd x \<noteq> []" if "x \<in> set entries" for x
    using list_all2_set_right [OF e that] cidrEntry_canonical by blast+
  have canon: "canonical_rule r" if r: "r \<in> set rs" for r
  proof -
    have "rule_key r \<in> set (map rule_key rs)" using r by simp
    then obtain x where x: "x \<in> set entries" "fst x = rule_key r" by (auto simp: keys)
    obtain ps where ps: "normalizePorts (grouped entries (rule_key r)) = Inr ps"
      "cr_Ports r = map Some ps" using ports [OF r] by blast
    have "ps \<noteq> [] \<and> separated ps \<and> valid_ports ps"
      using merged_ports_canonical [OF ps(1) x] entry(3) [OF x(1)] by blast
    then show ?thesis
      using entry(1,2) [OF x(1)] ps(2) x(2) unfolding canonical_rule_def rule_key_def by auto
  qed
  have "sorted_wrt cidr_key_less (map rule_key rs)"
    unfolding keys
  proof (rule sorted_keys)
    fix k assume "k \<in> set (map fst entries)"
    then obtain x where "x \<in> set entries" "k = fst x" by (auto simp only: set_map image_iff)
    then show "snd k \<in> {EGRESS_TCP, EGRESS_UDP}" using entry(2) by blast
  qed
  with canon out show ?thesis by (auto simp: canonical_cidrs_def)
qed

text \<open>Canonical rules are a fixed point.\<close>

lemma canonical_entry:
  assumes "canonical_rule r"
  shows "cidrEntry (Some r) = Inr (rule_key r, cr_Ports r)"
proof -
  obtain p where p: "ParsePrefix (cr_Cidr r) = Some p" "Masked p = p" "prefix_String p = cr_Cidr r"
    "trim_space (cr_Cidr r) = cr_Cidr r" "\<not> Is4In6 (fst p)" "\<not> forbiddenPrefix p"
    using assms unfolding canonical_rule_def canonical_prefix_def by blast
  show ?thesis
    unfolding cidrEntry_Inr
    by (rule exI [of _ r], rule exI [of _ p])
      (use p assms in \<open>auto simp: canonical_rule_def rule_key_def\<close>)
qed

lemma grouped_distinct:
  assumes "distinct (map rule_key rs)" "r \<in> set rs"
  shows "grouped (map (\<lambda>r. (rule_key r, cr_Ports r)) rs) (rule_key r) = cr_Ports r"
  using assms
proof (induction rs)
  case (Cons q rs)
  show ?case
  proof (cases "r = q")
    case True
    then have "filter (\<lambda>e. fst e = rule_key r) (map (\<lambda>r. (rule_key r, cr_Ports r)) rs) = []"
      using Cons.prems(1) by (fastforce simp: filter_empty_conv image_iff)
    then show ?thesis using True by (simp add: grouped_def)
  next
    case False
    then have "rule_key q \<noteq> rule_key r" using Cons.prems by auto
    then show ?thesis using Cons False by (simp add: grouped_def)
  qed
qed simp

lemma normalizeCIDRs_fixed:
  assumes "canonical_cidrs rules"
  shows "normalizeCIDRs rules = Inr rules"
proof -
  obtain rs where rs: "rules = map Some rs" and canon: "\<And>r. r \<in> set rs \<Longrightarrow> canonical_rule r"
    and sorted: "sorted_wrt cidr_key_less (map rule_key rs)"
    using assms by (auto simp: canonical_cidrs_def)
  let ?es = "map (\<lambda>r. (rule_key r, cr_Ports r)) rs"
  have entries: "map_result cidrEntry rules = Inr ?es"
    unfolding map_result_Inr_iff rs using canon canonical_entry
    by (simp add: list_all2_map1 list_all2_map2 list_all2_same)
  have dist: "distinct (map rule_key rs)"
    using sorted cidr_order.irrefl
    by (metis (mono_tags, lifting) distinct_conv_nth nat_neq_iff sorted_wrt_iff_nth_less)
  have keys: "sort_slice cidr_key_less (remdups (map fst ?es)) = map rule_key rs"
    using sort_slice_sorted_id [OF cidr_order.asym sorted] dist
    by (simp add: comp_def distinct_remdups_id)
  have "cidrRule ?es (rule_key r) = Inr (Some r)" if r: "r \<in> set rs" for r
  proof -
    obtain ps where ps: "cr_Ports r = map Some ps" "separated ps" "valid_ports ps"
      using canon [OF r] by (auto simp: canonical_rule_def)
    then have "normalizePorts (grouped ?es (rule_key r)) = Inr ps"
      using normalizePorts_fixed grouped_distinct [OF dist r] by simp
    then show ?thesis
      unfolding cidrRule_Inr using ps(1) by (cases r) (simp add: rule_key_def)
  qed
  then have "map_result (cidrRule ?es) (map rule_key rs) = Inr (map Some rs)"
    unfolding map_result_Inr_iff by (simp add: list_all2_map1 list_all2_map2 list_all2_same)
  then show ?thesis by (simp only: normalizeCIDRs_def entries bind_result.simps keys) (simp add: rs)
qed

section \<open>What a rule list grants\<close>

text \<open>An address is reachable on a protocol and port when some rule's prefix contains it and
  one of its ranges has the port.\<close>

definition grants :: "cidr_rule option list \<Rightarrow> addr \<Rightarrow> egress_protocol \<Rightarrow> int \<Rightarrow> bool" where
  "grants rules a protocol port \<longleftrightarrow>
     (\<exists>r p. Some r \<in> set rules \<and> ParsePrefix (trim_space (cr_Cidr r)) = Some p \<and>
        prefix_Contains p a \<and> cr_Protocol r = protocol \<and> covers (map the (cr_Ports r)) port)"

lemma contains_masked: "prefix_Contains (Masked p) a \<longleftrightarrow> prefix_Contains p a"
  by (simp add: prefix_Contains_def Masked_def)

lemma grants_entries:
  assumes "list_all2 (\<lambda>r e. cidrEntry r = Inr e) rules entries"
  shows "grants rules a protocol port \<longleftrightarrow>
     (\<exists>e\<in>set entries. \<exists>p. ParsePrefix (fst (fst e)) = Some p \<and> prefix_Contains p a \<and>
        snd (fst e) = protocol \<and> covers (map the (snd e)) port)"
proof -
  have e: "ParsePrefix (fst (fst e)) = Some (Masked p) \<and> snd (fst e) = cr_Protocol r \<and> snd e = cr_Ports r"
    if "cidrEntry (Some r) = Inr e" "ParsePrefix (trim_space (cr_Cidr r)) = Some p" for r p e
    using that ParsePrefix_masked [of "trim_space (cr_Cidr r)" p] by (auto simp: cidrEntry_Inr)
  show ?thesis
  proof
    assume "grants rules a protocol port"
    then obtain r p where r: "Some r \<in> set rules" "ParsePrefix (trim_space (cr_Cidr r)) = Some p"
      "prefix_Contains p a" "cr_Protocol r = protocol" "covers (map the (cr_Ports r)) port"
      by (auto simp: grants_def)
    then obtain x where "x \<in> set entries" "cidrEntry (Some r) = Inr x"
      using list_all2_set_left [OF assms] by blast
    with e r contains_masked show "\<exists>e\<in>set entries. \<exists>p. ParsePrefix (fst (fst e)) = Some p \<and>
        prefix_Contains p a \<and> snd (fst e) = protocol \<and> covers (map the (snd e)) port"
      by (metis (no_types, lifting))
  next
    assume "\<exists>e\<in>set entries. \<exists>p. ParsePrefix (fst (fst e)) = Some p \<and>
        prefix_Contains p a \<and> snd (fst e) = protocol \<and> covers (map the (snd e)) port"
    then obtain x p where x: "x \<in> set entries" "ParsePrefix (fst (fst x)) = Some p" "prefix_Contains p a"
      "snd (fst x) = protocol" "covers (map the (snd x)) port" by blast
    then obtain r q where r: "Some r \<in> set rules" "cidrEntry (Some r) = Inr x"
      "ParsePrefix (trim_space (cr_Cidr r)) = Some q"
      using list_all2_set_right [OF assms x(1)] by (auto simp: cidrEntry_Inr)
    with e [OF r(2,3)] x contains_masked show "grants rules a protocol port"
      unfolding grants_def by (metis option.inject)
  qed
qed

lemma normalizeCIDRs_grants:
  assumes "normalizeCIDRs rules = Inr out"
  shows "grants out a protocol port \<longleftrightarrow> grants rules a protocol port"
proof -
  obtain entries rs where e: "list_all2 (\<lambda>r e. cidrEntry r = Inr e) rules entries"
    and out: "out = map Some rs"
    and keys: "map rule_key rs = sort_slice cidr_key_less (remdups (map fst entries))"
    and ports: "\<And>r. r \<in> set rs \<Longrightarrow>
       \<exists>ps. normalizePorts (grouped entries (rule_key r)) = Inr ps \<and> cr_Ports r = map Some ps"
    using assms by (rule normalizeCIDRs_Inr) blast
  have canon: "canonical_rule r" if "r \<in> set rs" for r
    using normalizeCIDRs_canonical [OF assms] that out by (auto simp: canonical_cidrs_def)
  have trim: "trim_space (cr_Cidr r) = cr_Cidr r" if "r \<in> set rs" for r
    using canon [OF that] by (auto simp: canonical_rule_def canonical_prefix_def)
  have key_set: "rule_key ` set rs = fst ` set entries"
    using arg_cong [OF keys, of set] by simp
  have cov: "covers (map the (cr_Ports r)) port \<longleftrightarrow>
      (\<exists>x\<in>set entries. fst x = rule_key r \<and> covers (map the (snd x)) port)" if r: "r \<in> set rs" for r
  proof -
    obtain ps where ps: "normalizePorts (grouped entries (rule_key r)) = Inr ps" "cr_Ports r = map Some ps"
      using ports [OF r] by blast
    then have "map the (cr_Ports r) = ps" by (simp add: comp_def)
    then show ?thesis
      using normalizePorts_canonical [OF ps(1)] covers_grouped [of entries "rule_key r" port] by simp
  qed
  define granting where "granting x \<longleftrightarrow> (\<exists>p. ParsePrefix (fst (fst x)) = Some p \<and>
      prefix_Contains p a \<and> snd (fst x) = protocol \<and> covers (map the (snd x)) port)"
    for x :: "cidr_key \<times> port_range option list"
  have "grants out a protocol port \<longleftrightarrow>
      (\<exists>r\<in>set rs. \<exists>p. ParsePrefix (cr_Cidr r) = Some p \<and> prefix_Contains p a \<and>
         cr_Protocol r = protocol \<and> covers (map the (cr_Ports r)) port)"
    by (simp add: grants_def out Bex_def image_iff trim cong: conj_cong)
  also have "\<dots> \<longleftrightarrow> (\<exists>r\<in>set rs. \<exists>x\<in>set entries. fst x = rule_key r \<and> granting x)"
  proof (rule bex_cong [OF refl])
    fix r assume r: "r \<in> set rs"
    show "(\<exists>p. ParsePrefix (cr_Cidr r) = Some p \<and> prefix_Contains p a \<and>
         cr_Protocol r = protocol \<and> covers (map the (cr_Ports r)) port) \<longleftrightarrow>
      (\<exists>x\<in>set entries. fst x = rule_key r \<and> granting x)"
      unfolding cov [OF r] granting_def by (metis (no_types, lifting) fst_conv snd_conv rule_key_def)
  qed
  also have "\<dots> \<longleftrightarrow> (\<exists>x\<in>set entries. granting x)"
    using key_set by (metis (no_types, lifting) image_iff imageI)
  finally show ?thesis using grants_entries [OF e] by (simp add: granting_def)
qed

section \<open>Canonical domains\<close>

definition is_ldh :: "char \<Rightarrow> bool" where
  "is_ldh c \<longleftrightarrow> is_alnum c \<or> c = CHR ''-'' \<or> c = CHR ''.''"

text \<open>What the policy relies on of the IDNA conversion (\<open>idna.Lookup.ToASCII\<close>, a profile
  with strict domain names): a result has letters, digits, hyphens and dots only, and a result
  in lower case is its own conversion.\<close>

definition idna_contract :: "(string \<Rightarrow> string option) \<Rightarrow> bool" where
  "idna_contract idna \<longleftrightarrow>
     (\<forall>s t. idna s = Some t \<longrightarrow>
        list_all is_ldh t \<and> idna (map lower_char t) = Some (map lower_char t))"

lemma ldh_chars:
  assumes "is_ldh c"
  shows "is_graphic c" "c \<noteq> CHR ''*''" "c \<notin> set bad_domain_chars" "byte c < 128"
  using assms
  by (auto simp: is_ldh_def is_alnum_def is_lower_char_def is_upper_char_def is_digit_char_def
        is_graphic_def bad_domain_chars_def byte_def)

lemma ldh_lower: "is_ldh c \<Longrightarrow> is_ldh (lower_char c)"
  by (auto simp: is_ldh_def is_alnum_def lower_char_def is_upper_char_def is_lower_char_def
        is_digit_char_def byte_def take_bit_nat_eq_self)

lemma ascii_valid_utf8: "is_ascii s \<Longrightarrow> valid_utf8 s"
proof (induction s)
  case (Cons c s)
  then have "rune_len (c # s) = 1" by (simp add: is_ascii_def lead_len_def Let_def)
  then show ?case using Cons by (simp add: valid_utf8.simps [of "c # s"] is_ascii_def)
qed simp

lemma split_on_snoc_sep: "split_on c (s @ [c]) = split_on c s @ [[]]"
proof (induction s)
  case (Cons x s)
  then show ?case by (cases "split_on c s") auto
qed simp

text \<open>The names \<open>normalizeDomain\<close> returns, without their wildcard.\<close>

definition domain_name :: "string \<Rightarrow> bool" where
  "domain_name a \<longleftrightarrow>
     list_all is_ldh a \<and> map lower_char a = a \<and> length a \<le> 253 \<and>
     list_all (\<lambda>l. l \<noteq> [] \<and> length l \<le> 63) (split_on (CHR ''.'') a) \<and> ParseAddr a = None"

lemma domain_name_value:
  assumes "domain_name a" "pre = [] \<or> pre = ''*.''"
  shows "domain_value (pre @ a) = pre @ a" "valid_utf8 (pre @ a)"
proof -
  have ldh: "\<forall>c\<in>set a. is_ldh c" using assms(1) by (simp add: domain_name_def list_all_iff)
  have ne: "a \<noteq> []" using assms(1) by (auto simp: domain_name_def)
  have "last a \<noteq> CHR ''.''"
  proof
    assume "last a = CHR ''.''"
    then have "a = butlast a @ [CHR ''.'']" using ne by (metis append_butlast_last_id)
    then have "split_on (CHR ''.'') a = split_on (CHR ''.'') (butlast a) @ [[]]"
      using split_on_snoc_sep by metis
    with assms(1) show False by (auto simp: domain_name_def list_all_iff)
  qed
  then have "\<not> suffix ''.'' (pre @ a)" using ne by (metis last_appendR last_snoc suffix_def)
  moreover have "list_all is_graphic (pre @ a)"
    using ldh ldh_chars(1) assms(2) by (auto simp: list_all_iff is_graphic_def byte_def)
  ultimately show "domain_value (pre @ a) = pre @ a"
    by (simp add: domain_value_def trim_space_graphic trim_suffix_def)
  have "is_ascii (pre @ a)"
    using ldh ldh_chars(4) assms(2) by (auto simp: is_ascii_def list_all_iff byte_def)
  then show "valid_utf8 (pre @ a)" by (rule ascii_valid_utf8)
qed

lemma normalizeDomain_fixed:
  assumes "domain_name a" "idna a = Some a" "pre = [] \<or> pre = ''*.''"
  shows "normalizeDomain ul idna (pre @ a) = Inr (pre @ a)"
proof -
  have ldh: "\<forall>c\<in>set a. is_ldh c" using assms(1) by (simp add: domain_name_def list_all_iff)
  have ne: "a \<noteq> []" using assms(1) by (auto simp: domain_name_def)
  then have "hd a \<noteq> CHR ''*''" using ldh ldh_chars(2) by (metis list.set_sel(1))
  then have pre: "prefix ''*.'' (pre @ a) \<longleftrightarrow> pre = ''*.''" "trim_prefix ''*.'' (pre @ a) = a"
    using assms(3) ne by (cases a; auto simp: trim_prefix_def)+
  have clean: "\<not> (a = [] \<or> CHR ''*'' \<in> set a \<or> list_ex (\<lambda>c. c \<in> set bad_domain_chars) a)"
    using ne ldh ldh_chars by (auto simp: list_ex_iff)
  have "is_ascii a" using ldh ldh_chars(4) by (auto simp: is_ascii_def list_all_iff)
  then have low: "to_lower ul a = a" using assms(1) by (simp add: to_lower_def domain_name_def)
  have labels: "\<not> list_ex (\<lambda>label. label = [] \<or> 63 < length label) (split_on (CHR ''.'') a)"
    using assms(1) by (auto simp: domain_name_def list_all_iff list_ex_iff)
  show ?thesis
    using domain_name_value [OF assms(1,3)] pre clean labels low assms
    by (auto simp: normalizeDomain_def Let_def domain_name_def)
qed

lemma normalizeDomain_name:
  assumes "idna_contract idna" "normalizeDomain ul idna raw = Inr d"
  obtains pre a where "d = pre @ a" "pre = [] \<or> pre = ''*.''" "domain_name a" "idna a = Some a"
proof -
  define name where "name = trim_prefix ''*.'' (domain_value raw)"
  obtain t where t: "idna name = Some t" and d: "d = (if prefix ''*.'' (domain_value raw)
      then ''*.'' @ to_lower ul t else to_lower ul t)"
    and lim: "\<not> 253 < length (to_lower ul t)"
      "\<not> list_ex (\<lambda>label. label = [] \<or> 63 < length label) (split_on (CHR ''.'') (to_lower ul t))"
      "ParseAddr (to_lower ul t) = None"
    using assms(2) unfolding normalizeDomain_def Let_def name_def [symmetric]
    by (auto split: if_splits option.splits)
  have ldh: "list_all is_ldh t" and fixed: "idna (map lower_char t) = Some (map lower_char t)"
    using assms(1) t by (auto simp: idna_contract_def)
  have low: "to_lower ul t = map lower_char t"
    using ldh ldh_chars(4) by (auto simp: to_lower_def is_ascii_def list_all_iff)
  have "domain_name (map lower_char t)"
    using lim [unfolded low] ldh ldh_lower
    by (auto simp: domain_name_def list_all_iff list_ex_iff not_less)
  with fixed d [unfolded low] show ?thesis
    using that [of "[]"] that [of "''*.''"] by (auto split: if_splits)
qed

definition canonical_domains :: "(string \<Rightarrow> string) \<Rightarrow> (string \<Rightarrow> string option) \<Rightarrow> string list \<Rightarrow> bool" where
  "canonical_domains ul idna ds \<longleftrightarrow>
     sorted_wrt (<) ds \<and> (\<forall>d\<in>set ds. normalizeDomain ul idna d = Inr d)"

lemma normalizeDomains_canonical:
  assumes "idna_contract idna" "normalizeDomains ul idna rules = Inr ds"
  shows "canonical_domains ul idna ds"
proof -
  obtain xs where xs: "list_all2 (\<lambda>r d. normalizeDomain ul idna r = Inr d) rules xs"
    and ds: "ds = sort (remdups xs)"
    using assms(2) by (auto simp: normalizeDomains_def map_result_Inr_iff)
  have "normalizeDomain ul idna d = Inr d" if "d \<in> set xs" for d
  proof -
    obtain r where "normalizeDomain ul idna r = Inr d"
      using list_all2_set_right [OF xs \<open>d \<in> set xs\<close>] by blast
    with assms(1) obtain pre a where "d = pre @ a" "pre = [] \<or> pre = ''*.''" "domain_name a"
      "idna a = Some a" by (rule normalizeDomain_name)
    then show ?thesis using normalizeDomain_fixed by simp
  qed
  then show ?thesis
    by (simp add: canonical_domains_def ds strict_sorted_iff)
qed

lemma normalizeDomains_fixed:
  assumes "canonical_domains ul idna ds"
  shows "normalizeDomains ul idna ds = Inr ds"
proof -
  have "map_result (normalizeDomain ul idna) ds = Inr ds"
    unfolding map_result_Inr_iff using assms by (simp add: canonical_domains_def list_all2_same)
  moreover have "sorted ds" "distinct ds"
    using assms by (auto simp: canonical_domains_def strict_sorted_iff)
  ultimately show ?thesis
    by (simp add: normalizeDomains_def sorted_sort_id distinct_remdups_id)
qed

section \<open>Canonical policies\<close>

text \<open>The normal form: a known mode; no policy with the host and isolated modes; a strict policy
  has at least one rule, sorted and distinct domains and merged CIDR rules; a deny policy has at
  least one domain; at most \<open>MaxRules\<close> rules.\<close>

definition canonical_policy ::
  "(string \<Rightarrow> string) \<Rightarrow> (string \<Rightarrow> string option) \<Rightarrow> egress_policy \<Rightarrow> bool" where
  "canonical_policy ul idna p =
     (case p of
        PolicyStrict (Some s) \<Rightarrow>
          \<not> strict_empty s \<and> canonical_domains ul idna (sp_AllowedDomains s) \<and>
          canonical_cidrs (sp_AllowedCidrs s) \<and>
          length (sp_AllowedDomains s) + length (sp_AllowedCidrs s) \<le> MaxRules
      | PolicyDnsDeny (Some d) \<Rightarrow>
          dp_DeniedDomains d \<noteq> [] \<and> canonical_domains ul idna (dp_DeniedDomains d) \<and>
          length (dp_DeniedDomains d) \<le> MaxRules
      | _ \<Rightarrow> False)"

definition canonical_network ::
  "(string \<Rightarrow> string) \<Rightarrow> (string \<Rightarrow> string option) \<Rightarrow> network_spec option \<Rightarrow> bool" where
  "canonical_network ul idna spec =
     (case spec of
        None \<Rightarrow> True
      | Some i \<Rightarrow> known_mode (ns_Mode i) \<and>
          (case ns_EgressPolicy i of
             None \<Rightarrow> True
           | Some p \<Rightarrow> ns_Mode i \<notin> {NM_HOST, NM_ISOLATED} \<and> canonical_policy ul idna p))"

lemma normalizeStrict_canonical:
  assumes "idna_contract idna" "normalizeStrict ul idna body = Inr s"
  shows "canonical_domains ul idna (sp_AllowedDomains s) \<and> canonical_cidrs (sp_AllowedCidrs s) \<and>
     length (sp_AllowedDomains s) + length (sp_AllowedCidrs s) \<le> MaxRules"
  using assms(2) normalizeDomains_canonical [OF assms(1)] normalizeCIDRs_canonical
  by (auto simp: normalizeStrict_def not_less split: option.splits if_splits)

lemma normalizeDNSDeny_canonical:
  assumes "idna_contract idna" "normalizeDNSDeny ul idna body = Inr d"
  shows "dp_DeniedDomains d \<noteq> [] \<and> canonical_domains ul idna (dp_DeniedDomains d) \<and>
     length (dp_DeniedDomains d) \<le> MaxRules"
  using assms(2) normalizeDomains_canonical [OF assms(1)]
  by (auto simp: normalizeDNSDeny_def not_less split: option.splits if_splits)

lemma NormalizeNetwork_canonical:
  assumes "idna_contract idna" "NormalizeNetwork ul idna spec = Inr out"
  shows "canonical_network ul idna out"
proof (cases spec)
  case None
  then show ?thesis using assms(2) by (simp add: NormalizeNetwork_def canonical_network_def)
next
  case (Some i)
  have iso: "known_mode NM_ISOLATED" by (simp add: known_mode_def)
  show ?thesis
    using assms(2) Some iso normalizeStrict_canonical [OF assms(1)] normalizeDNSDeny_canonical [OF assms(1)]
    by (auto simp: NormalizeNetwork_def canonical_network_def canonical_policy_def Let_def
          split: if_splits option.splits egress_policy.splits)
qed

lemma canonical_strict_fixed:
  "canonical_policy ul idna (PolicyStrict (Some s)) \<Longrightarrow> normalizeStrict ul idna (Some s) = Inr s"
  by (simp add: canonical_policy_def normalizeStrict_def normalizeDomains_fixed normalizeCIDRs_fixed)

lemma canonical_deny_fixed:
  "canonical_policy ul idna (PolicyDnsDeny (Some d)) \<Longrightarrow> normalizeDNSDeny ul idna (Some d) = Inr d"
  by (simp add: canonical_policy_def normalizeDNSDeny_def normalizeDomains_fixed)

lemma canonical_network_fixed:
  assumes "canonical_network ul idna spec"
  shows "NormalizeNetwork ul idna spec = Inr spec"
proof (cases spec)
  case None
  then show ?thesis by (simp add: NormalizeNetwork_def)
next
  case (Some i)
  have mode: "known_mode (ns_Mode i)" using assms Some by (simp add: canonical_network_def)
  show ?thesis
  proof (cases "ns_EgressPolicy i")
    case None
    then show ?thesis using Some mode by (cases i) (simp add: NormalizeNetwork_def Let_def)
  next
    case (Some p)
    then have p: "ns_Mode i \<notin> {NM_HOST, NM_ISOLATED}" "canonical_policy ul idna p"
      using assms \<open>spec = Some i\<close> by (simp_all add: canonical_network_def)
    then consider s where "p = PolicyStrict (Some s)" | d where "p = PolicyDnsDeny (Some d)"
      by (auto simp: canonical_policy_def split: egress_policy.splits option.splits)
    then show ?thesis
    proof cases
      case (1 s)
      then have "\<not> strict_empty s" using p(2) by (simp add: canonical_policy_def)
      then show ?thesis
        using 1 p mode Some \<open>spec = Some i\<close> canonical_strict_fixed [of ul idna s]
        by (cases i) (simp add: NormalizeNetwork_def Let_def)
    next
      case (2 d)
      then show ?thesis
        using p mode Some \<open>spec = Some i\<close> canonical_deny_fixed [of ul idna d]
        by (cases i) (simp add: NormalizeNetwork_def Let_def)
    qed
  qed
qed

section \<open>Properties\<close>

text \<open>What a network specification lets a sandbox reach by address: nothing when isolated,
  the granted addresses and ports under a strict policy, everything otherwise (a DNS deny policy
  does not restrict addresses).\<close>

definition network_grants :: "network_spec option \<Rightarrow> addr \<Rightarrow> egress_protocol \<Rightarrow> int \<Rightarrow> bool" where
  "network_grants spec a protocol port =
     (case spec of
        None \<Rightarrow> True
      | Some i \<Rightarrow>
          ns_Mode i \<noteq> NM_ISOLATED \<and>
          (case GetStrict (ns_EgressPolicy i) of
             None \<Rightarrow> True
           | Some s \<Rightarrow> grants (sp_AllowedCidrs s) a protocol port))"

definition sample_idna :: "string \<Rightarrow> string option" where
  "sample_idna s = (if list_all is_ldh s then Some s else None)"

lemma sample_idna_contract: "idna_contract sample_idna"
  by (auto simp: idna_contract_def sample_idna_def list_all_iff ldh_lower split: if_splits)

definition sample_spec :: "network_spec option" where
  "sample_spec =
     Some \<lparr>ns_Mode = NM_DEFAULT,
           ns_EgressPolicy = Some (PolicyStrict (Some
             \<lparr>sp_AllowedDomains = [''Example.com.''],
              sp_AllowedCidrs =
                [Some \<lparr>cr_Cidr = ''10.1.2.3/8'', cr_Protocol = EGRESS_TCP,
                       cr_Ports = [Some \<lparr>pr_Start = 80, pr_End = 90\<rparr>]\<rparr>,
                 Some \<lparr>cr_Cidr = ''10.0.0.0/8'', cr_Protocol = EGRESS_TCP,
                       cr_Ports = [Some \<lparr>pr_Start = 91, pr_End = 95\<rparr>]\<rparr>]\<rparr>))\<rparr>"

definition sample_normal :: "network_spec option" where
  "sample_normal =
     Some \<lparr>ns_Mode = NM_DEFAULT,
           ns_EgressPolicy = Some (PolicyStrict (Some
             \<lparr>sp_AllowedDomains = [''example.com''],
              sp_AllowedCidrs =
                [Some \<lparr>cr_Cidr = ''10.0.0.0/8'', cr_Protocol = EGRESS_TCP,
                       cr_Ports = [Some \<lparr>pr_Start = 80, pr_End = 95\<rparr>]\<rparr>]\<rparr>))\<rparr>"

lemma sample_normalizes: "NormalizeNetwork (\<lambda>s. s) sample_idna sample_spec = Inr sample_normal"
  by code_simp

text \<open>C26. Normalisation returns the deterministic representation its contract promises: when it
  succeeds, the result is in normal form (known mode, no policy beside the host and isolated
  modes, sorted distinct domains, canonical CIDR texts outside the reserved ranges in increasing
  order, port ranges in order with a gap between neighbours, at most 256 rules, an empty strict
  policy turned into the isolated mode), and normalising it again returns it unchanged.\<close>

theorem network_policy_normal_form:
  assumes "idna_contract idna" "NormalizeNetwork ul idna spec = Inr out"
  shows "canonical_network ul idna out \<and> NormalizeNetwork ul idna out = Inr out"
  using NormalizeNetwork_canonical [OF assms] canonical_network_fixed by blast

theorem network_policy_normal_form_witness:
  "canonical_network (\<lambda>s. s) sample_idna sample_normal \<and>
   NormalizeNetwork (\<lambda>s. s) sample_idna sample_normal = Inr sample_normal"
  by (rule network_policy_normal_form [OF sample_idna_contract sample_normalizes])

text \<open>C27. Normalisation changes no authority: for every address, protocol and port, the
  normalised specification lets the sandbox reach it exactly when the specification it was made
  from does.\<close>

theorem network_policy_grants_preserved:
  assumes "NormalizeNetwork ul idna spec = Inr out"
  shows "network_grants out a protocol port \<longleftrightarrow> network_grants spec a protocol port"
proof (cases spec)
  case None
  then show ?thesis using assms by (simp add: NormalizeNetwork_def)
next
  case (Some i)
  have strict: "grants (sp_AllowedCidrs s') a protocol port \<longleftrightarrow> grants (sp_AllowedCidrs s) a protocol port"
    if "normalizeStrict ul idna (Some s) = Inr s'" for s s'
    using that normalizeCIDRs_grants by (auto simp: normalizeStrict_def split: if_splits)
  have none: "\<not> grants (sp_AllowedCidrs s) a protocol port" if "strict_empty s" for s
    using that by (simp add: strict_empty_def grants_def)
  have "normalizeStrict ul idna None \<noteq> Inr s'" for s' by (simp add: normalizeStrict_def)
  then show ?thesis
    using assms Some strict none
    by (auto simp: NormalizeNetwork_def network_grants_def Let_def
          split: if_splits option.splits egress_policy.splits)
qed

theorem network_policy_grants_preserved_witness:
  "network_grants sample_normal (V4 167838211) EGRESS_TCP 91 \<longleftrightarrow>
   network_grants sample_spec (V4 167838211) EGRESS_TCP 91"
  by (rule network_policy_grants_preserved [OF sample_normalizes])

end
