(* ===== verification/Execution_Config.thy ===== *)
theory Execution_Config
  imports Go_Path Network_Policy Placement_Engine Capability_Requirements
begin

text \<open>
  The execution configuration of a run (\<open>kernel/execution\<close>), the resolution of an
  environment (\<open>kernel/environment\<close>), and the placement request the selector builds
  from both (\<open>placement/selector_request.go\<close>).

  \<open>ul\<close> is the case table of \<open>strings.ToLower\<close> and \<open>idna\<close> the
  conversion of \<open>golang.org/x/net/idna\<close>, as in the theories this one uses. Getters of
  nil messages return zero values, so a nil message is \<open>None\<close> and its getter the
  zero value. Copies (\<open>proto.Clone\<close>) are identities on values.

  The lemmas show that a normalised configuration carries a positive claim within its
  limits, declares each output once, and always yields a placement request.
\<close>

section \<open>Configuration messages\<close>

record resource_spec =
  rs_Requests :: "resource_quantity option"
  rs_Limits :: "resource_quantity option"

record secret_env_var =
  sv_Name :: string
  sv_SecretID :: string
  sv_Key :: string
  sv_Optional :: bool

record secret_file =
  sf_Path :: string
  sf_SecretID :: string
  sf_Key :: string
  sf_Mode :: int
  sf_Optional :: bool

record image_mount =
  im_Image :: string
  im_Target :: string

datatype output_format = OF_UNSPECIFIED | OF_FILE | OF_TAR | OF_OTHER int

record declared_output =
  do_Path :: string
  do_Format :: output_format
  do_MediaType :: string

text \<open>\<open>RootfsSnapshot\<close> has no fields: only whether it is set matters.\<close>

record execution_config =
  ec_Argv :: "string list"
  ec_Env :: "(string \<times> string) list"
  ec_Cwd :: string
  ec_Resources :: "resource_spec option"
  ec_Network :: "network_spec option"
  ec_ExtensionCapabilityRequirements :: "extension_requirement option list"
  ec_NodeSelector :: "(string \<times> string) list"
  ec_SecretEnv :: "secret_env_var option list"
  ec_SecretFiles :: "secret_file option list"
  ec_ImageMounts :: "image_mount option list"
  ec_DeclaredOutputs :: "declared_output option list"
  ec_RootfsSnapshot :: bool

definition empty_config :: execution_config where
  "empty_config =
     \<lparr>ec_Argv = [], ec_Env = [], ec_Cwd = [], ec_Resources = None, ec_Network = None,
      ec_ExtensionCapabilityRequirements = [], ec_NodeSelector = [], ec_SecretEnv = [],
      ec_SecretFiles = [], ec_ImageMounts = [], ec_DeclaredOutputs = [], ec_RootfsSnapshot = False\<rparr>"

definition config_or_empty :: "execution_config option \<Rightarrow> execution_config" where
  "config_or_empty c = (case c of None \<Rightarrow> empty_config | Some x \<Rightarrow> x)"

definition GetRequests :: "resource_spec option \<Rightarrow> resource_quantity option" where
  "GetRequests r = Option.bind r rs_Requests"

definition GetLimits :: "resource_spec option \<Rightarrow> resource_quantity option" where
  "GetLimits r = Option.bind r rs_Limits"

definition zero_quantity :: resource_quantity where
  "zero_quantity = \<lparr>rq_cpu_milli = 0, rq_memory_bytes = 0, rq_ephemeral_storage_bytes = 0\<rparr>"

datatype resource_kind = ResourceCPU | ResourceMemory | ResourceEphemeralStorage

datatype output_error =
  OutputCount | OutputRequired | OutputPath | OutputDuplicate | OutputFormat |
  MediaTypeTooLong | MediaTypeInvalid

datatype execution_error =
    SnapshotNeedsWritableRootfs
  | NegativeRequest resource_kind
  | NegativeResourceLimit resource_kind
  | ExtensionRequirementsInvalid capability_error
  | NetworkInvalid network_error
  | OutputInvalid output_error
  | ReadonlyEphemeralConflict
  | RequestAboveLimit resource_kind

section \<open>Defaults and resources\<close>

definition DefaultCPUMilli :: int64 where
  "DefaultCPUMilli = 500"

definition DefaultMemoryBytes :: int64 where
  "DefaultMemoryBytes = 4 * 1024 * 1024 * 1024"

definition DefaultEphemeralStorageBytes :: int64 where
  "DefaultEphemeralStorageBytes = 256 * 1024 * 1024"

definition MaxDeclaredOutputs :: nat where
  "MaxDeclaredOutputs = 16"

definition defaultRequest :: "int64 \<Rightarrow> int64 \<Rightarrow> int64" where
  "defaultRequest limit fallback = (if 0 < limit then limit else fallback)"

definition NormalizeResources :: "resource_spec option \<Rightarrow> resource_spec" where
  "NormalizeResources i =
     (let out = (case i of None \<Rightarrow> \<lparr>rs_Requests = None, rs_Limits = None\<rparr> | Some r \<Rightarrow> r);
          q = (case rs_Requests out of None \<Rightarrow> zero_quantity | Some r \<Rightarrow> r);
          limits = rs_Limits out;
          q1 = (if rq_cpu_milli q \<le> 0
                then q\<lparr>rq_cpu_milli := defaultRequest (GetCpuMilli limits) DefaultCPUMilli\<rparr> else q);
          q2 = (if rq_memory_bytes q1 \<le> 0
                then q1\<lparr>rq_memory_bytes := defaultRequest (GetMemoryBytes limits) DefaultMemoryBytes\<rparr>
                else q1);
          q3 = (if rq_ephemeral_storage_bytes q2 \<le> 0 \<and> 0 < GetEphemeralStorageBytes limits
                then q2\<lparr>rq_ephemeral_storage_bytes := GetEphemeralStorageBytes limits\<rparr> else q2)
      in out\<lparr>rs_Requests := Some q3\<rparr>)"

definition NormalizeResourcesForRootfs ::
  "resource_spec option \<Rightarrow> bool \<Rightarrow> execution_error + resource_spec" where
  "NormalizeResourcesForRootfs i readonly =
     (let out = NormalizeResources i;
          requested = GetEphemeralStorageBytes (rs_Requests out);
          limit = GetEphemeralStorageBytes (rs_Limits out)
      in if readonly
         then (if requested \<noteq> 0 \<or> limit \<noteq> 0 then Inl ReadonlyEphemeralConflict else Inr out)
         else
           let limits = (case rs_Limits out of None \<Rightarrow> zero_quantity | Some l \<Rightarrow> l);
               limit' = (if limit = 0 then DefaultEphemeralStorageBytes else limit);
               limits' = (if limit = 0 then limits\<lparr>rq_ephemeral_storage_bytes := limit'\<rparr> else limits);
               requests = (case rs_Requests out of None \<Rightarrow> zero_quantity | Some r \<Rightarrow> r);
               requests' = (if requested = 0 then requests\<lparr>rq_ephemeral_storage_bytes := limit'\<rparr> else requests)
           in Inr \<lparr>rs_Requests = Some requests', rs_Limits = Some limits'\<rparr>)"

definition validateResourceSigns :: "resource_spec option \<Rightarrow> execution_error option" where
  "validateResourceSigns i =
     (let r = GetRequests i; l = GetLimits i
      in if GetCpuMilli r < 0 then Some (NegativeRequest ResourceCPU)
         else if GetMemoryBytes r < 0 then Some (NegativeRequest ResourceMemory)
         else if GetEphemeralStorageBytes r < 0 then Some (NegativeRequest ResourceEphemeralStorage)
         else if GetCpuMilli l < 0 then Some (NegativeResourceLimit ResourceCPU)
         else if GetMemoryBytes l < 0 then Some (NegativeResourceLimit ResourceMemory)
         else if GetEphemeralStorageBytes l < 0 then Some (NegativeResourceLimit ResourceEphemeralStorage)
         else None)"

definition ValidateResources :: "resource_spec option \<Rightarrow> execution_error option" where
  "ValidateResources i =
     (case validateResourceSigns i of
        Some e \<Rightarrow> Some e
      | None \<Rightarrow>
          let n = NormalizeResources i; requests = rs_Requests n; limits = rs_Limits n
          in if 0 < GetCpuMilli limits \<and> GetCpuMilli limits < GetCpuMilli requests
             then Some (RequestAboveLimit ResourceCPU)
             else if 0 < GetMemoryBytes limits \<and> GetMemoryBytes limits < GetMemoryBytes requests
             then Some (RequestAboveLimit ResourceMemory)
             else if 0 < GetEphemeralStorageBytes limits \<and>
                     GetEphemeralStorageBytes limits < GetEphemeralStorageBytes requests
             then Some (RequestAboveLimit ResourceEphemeralStorage)
             else None)"

section \<open>The other parts of a configuration\<close>

text \<open>The entries of a list of messages that are not nil.\<close>

fun present :: "'a option list \<Rightarrow> 'a list" where
  "present [] = []"
| "present (None # xs) = present xs"
| "present (Some x # xs) = x # present xs"

definition clean_path :: "string \<Rightarrow> string" where
  "clean_path p = Clean (trim_space p)"

definition normalizeSecretEnv :: "secret_env_var option list \<Rightarrow> secret_env_var option list" where
  "normalizeSecretEnv i =
     map (\<lambda>v. Some \<lparr>sv_Name = trim_space (sv_Name v), sv_SecretID = trim_space (sv_SecretID v),
                    sv_Key = trim_space (sv_Key v), sv_Optional = sv_Optional v\<rparr>)
       (present i)"

definition normalizeSecretFiles :: "secret_file option list \<Rightarrow> secret_file option list" where
  "normalizeSecretFiles i =
     map (\<lambda>f. Some \<lparr>sf_Path = clean_path (sf_Path f), sf_SecretID = trim_space (sf_SecretID f),
                    sf_Key = trim_space (sf_Key f), sf_Mode = sf_Mode f, sf_Optional = sf_Optional f\<rparr>)
       (present i)"

definition NormalizeImageMounts :: "image_mount option list \<Rightarrow> image_mount option list" where
  "NormalizeImageMounts i =
     map (\<lambda>m. Some \<lparr>im_Image = trim_space (im_Image m), im_Target = clean_path (im_Target m)\<rparr>)
       (present i)"

definition output_less :: "declared_output \<Rightarrow> declared_output \<Rightarrow> bool" where
  "output_less a b \<longleftrightarrow> do_Path a < do_Path b"

definition normalizeOutput :: "declared_output \<Rightarrow> declared_output" where
  "normalizeOutput d =
     \<lparr>do_Path = clean_path (do_Path d), do_Format = do_Format d,
      do_MediaType = trim_space (do_MediaType d)\<rparr>"

definition normalizeDeclaredOutputs :: "declared_output option list \<Rightarrow> declared_output option list" where
  "normalizeDeclaredOutputs i =
     map Some (sort_slice output_less (map normalizeOutput (present i)))"

definition hasParentPathElement :: "string \<Rightarrow> bool" where
  "hasParentPathElement s = list_ex (\<lambda>e. e = ''..'') (split_on (CHR ''/'') s)"

definition output_path_ok :: "string \<Rightarrow> bool" where
  "output_path_ok rawPath \<longleftrightarrow>
     rawPath \<noteq> [] \<and> Clean rawPath \<noteq> ''/'' \<and> prefix ''/'' (Clean rawPath) \<and>
     \<not> hasParentPathElement rawPath"

fun validateOutputLoop ::
  "(string \<Rightarrow> string) \<Rightarrow> string list \<Rightarrow> declared_output option list \<Rightarrow> output_error option" where
  "validateOutputLoop ul seen [] = None"
| "validateOutputLoop ul seen (None # rest) = Some OutputRequired"
| "validateOutputLoop ul seen (Some declared # rest) =
     (let rawPath = trim_space (do_Path declared);
          cleanPath = Clean rawPath;
          mediaType = trim_space (do_MediaType declared)
      in if \<not> output_path_ok rawPath then Some OutputPath
         else if cleanPath \<in> set seen then Some OutputDuplicate
         else if do_Format declared \<noteq> OF_FILE \<and> do_Format declared \<noteq> OF_TAR then Some OutputFormat
         else if 128 < length mediaType then Some MediaTypeTooLong
         else if mediaType \<noteq> [] \<and> \<not> ParseMediaType ul mediaType then Some MediaTypeInvalid
         else validateOutputLoop ul (cleanPath # seen) rest)"

definition validateDeclaredOutputs ::
  "(string \<Rightarrow> string) \<Rightarrow> declared_output option list \<Rightarrow> output_error option" where
  "validateDeclaredOutputs ul i =
     (if MaxDeclaredOutputs < length i then Some OutputCount else validateOutputLoop ul [] i)"

definition ValidateNetwork ::
  "(string \<Rightarrow> string) \<Rightarrow> (string \<Rightarrow> string option) \<Rightarrow> network_spec option \<Rightarrow> execution_error option" where
  "ValidateNetwork ul idna i = map_option NetworkInvalid (ValidateNetworkSpec ul idna i)"

definition normalizeRequirement ::
  "(string \<Rightarrow> string) \<Rightarrow> extension_requirement option \<Rightarrow> extension_requirement option" where
  "normalizeRequirement ul r =
     (case Option.bind r er_capability of
        None \<Rightarrow> r
      | Some c \<Rightarrow> Some \<lparr>er_capability = Some (NormalizeExtension ul c)\<rparr>)"

definition normalizeExtensionCapabilityRequirements ::
  "(string \<Rightarrow> string) \<Rightarrow> extension_requirement option list \<Rightarrow> extension_requirement option list" where
  "normalizeExtensionCapabilityRequirements ul i = map (normalizeRequirement ul) i"

definition validateExtensionCapabilityRequirements ::
  "(string \<Rightarrow> string) \<Rightarrow> extension_requirement option list \<Rightarrow> execution_error option" where
  "validateExtensionCapabilityRequirements ul i =
     map_option ExtensionRequirementsInvalid (ValidateExtensionRequirements ul i)"

section \<open>Whole configurations\<close>

definition NormalizeConfig ::
  "(string \<Rightarrow> string) \<Rightarrow> (string \<Rightarrow> string option) \<Rightarrow> execution_config option \<Rightarrow> execution_config" where
  "NormalizeConfig ul idna i =
     (let out = config_or_empty i
      in out\<lparr>ec_Resources := Some (NormalizeResources (ec_Resources out)),
             ec_SecretEnv := normalizeSecretEnv (ec_SecretEnv out),
             ec_SecretFiles := normalizeSecretFiles (ec_SecretFiles out),
             ec_ImageMounts := NormalizeImageMounts (ec_ImageMounts out),
             ec_DeclaredOutputs := normalizeDeclaredOutputs (ec_DeclaredOutputs out),
             ec_Network := (case NormalizeNetwork ul idna (ec_Network out) of
                              Inr network \<Rightarrow> network
                            | Inl _ \<Rightarrow> ec_Network out),
             ec_ExtensionCapabilityRequirements :=
               normalizeExtensionCapabilityRequirements ul (ec_ExtensionCapabilityRequirements out)\<rparr>)"

definition NormalizeConfigForRootfs ::
  "(string \<Rightarrow> string) \<Rightarrow> (string \<Rightarrow> string option) \<Rightarrow> execution_config option \<Rightarrow> bool \<Rightarrow>
   execution_error + execution_config" where
  "NormalizeConfigForRootfs ul idna i readonly =
     (let c = config_or_empty i
      in if readonly \<and> ec_RootfsSnapshot c then Inl SnapshotNeedsWritableRootfs
         else case validateResourceSigns (ec_Resources c) of Some e \<Rightarrow> Inl e | None \<Rightarrow>
         case validateExtensionCapabilityRequirements ul (ec_ExtensionCapabilityRequirements c) of
           Some e \<Rightarrow> Inl e | None \<Rightarrow>
         case ValidateNetwork ul idna (ec_Network c) of Some e \<Rightarrow> Inl e | None \<Rightarrow>
         case validateDeclaredOutputs ul (ec_DeclaredOutputs c) of
           Some e \<Rightarrow> Inl (OutputInvalid e) | None \<Rightarrow>
         let out = NormalizeConfig ul idna i
         in bind_result (NormalizeResourcesForRootfs (ec_Resources out) readonly) (\<lambda>resources.
              case ValidateResources (Some resources) of
                Some e \<Rightarrow> Inl e
              | None \<Rightarrow> Inr (out\<lparr>ec_Resources := Some resources\<rparr>)))"

section \<open>Environments\<close>

definition DefaultNamespace :: string where
  "DefaultNamespace = ''default''"

definition NormalizeNamespace :: "string \<Rightarrow> string" where
  "NormalizeNamespace namespace =
     (let n = trim_space namespace in if n = [] then DefaultNamespace else n)"

record oci_image_descriptor =
  id_Digest :: string
  id_MediaType :: string
  id_SizeBytes :: int64
  id_Annotations :: "(string \<times> string) list"

record environment_image_source =
  is_Ref :: string
  is_RootfsReadonly :: bool
  is_RegistryCredentialID :: string

record environment_spec =
  es_Namespace :: string
  es_Image :: "environment_image_source option"

record environment_mount =
  mo_Type :: string
  mo_Source :: string
  mo_Target :: string
  mo_Options :: "string list"

record oci_baseline_policy =
  bp_Capabilities :: "string list"
  bp_NoFileLimit :: int

record resolved_environment_spec =
  re_RootfsReadonly :: bool
  re_ImageDefaultArgv :: "string list"
  re_DefaultCwd :: string
  re_DefaultEnv :: "(string \<times> string) list"
  re_Mounts :: "environment_mount option list"
  re_ImageDescriptor :: "oci_image_descriptor option"
  re_ExecutionProfile :: "oci_baseline_policy option option"

record environment =
  env_ID :: string
  env_Namespace :: string
  env_Spec :: "environment_spec option"
  env_ResolvedSpec :: "resolved_environment_spec option"
  env_Labels :: "(string \<times> string) list"

record resolved_image =
  ri_Ref :: string
  ri_Descriptor :: "oci_image_descriptor option"

datatype environment_error =
    SpecRequired | ImageRefRequired | ImagesNotConfigured | CredentialsNotConfigured
  | CredentialLookup string | CredentialNotFound | ResolveImageFailed string | DigestMissing

definition synthesizeImageSpec ::
  "environment_spec \<Rightarrow> oci_image_descriptor \<Rightarrow> resolved_environment_spec" where
  "synthesizeImageSpec spec descriptor =
     \<lparr>re_RootfsReadonly = (case es_Image spec of None \<Rightarrow> False | Some im \<Rightarrow> is_RootfsReadonly im),
      re_ImageDefaultArgv = [], re_DefaultCwd = [], re_DefaultEnv = [], re_Mounts = [],
      re_ImageDescriptor = Some descriptor, re_ExecutionProfile = None\<rparr>"

text \<open>The image resolver and the credential store are interfaces of the source, nil or a
  function: \<open>Resolve\<close> takes the reference and the docker configuration,
  \<open>ResolveDockerConfigJSON\<close> returns an error, or whether the credential exists.\<close>

type_synonym image_resolver = "string \<Rightarrow> string \<Rightarrow> string + resolved_image option"
type_synonym credential_resolver = "string \<Rightarrow> string + string option"

definition spec_image :: "environment_spec \<Rightarrow> environment_image_source" where
  "spec_image spec =
     (case es_Image spec of
        None \<Rightarrow> \<lparr>is_Ref = [], is_RootfsReadonly = False, is_RegistryCredentialID = []\<rparr>
      | Some im \<Rightarrow> im)"

definition dockerConfig ::
  "credential_resolver option \<Rightarrow> string \<Rightarrow> environment_error + string" where
  "dockerConfig credentials registryCredentialID =
     (if registryCredentialID = [] then Inr []
      else
        (case credentials of
           None \<Rightarrow> Inl CredentialsNotConfigured
         | Some resolve \<Rightarrow>
             (case resolve registryCredentialID of
                Inl e \<Rightarrow> Inl (CredentialLookup e)
              | Inr None \<Rightarrow> Inl CredentialNotFound
              | Inr (Some json) \<Rightarrow> Inr json)))"

definition resolveImageSpec ::
  "image_resolver option \<Rightarrow> credential_resolver option \<Rightarrow> environment_spec \<Rightarrow>
   environment_error + environment_spec \<times> resolved_environment_spec" where
  "resolveImageSpec images credentials spec =
     (case images of
        None \<Rightarrow> Inl ImagesNotConfigured
      | Some resolve \<Rightarrow>
          let registryCredentialID = trim_space (is_RegistryCredentialID (spec_image spec))
          in bind_result (dockerConfig credentials registryCredentialID) (\<lambda>json.
               case resolve (is_Ref (spec_image spec)) json of
                 Inl e \<Rightarrow> Inl (ResolveImageFailed e)
               | Inr None \<Rightarrow> Inl DigestMissing
               | Inr (Some resolved) \<Rightarrow>
                   (case ri_Descriptor resolved of
                      None \<Rightarrow> Inl DigestMissing
                    | Some descriptor \<Rightarrow>
                        if trim_space (id_Digest descriptor) = [] then Inl DigestMissing
                        else
                          let normalized =
                            \<lparr>es_Namespace = NormalizeNamespace (es_Namespace spec),
                             es_Image = Some
                               \<lparr>is_Ref = trim_space (ri_Ref resolved),
                                is_RootfsReadonly = is_RootfsReadonly (spec_image spec),
                                is_RegistryCredentialID = registryCredentialID\<rparr>\<rparr>
                          in Inr (normalized, synthesizeImageSpec normalized descriptor))))"

definition ResolveSpec ::
  "environment_spec option \<Rightarrow> image_resolver option \<Rightarrow> credential_resolver option \<Rightarrow>
   environment_error + environment_spec \<times> resolved_environment_spec" where
  "ResolveSpec spec images credentials =
     (case spec of
        None \<Rightarrow> Inl SpecRequired
      | Some s \<Rightarrow>
          if trim_space (is_Ref (spec_image s)) = [] then Inl ImageRefRequired
          else resolveImageSpec images credentials s)"

section \<open>The placement request\<close>

fun firstNonEmpty :: "string list \<Rightarrow> string" where
  "firstNonEmpty [] = []"
| "firstNonEmpty (v # vs) = (if trim_space v \<noteq> [] then trim_space v else firstNonEmpty vs)"

fun mode_String :: "network_mode \<Rightarrow> string" where
  "mode_String NM_UNSPECIFIED = ''NETWORK_MODE_UNSPECIFIED''"
| "mode_String NM_DEFAULT = ''NETWORK_MODE_DEFAULT''"
| "mode_String NM_ISOLATED = ''NETWORK_MODE_ISOLATED''"
| "mode_String NM_HOST = ''NETWORK_MODE_HOST''"
| "mode_String (NM_OTHER n) = fmt_int n"

definition networkSpecToPlacementNetwork :: "(string \<Rightarrow> string) \<Rightarrow> network_spec option \<Rightarrow> string" where
  "networkSpecToPlacementNetwork ul i =
     (if IsStrictDenyAll i then ''isolated''
      else case i of
             None \<Rightarrow> []
           | Some s \<Rightarrow>
               if ns_Mode s = NM_UNSPECIFIED then []
               else to_lower ul (trim_prefix ''NETWORK_MODE_'' (mode_String (ns_Mode s))))"

text \<open>The copy loop of the selector; it is the loop of the normaliser.\<close>

definition cloneExtensionRequirements ::
  "(string \<Rightarrow> string) \<Rightarrow> extension_requirement option list \<Rightarrow> extension_requirement option list" where
  "cloneExtensionRequirements ul i = normalizeExtensionCapabilityRequirements ul i"

datatype build_error = BuildNetwork network_error | BuildRequirements capability_error

definition staticInput ::
  "(string \<Rightarrow> string) \<Rightarrow> network_spec option \<Rightarrow> bool \<Rightarrow> execution_config \<Rightarrow> requirement_input" where
  "staticInput ul network readonly config =
     (let limits = GetLimits (ec_Resources config)
      in \<lparr>ri_NetworkMode = networkSpecToPlacementNetwork ul network, ri_NetworkBackend = [],
          ri_RequiresDNSPolicyEnforcement = (PolicyMode network = EnforcementDNSDeny),
          ri_RequiresStrictEgressEnforcement =
            (PolicyMode network = EnforcementStrict \<and> StrictNeedsEgressd network),
          ri_MemoryLimitBytes = GetMemoryBytes limits, ri_RootfsWritable = (\<not> readonly),
          ri_EphemeralStorageLimitBytes = GetEphemeralStorageBytes limits, ri_EROFSBacking = False,
          ri_RootfsSnapshot = ec_RootfsSnapshot config,
          ri_ExtensionCapabilityRequests = ec_ExtensionCapabilityRequirements config\<rparr>)"

definition resolvedReadonly :: "environment \<Rightarrow> bool" where
  "resolvedReadonly env = (case env_ResolvedSpec env of None \<Rightarrow> False | Some r \<Rightarrow> re_RootfsReadonly r)"

definition resolvedDigest :: "environment \<Rightarrow> string" where
  "resolvedDigest env =
     (case Option.bind (env_ResolvedSpec env) re_ImageDescriptor of None \<Rightarrow> [] | Some d \<Rightarrow> id_Digest d)"

definition buildRequest ::
  "(string \<Rightarrow> string) \<Rightarrow> (string \<Rightarrow> string option) \<Rightarrow> environment \<Rightarrow> execution_config \<Rightarrow>
   build_error + request" where
  "buildRequest ul idna env config =
     (let readonly = resolvedReadonly env;
          requests = GetRequests (ec_Resources config);
          limits = GetLimits (ec_Resources config)
      in case NormalizeNetwork ul idna (ec_Network config) of
           Inl e \<Rightarrow> Inl (BuildNetwork e)
         | Inr network \<Rightarrow>
             (case DeriveRequestStaticRequirements ul (staticInput ul network readonly config) of
                Inl e \<Rightarrow> Inl (BuildRequirements e)
              | Inr capabilities \<Rightarrow>
                  Inr \<lparr>rq_RootfsKey = firstNonEmpty [env_ID env, resolvedDigest env],
                       rq_RootfsType = RT_IMAGE, rq_MountType = MT_OCI,
                       rq_MemoryLimitBytes = GetMemoryBytes limits, rq_RootfsWritable = (\<not> readonly),
                       rq_EphemeralStorageLimitBytes = GetEphemeralStorageBytes limits,
                       rq_RootfsSnapshot = ec_RootfsSnapshot config,
                       rq_RequestedCpuMilli = GetCpuMilli requests,
                       rq_RequestedMemoryBytes = GetMemoryBytes requests,
                       rq_RequestedEphemeralStorageBytes = GetEphemeralStorageBytes requests,
                       rq_Network = networkSpecToPlacementNetwork ul network, rq_NetworkBackend = [],
                       rq_RequiresDNSPolicyEnforcement = (PolicyMode network = EnforcementDNSDeny),
                       rq_RequiresStrictEgressEnforcement =
                         (PolicyMode network = EnforcementStrict \<and> StrictNeedsEgressd network),
                       rq_CapabilityRequirements = capabilities,
                       rq_ExtensionCapabilityRequirements =
                         cloneExtensionRequirements ul (ec_ExtensionCapabilityRequirements config),
                       rq_NodeSelector = ec_NodeSelector config\<rparr>))"

datatype select_error = SelectBuild build_error | SelectPlan selection_error

text \<open>\<open>Selector.SelectCandidates\<close> from the environment and the configuration.\<close>

definition selectForConfig ::
  "(string \<Rightarrow> string) \<Rightarrow> (string \<Rightarrow> string option) \<Rightarrow> engine \<Rightarrow> registry \<Rightarrow> environment \<Rightarrow>
   execution_config \<Rightarrow> gotime \<Rightarrow> select_error + candidate list" where
  "selectForConfig ul idna e nodes env config now =
     (case buildRequest ul idna env config of
        Inl err \<Rightarrow> Inl (SelectBuild err)
      | Inr req \<Rightarrow> lift_error SelectPlan (SelectCandidates ul e nodes req now))"

section \<open>Resources of a normalised configuration\<close>

text \<open>What admission may rely on: the request is positive, no limit is negative, a
  positive limit bounds its request, and ephemeral storage is present exactly on a
  writable root filesystem.\<close>

definition resources_sound :: "bool \<Rightarrow> resource_spec \<Rightarrow> bool" where
  "resources_sound readonly r \<longleftrightarrow>
     (let q = rs_Requests r; l = rs_Limits r
      in q \<noteq> None \<and> 0 < GetCpuMilli q \<and> 0 < GetMemoryBytes q \<and>
         0 \<le> GetCpuMilli l \<and> 0 \<le> GetMemoryBytes l \<and> 0 \<le> GetEphemeralStorageBytes l \<and>
         (0 < GetCpuMilli l \<longrightarrow> GetCpuMilli q \<le> GetCpuMilli l) \<and>
         (0 < GetMemoryBytes l \<longrightarrow> GetMemoryBytes q \<le> GetMemoryBytes l) \<and>
         (if readonly
          then GetEphemeralStorageBytes q = 0 \<and> GetEphemeralStorageBytes l = 0
          else 0 < GetEphemeralStorageBytes q \<and>
               GetEphemeralStorageBytes q \<le> GetEphemeralStorageBytes l))"

lemmas quantity_defs = GetCpuMilli_def GetMemoryBytes_def GetEphemeralStorageBytes_def

lemma default_positive:
  "0 < defaultRequest l DefaultCPUMilli" "0 < defaultRequest l DefaultMemoryBytes"
  by (simp_all add: defaultRequest_def DefaultCPUMilli_def DefaultMemoryBytes_def)

lemma NormalizeResources_requests:
  obtains q where "rs_Requests (NormalizeResources i) = Some q"
    "0 < rq_cpu_milli q" "0 < rq_memory_bytes q"
proof
  show "rs_Requests (NormalizeResources i) = Some (the (rs_Requests (NormalizeResources i)))"
    by (simp add: NormalizeResources_def Let_def)
  show "0 < rq_cpu_milli (the (rs_Requests (NormalizeResources i)))"
    "0 < rq_memory_bytes (the (rs_Requests (NormalizeResources i)))"
    by (simp_all add: NormalizeResources_def Let_def default_positive not_le)
qed

lemma NormalizeResources_limits:
  "rs_Limits (NormalizeResources i) = GetLimits i"
  by (simp add: NormalizeResources_def Let_def GetLimits_def split: option.split)

text \<open>Positive requests are kept, and so is an ephemeral-storage request that is present
  or has no limit to take its value from.\<close>

lemma NormalizeResources_keep:
  assumes "rs_Requests r = Some q" "0 < rq_cpu_milli q" "0 < rq_memory_bytes q"
    "0 < rq_ephemeral_storage_bytes q \<or> GetEphemeralStorageBytes (rs_Limits r) \<le> 0"
  shows "NormalizeResources (Some r) = r"
  using assms by (auto simp: NormalizeResources_def Let_def)

lemma NormalizeResourcesForRootfs_writable:
  assumes "NormalizeResourcesForRootfs i False = Inr r"
  obtains q where "rs_Requests r = Some q" "0 < rq_cpu_milli q" "0 < rq_memory_bytes q"
    "GetEphemeralStorageBytes (rs_Limits r) \<noteq> 0" "rq_ephemeral_storage_bytes q \<noteq> 0"
proof -
  obtain q where q: "rs_Requests (NormalizeResources i) = Some q"
    "0 < rq_cpu_milli q" "0 < rq_memory_bytes q"
    by (rule NormalizeResources_requests)
  show thesis
    by (rule that [of "the (rs_Requests r)"])
      (use assms q in \<open>auto simp: NormalizeResourcesForRootfs_def Let_def quantity_defs
        DefaultEphemeralStorageBytes_def split: option.splits if_splits\<close>)
qed

lemma NormalizeResourcesForRootfs_readonly:
  assumes "NormalizeResourcesForRootfs i True = Inr r"
  obtains q where "rs_Requests r = Some q" "0 < rq_cpu_milli q" "0 < rq_memory_bytes q"
    "GetEphemeralStorageBytes (rs_Limits r) = 0" "rq_ephemeral_storage_bytes q = 0"
proof -
  have "r = NormalizeResources i"
    "GetEphemeralStorageBytes (rs_Requests (NormalizeResources i)) = 0"
    "GetEphemeralStorageBytes (rs_Limits (NormalizeResources i)) = 0"
    using assms by (auto simp: NormalizeResourcesForRootfs_def Let_def split: if_splits)
  then show thesis
    by (metis NormalizeResources_requests that GetEphemeralStorageBytes_def option.simps(5))
qed

lemma validateResourceSigns_nonneg:
  "validateResourceSigns i = None \<longleftrightarrow>
     0 \<le> GetCpuMilli (GetRequests i) \<and> 0 \<le> GetMemoryBytes (GetRequests i) \<and>
     0 \<le> GetEphemeralStorageBytes (GetRequests i) \<and> 0 \<le> GetCpuMilli (GetLimits i) \<and>
     0 \<le> GetMemoryBytes (GetLimits i) \<and> 0 \<le> GetEphemeralStorageBytes (GetLimits i)"
  by (simp add: validateResourceSigns_def Let_def not_less)

lemma ValidateResources_bounds:
  assumes "ValidateResources (Some r) = None" "NormalizeResources (Some r) = r"
  shows "0 < GetCpuMilli (rs_Limits r) \<Longrightarrow> GetCpuMilli (rs_Requests r) \<le> GetCpuMilli (rs_Limits r)"
    "0 < GetMemoryBytes (rs_Limits r) \<Longrightarrow> GetMemoryBytes (rs_Requests r) \<le> GetMemoryBytes (rs_Limits r)"
    "0 < GetEphemeralStorageBytes (rs_Limits r) \<Longrightarrow>
       GetEphemeralStorageBytes (rs_Requests r) \<le> GetEphemeralStorageBytes (rs_Limits r)"
    "validateResourceSigns (Some r) = None"
  using assms by (auto simp: ValidateResources_def Let_def split: option.splits if_splits)

lemma NormalizeResourcesForRootfs_sound:
  assumes "NormalizeResourcesForRootfs i readonly = Inr r" "ValidateResources (Some r) = None"
  shows "resources_sound readonly r" "NormalizeResources (Some r) = r"
proof -
  from assms(2) have signs: "validateResourceSigns (Some r) = None"
    by (auto simp: ValidateResources_def split: option.splits)
  obtain q where q: "rs_Requests r = Some q" "0 < rq_cpu_milli q" "0 < rq_memory_bytes q"
    and e: "if readonly then GetEphemeralStorageBytes (rs_Limits r) = 0 \<and> rq_ephemeral_storage_bytes q = 0
      else GetEphemeralStorageBytes (rs_Limits r) \<noteq> 0 \<and> rq_ephemeral_storage_bytes q \<noteq> 0"
    using assms(1) NormalizeResourcesForRootfs_writable NormalizeResourcesForRootfs_readonly
    by (cases readonly) metis+
  from q e signs have "0 < rq_ephemeral_storage_bytes q \<or> GetEphemeralStorageBytes (rs_Limits r) \<le> 0"
    by (cases readonly) (auto simp: validateResourceSigns_nonneg GetRequests_def quantity_defs)
  with q show keep: "NormalizeResources (Some r) = r" by (intro NormalizeResources_keep)
  show "resources_sound readonly r"
    using ValidateResources_bounds [OF assms(2) keep] q e signs
    by (cases readonly) (auto simp: resources_sound_def Let_def validateResourceSigns_nonneg
        GetRequests_def GetLimits_def GetCpuMilli_def [of "Some q"] GetMemoryBytes_def [of "Some q"]
        GetEphemeralStorageBytes_def [of "Some q"])
qed

section \<open>Declared outputs\<close>

definition output_ok :: "(string \<Rightarrow> string) \<Rightarrow> declared_output \<Rightarrow> bool" where
  "output_ok ul d \<longleftrightarrow>
     output_path_ok (trim_space (do_Path d)) \<and> (do_Format d = OF_FILE \<or> do_Format d = OF_TAR) \<and>
     length (trim_space (do_MediaType d)) \<le> 128 \<and>
     (trim_space (do_MediaType d) = [] \<or> ParseMediaType ul (trim_space (do_MediaType d)))"

lemma validateOutputLoop_iff:
  "validateOutputLoop ul seen i = None \<longleftrightarrow>
     (\<exists>ds. i = map Some ds \<and> (\<forall>d\<in>set ds. output_ok ul d) \<and>
        distinct (map (\<lambda>d. clean_path (do_Path d)) ds) \<and>
        (\<lambda>d. clean_path (do_Path d)) ` set ds \<inter> set seen = {})"
proof (induction ul seen i rule: validateOutputLoop.induct)
  case (3 ul seen d rest)
  have "validateOutputLoop ul seen (Some d # rest) = None \<longleftrightarrow>
    output_ok ul d \<and> clean_path (do_Path d) \<notin> set seen \<and>
    validateOutputLoop ul (clean_path (do_Path d) # seen) rest = None"
    by (auto simp: Let_def output_ok_def clean_path_def)
  moreover have "validateOutputLoop ul (clean_path (do_Path d) # seen) rest = None \<longleftrightarrow>
     (\<exists>ds. rest = map Some ds \<and> (\<forall>x\<in>set ds. output_ok ul x) \<and>
        distinct (map (\<lambda>x. clean_path (do_Path x)) ds) \<and>
        (\<lambda>x. clean_path (do_Path x)) ` set ds \<inter> set (clean_path (do_Path d) # seen) = {})"
    if "output_ok ul d" "clean_path (do_Path d) \<notin> set seen"
    using that "3.IH" [OF refl refl refl] by (simp add: output_ok_def clean_path_def)
  ultimately show ?case
    by (cases "output_ok ul d \<and> clean_path (do_Path d) \<notin> set seen")
      (auto simp: Cons_eq_map_conv simp del: validateOutputLoop.simps)
qed (auto simp: Cons_eq_map_conv)

lemma validateDeclaredOutputs_iff:
  "validateDeclaredOutputs ul i = None \<longleftrightarrow>
     length i \<le> MaxDeclaredOutputs \<and>
     (\<exists>ds. i = map Some ds \<and> (\<forall>d\<in>set ds. output_ok ul d) \<and>
        distinct (map (\<lambda>d. clean_path (do_Path d)) ds))"
  by (simp add: validateDeclaredOutputs_def validateOutputLoop_iff not_less)

interpretation output_order: strict_weak_order output_less
  by unfold_locales (auto simp: output_less_def)

lemma present_map_Some [simp]: "present (map Some xs) = xs"
  by (induction xs) simp_all

lemma present_map_Some_comp [simp]: "present (map (\<lambda>x. Some (f x)) xs) = map f xs"
  by (induction xs) simp_all

lemma set_present: "x \<in> set (present xs) \<longleftrightarrow> Some x \<in> set xs"
  by (induction xs rule: present.induct) auto

lemma normalizeDeclaredOutputs_sorted:
  assumes "distinct (map (\<lambda>d. clean_path (do_Path d)) ds)"
  shows "sorted_wrt output_less (sort_slice output_less (map normalizeOutput ds))"
proof (rule output_order.sorted_strict [OF output_order.sort_slice_sorted])
  have dist: "distinct (map do_Path (map normalizeOutput ds))"
    using assms by (simp add: normalizeOutput_def comp_def)
  then show "distinct (sort_slice output_less (map normalizeOutput ds))"
    by (auto simp: distinct_map dest: inj_on_imageI2)
  show "output_less a b \<or> output_less b a"
    if "a \<in> set (sort_slice output_less (map normalizeOutput ds))"
      "b \<in> set (sort_slice output_less (map normalizeOutput ds))" "a \<noteq> b" for a b
    using that dist unfolding output_less_def distinct_map inj_on_def set_sort_slice
    by (metis linorder_less_linear)
qed

text \<open>A declared output as it is stored: a cleaned absolute path below the root, with no
  parent reference.\<close>

definition stored_path :: "string \<Rightarrow> bool" where
  "stored_path p \<longleftrightarrow> is_rooted p \<and> p \<noteq> ''/'' \<and> Clean p = p \<and> \<not> hasParentPathElement p"

lemma Clean_no_parent:
  assumes "is_rooted p" "Clean p \<noteq> ''/''"
  shows "\<not> hasParentPathElement (Clean p)"
proof -
  obtain es where es: "Clean p = ''/'' @ join_with ''/'' es" "\<forall>e\<in>set es. plain_element e"
    by (rule Clean_rooted [OF assms(1)])
  with assms(2) have "es \<noteq> []" by auto
  then have "split_on (CHR ''/'') (Clean p) = [] # es"
    using es split_on_slash_prefix [of "CHR ''/''" "join_with ''/'' es"]
      split_on_join [of es "CHR ''/''"] by (simp add: plain_element_def)
  with es show ?thesis
    by (auto simp: hasParentPathElement_def list_ex_iff plain_element_def simp del: split_on.simps)
qed

lemma output_path_ok_stored:
  assumes "output_path_ok (trim_space p)"
  shows "stored_path (clean_path p)"
proof -
  from assms have "is_rooted (trim_space p)"
    using Clean_is_rooted_iff by (simp add: output_path_ok_def is_rooted_def)
  with assms show ?thesis
    by (simp add: stored_path_def clean_path_def output_path_ok_def Clean_rooted_idem
        Clean_rooted_is_rooted Clean_no_parent)
qed

section \<open>Accepted configurations\<close>

lemma NormalizeConfigForRootfs_cases:
  assumes "NormalizeConfigForRootfs ul idna i readonly = Inr out"
  obtains c resources network ds where "c = config_or_empty i"
    "readonly \<longrightarrow> \<not> ec_RootfsSnapshot c"
    "validateResourceSigns (ec_Resources c) = None"
    "ValidateExtensionRequirements ul (ec_ExtensionCapabilityRequirements c) = None"
    "NormalizeNetwork ul idna (ec_Network c) = Inr network"
    "ec_DeclaredOutputs c = map Some ds" "length ds \<le> MaxDeclaredOutputs"
    "\<forall>d\<in>set ds. output_ok ul d" "distinct (map (\<lambda>d. clean_path (do_Path d)) ds)"
    "NormalizeResourcesForRootfs (Some (NormalizeResources (ec_Resources c))) readonly = Inr resources"
    "ValidateResources (Some resources) = None"
    "out = (NormalizeConfig ul idna i)\<lparr>ec_Resources := Some resources\<rparr>"
proof -
  let ?c = "config_or_empty i"
  from assms have snap: "readonly \<longrightarrow> \<not> ec_RootfsSnapshot ?c"
    and signs: "validateResourceSigns (ec_Resources ?c) = None"
    and ext: "ValidateExtensionRequirements ul (ec_ExtensionCapabilityRequirements ?c) = None"
    and net: "ValidateNetworkSpec ul idna (ec_Network ?c) = None"
    and outs: "validateDeclaredOutputs ul (ec_DeclaredOutputs ?c) = None"
    by (auto simp: NormalizeConfigForRootfs_def Let_def validateExtensionCapabilityRequirements_def
        ValidateNetwork_def split: if_splits option.splits)
  with assms obtain resources where r:
    "NormalizeResourcesForRootfs (Some (NormalizeResources (ec_Resources ?c))) readonly = Inr resources"
    "ValidateResources (Some resources) = None"
    "out = (NormalizeConfig ul idna i)\<lparr>ec_Resources := Some resources\<rparr>"
    by (auto simp: NormalizeConfigForRootfs_def Let_def validateExtensionCapabilityRequirements_def
        ValidateNetwork_def NormalizeConfig_def [of ul idna i] split: if_splits option.splits)
  obtain network where n: "NormalizeNetwork ul idna (ec_Network ?c) = Inr network"
    using net by (cases "NormalizeNetwork ul idna (ec_Network ?c)") (simp_all add: ValidateNetworkSpec_def)
  obtain ds where d: "ec_DeclaredOutputs ?c = map Some ds" "\<forall>d\<in>set ds. output_ok ul d"
    "distinct (map (\<lambda>d. clean_path (do_Path d)) ds)" "length ds \<le> MaxDeclaredOutputs"
    using outs by (auto simp: validateDeclaredOutputs_iff)
  show thesis by (rule that [OF refl snap signs ext n d(1,4,2,3) r])
qed

lemma normalizeRequirement_valid:
  assumes "ValidateExtensionRequirement ul r = None" "lower_idem ul"
  shows "ValidateExtensionRequirement ul (normalizeRequirement ul r) = None"
    "requirement_name ul (normalizeRequirement ul r) = requirement_name ul r"
proof -
  from ValidateExtensionRequirement_ok [OF assms(1)]
  obtain q c where "r = Some q" "er_capability q = Some c" "ValidateExtension ul (Some c) = None"
    by (cases r) auto
  with assms(2) show "ValidateExtensionRequirement ul (normalizeRequirement ul r) = None"
    "requirement_name ul (normalizeRequirement ul r) = requirement_name ul r"
    by (simp_all add: normalizeRequirement_def ValidateExtension_normalized NormalizeExtension_stable)
qed

lemma normalizeExtensionRequirements_valid:
  assumes "ValidateExtensionRequirements ul rs = None" "lower_idem ul"
  shows "ValidateExtensionRequirements ul (normalizeExtensionCapabilityRequirements ul rs) = None"
proof -
  from assms(1) have rs: "length rs \<le> MaxExtensionCapabilities"
    "\<forall>r\<in>set rs. ValidateExtensionRequirement ul r = None" "distinct (map (requirement_name ul) rs)"
    by (auto simp: ValidateExtensionRequirements_def validateExtensionLoop_iff not_less split: if_splits)
  have "map (requirement_name ul) (map (normalizeRequirement ul) rs) = map (requirement_name ul) rs"
    using normalizeRequirement_valid(2) [OF _ assms(2)] rs(2) by simp
  then have "validateExtensionLoop ul [] (map (normalizeRequirement ul) rs) = None"
    using normalizeRequirement_valid(1) [OF _ assms(2)] rs(2,3)
    unfolding validateExtensionLoop_iff by (metis (no_types, lifting) Int_empty_right empty_set imageE set_map)
  with rs(1) show ?thesis
    by (simp add: ValidateExtensionRequirements_def normalizeExtensionCapabilityRequirements_def)
qed

lemma NormalizeConfig_fields:
  "ec_RootfsSnapshot (NormalizeConfig ul idna i) = ec_RootfsSnapshot (config_or_empty i)"
  "ec_DeclaredOutputs (NormalizeConfig ul idna i) = normalizeDeclaredOutputs (ec_DeclaredOutputs (config_or_empty i))"
  "ec_ExtensionCapabilityRequirements (NormalizeConfig ul idna i) =
     normalizeExtensionCapabilityRequirements ul (ec_ExtensionCapabilityRequirements (config_or_empty i))"
  "NormalizeNetwork ul idna (ec_Network (config_or_empty i)) = Inr n \<Longrightarrow> ec_Network (NormalizeConfig ul idna i) = n"
  "ec_SecretFiles (NormalizeConfig ul idna i) = normalizeSecretFiles (ec_SecretFiles (config_or_empty i))"
  "ec_ImageMounts (NormalizeConfig ul idna i) = NormalizeImageMounts (ec_ImageMounts (config_or_empty i))"
  by (simp_all add: NormalizeConfig_def Let_def)

lemma static_derivation_ok:
  assumes "lower_idem ul" "0 \<le> GetMemoryBytes (GetLimits (ec_Resources config))"
    "0 \<le> GetEphemeralStorageBytes (GetLimits (ec_Resources config))"
    "ValidateExtensionRequirements ul (ec_ExtensionCapabilityRequirements config) = None"
  obtains ks where "DeriveRequestStaticRequirements ul (staticInput ul network readonly config) = Inr ks"
    "set ks = set (derivedKeys ul (staticInput ul network readonly config) [])"
proof -
  let ?input = "staticInput ul network readonly config"
  have net: "networkKeys ul ?input True = Inr []"
    by (simp add: networkKeys_def staticInput_def Let_def trim_space_Nil to_lower_def is_ascii_def)
  have "deriveRequirements ul ?input True = Inr (sort_slice (key_less ul) (derivedKeys ul ?input []))"
    unfolding deriveRequirements_Inr_iff [OF assms(1)]
    using assms(2-4) net by (auto simp: staticInput_def Let_def)
  then show thesis
    using that by (simp add: DeriveRequestStaticRequirements_def)
qed

section \<open>A sample configuration\<close>

definition sample_config :: execution_config where
  "sample_config = empty_config
     \<lparr>ec_Argv := [''/bin/worker''],
      ec_Resources := Some \<lparr>rs_Requests = None,
        rs_Limits = Some \<lparr>rq_cpu_milli = 2000, rq_memory_bytes = 1073741824, rq_ephemeral_storage_bytes = 0\<rparr>\<rparr>,
      ec_Network := Some \<lparr>ns_Mode = NM_DEFAULT, ns_EgressPolicy =
        Some (PolicyDnsDeny (Some \<lparr>dp_DeniedDomains = [''Example.com.'']\<rparr>))\<rparr>,
      ec_ExtensionCapabilityRequirements :=
        [Some \<lparr>er_capability = Some \<lparr>ext_name = ''Example.com/gpu'', ext_value = ''a100''\<rparr>\<rparr>],
      ec_DeclaredOutputs :=
        [Some \<lparr>do_Path = '' /work//report.json'', do_Format = OF_FILE, do_MediaType = ''application/json; charset=utf-8''\<rparr>,
         Some \<lparr>do_Path = ''/work/./logs'', do_Format = OF_TAR, do_MediaType = []\<rparr>]\<rparr>"

definition sample_environment :: environment where
  "sample_environment =
     \<lparr>env_ID = ''env-1'', env_Namespace = ''default'', env_Spec = None,
      env_ResolvedSpec = Some
        \<lparr>re_RootfsReadonly = False, re_ImageDefaultArgv = [], re_DefaultCwd = [], re_DefaultEnv = [],
         re_Mounts = [], re_ImageDescriptor = None, re_ExecutionProfile = None\<rparr>,
      env_Labels = []\<rparr>"

lemma sample_config_accepted:
  "is_ok (NormalizeConfigForRootfs (\<lambda>s. s) sample_idna (Some sample_config) False)"
  by code_simp

text \<open>C28. A configuration that normalisation accepts is fit for admission. Its CPU and
  memory requests are positive, no limit is negative, and a positive limit bounds its
  request. On a read-only root filesystem it holds no ephemeral storage and no snapshot
  request; on a writable one its ephemeral-storage request is positive and within its limit.
  At most sixteen outputs are declared, in strictly increasing order of path, and each path
  is a cleaned absolute path below the root without parent references. The network policy
  is in normal form.\<close>

theorem accepted_config_sound:
  assumes "idna_contract idna" "NormalizeConfigForRootfs ul idna i readonly = Inr out"
  shows "(\<exists>r. ec_Resources out = Some r \<and> resources_sound readonly r) \<and>
    (readonly \<longrightarrow> \<not> ec_RootfsSnapshot out) \<and>
    (\<exists>ds. ec_DeclaredOutputs out = map Some ds \<and> length ds \<le> 16 \<and>
       sorted_wrt output_less ds \<and> (\<forall>d\<in>set ds. stored_path (do_Path d))) \<and>
    NormalizeNetwork ul idna (ec_Network out) = Inr (ec_Network out)"
proof -
  from assms(2) obtain c resources network ds where c: "c = config_or_empty i"
    "readonly \<longrightarrow> \<not> ec_RootfsSnapshot c" "NormalizeNetwork ul idna (ec_Network c) = Inr network"
    and d: "ec_DeclaredOutputs c = map Some ds" "length ds \<le> MaxDeclaredOutputs"
    "\<forall>d\<in>set ds. output_ok ul d" "distinct (map (\<lambda>d. clean_path (do_Path d)) ds)"
    and r: "NormalizeResourcesForRootfs (Some (NormalizeResources (ec_Resources c))) readonly = Inr resources"
    "ValidateResources (Some resources) = None"
    and out: "out = (NormalizeConfig ul idna i)\<lparr>ec_Resources := Some resources\<rparr>"
    by (rule NormalizeConfigForRootfs_cases)
  let ?ds = "sort_slice output_less (map normalizeOutput ds)"
  have "\<forall>d\<in>set ?ds. stored_path (do_Path d)"
    using d(3) by (auto simp: normalizeOutput_def output_ok_def output_path_ok_stored)
  moreover have "ec_DeclaredOutputs out = map Some ?ds"
    using out c(1) d(1) by (simp add: NormalizeConfig_fields normalizeDeclaredOutputs_def)
  ultimately have "\<exists>ds. ec_DeclaredOutputs out = map Some ds \<and> length ds \<le> 16 \<and>
       sorted_wrt output_less ds \<and> (\<forall>d\<in>set ds. stored_path (do_Path d))"
    using d(2) normalizeDeclaredOutputs_sorted [OF d(4)]
    by (intro exI [of _ ?ds]) (simp add: MaxDeclaredOutputs_def)
  moreover have "ec_Network out = network" using out c by (simp add: NormalizeConfig_fields)
  moreover have "resources_sound readonly resources"
    using NormalizeResourcesForRootfs_sound [OF r] by simp
  ultimately show ?thesis
    using out c canonical_network_fixed [OF NormalizeNetwork_canonical [OF assms(1)]]
    by (simp add: NormalizeConfig_fields)
qed

theorem accepted_config_sound_witness:
  "\<exists>out r. NormalizeConfigForRootfs (\<lambda>s. s) sample_idna (Some sample_config) False = Inr out \<and>
     ec_Resources out = Some r \<and> resources_sound False r"
proof -
  obtain out where "NormalizeConfigForRootfs (\<lambda>s. s) sample_idna (Some sample_config) False = Inr out"
    using sample_config_accepted by (auto simp: is_ok_iff)
  with accepted_config_sound [OF sample_idna_contract this] show ?thesis by blast
qed

text \<open>C29. Building the placement request of an accepted configuration never fails, and the
  request asks for what the configuration claims: positive CPU and memory, the hard
  memory limit as a capability exactly where a memory limit is set, and the
  ephemeral-storage limit exactly where the root filesystem is writable.\<close>

theorem accepted_config_places:
  assumes "idna_contract idna" "lower_idem ul"
    and "NormalizeConfigForRootfs ul idna i (resolvedReadonly env) = Inr out"
  shows "\<exists>req r. buildRequest ul idna env out = Inr req \<and> ec_Resources out = Some r \<and>
    rq_RequestedCpuMilli req = GetCpuMilli (rs_Requests r) \<and> 0 < rq_RequestedCpuMilli req \<and>
    rq_RequestedMemoryBytes req = GetMemoryBytes (rs_Requests r) \<and> 0 < rq_RequestedMemoryBytes req \<and>
    (KeyPlatform PC_RUNSC_MEMORY_HARD_LIMIT \<in> set (rq_CapabilityRequirements req) \<longleftrightarrow>
       0 < GetMemoryBytes (rs_Limits r)) \<and>
    (KeyPlatform PC_RUNSC_EPHEMERAL_STORAGE_HARD_LIMIT \<in> set (rq_CapabilityRequirements req) \<longleftrightarrow>
       \<not> resolvedReadonly env)"
proof -
  from assms(3) obtain c resources network where c: "c = config_or_empty i"
    "ValidateExtensionRequirements ul (ec_ExtensionCapabilityRequirements c) = None"
    "NormalizeNetwork ul idna (ec_Network c) = Inr network"
    and r: "NormalizeResourcesForRootfs (Some (NormalizeResources (ec_Resources c))) (resolvedReadonly env) = Inr resources"
    "ValidateResources (Some resources) = None"
    and out: "out = (NormalizeConfig ul idna i)\<lparr>ec_Resources := Some resources\<rparr>"
    by (rule NormalizeConfigForRootfs_cases)
  have sound: "resources_sound (resolvedReadonly env) resources"
    by (rule NormalizeResourcesForRootfs_sound(1) [OF r])
  have ext: "ValidateExtensionRequirements ul (ec_ExtensionCapabilityRequirements out) = None"
    using c out normalizeExtensionRequirements_valid [OF _ assms(2)] by (simp add: NormalizeConfig_fields)
  have net: "NormalizeNetwork ul idna (ec_Network out) = Inr network"
    using c out canonical_network_fixed [OF NormalizeNetwork_canonical [OF assms(1)]]
    by (simp add: NormalizeConfig_fields)
  have lim: "GetLimits (ec_Resources out) = rs_Limits resources"
    "GetRequests (ec_Resources out) = rs_Requests resources"
    using out by (simp_all add: GetLimits_def GetRequests_def)
  obtain ks where ks:
    "DeriveRequestStaticRequirements ul (staticInput ul network (resolvedReadonly env) out) = Inr ks"
    "set ks = set (derivedKeys ul (staticInput ul network (resolvedReadonly env) out) [])"
    by (rule static_derivation_ok [OF assms(2) _ _ ext])
      (use sound lim in \<open>auto simp: resources_sound_def Let_def\<close>)
  have mem: "KeyPlatform p \<in> set ks \<longleftrightarrow>
      p \<in> set (derivedPlatforms (staticInput ul network (resolvedReadonly env) out) [])" for p
    unfolding ks(2) by (rule derivedKeys_members(1)) (simp add: staticInput_def Let_def ext)
  from net ks(1) obtain req where req: "buildRequest ul idna env out = Inr req"
    "rq_CapabilityRequirements req = ks"
    "rq_RequestedCpuMilli req = GetCpuMilli (rs_Requests resources)"
    "rq_RequestedMemoryBytes req = GetMemoryBytes (rs_Requests resources)"
    by (simp add: buildRequest_def Let_def lim)
  then show ?thesis
    using out sound lim
    by (intro exI [of _ req] exI [of _ resources])
      (auto simp: mem derivedPlatforms_def staticInput_def Let_def resources_sound_def)
qed

theorem accepted_config_places_witness:
  "\<exists>out req. NormalizeConfigForRootfs (\<lambda>s. s) sample_idna (Some sample_config)
       (resolvedReadonly sample_environment) = Inr out \<and>
     buildRequest (\<lambda>s. s) sample_idna sample_environment out = Inr req \<and> 0 < rq_RequestedCpuMilli req"
proof -
  have "resolvedReadonly sample_environment = False"
    by (simp add: resolvedReadonly_def sample_environment_def)
  then obtain out where "NormalizeConfigForRootfs (\<lambda>s. s) sample_idna (Some sample_config)
      (resolvedReadonly sample_environment) = Inr out"
    using sample_config_accepted by (auto simp: is_ok_iff)
  with accepted_config_places [OF sample_idna_contract lower_idem_id this] show ?thesis by blast
qed

end
