(* ===== verification/Run_Request.thy ===== *)
theory Run_Request
  imports Execution_Config
begin

unbundle bit_operations_syntax

text \<open>
  The admission of a run's configuration at the public API
  (\<open>api/publicv1/config_validation.go\<close>, called from \<open>CreateRun\<close> in
  \<open>api/publicv1/run.go\<close>), what the control plane stores of it
  (\<open>application/run/controller.go\<close> and \<open>postgres/run/run_admission.go\<close>
  normalise one after the other), and the node's own checks of what it is sent
  (\<open>runtime/axnoded/internal/service/startplan/builders.go\<close>).

  The OCI reference parser of \<open>go-containerregistry\<close> is the parameter
  \<open>parse_ref\<close>, true where it returns no error.

  The lemmas show that the paths the API accepts keep clear of each other and of the
  protected paths, that this carries over to what is stored where the cleaned paths have no
  space at their ends, and that it does not carry over otherwise.
\<close>

section \<open>Path rules\<close>

definition pathsOverlap :: "string \<Rightarrow> string \<Rightarrow> bool" where
  "pathsOverlap a b =
     (let a' = Clean a; b' = Clean b
      in a' = b' \<or> prefix (b' @ ''/'') a' \<or> prefix (a' @ ''/'') b')"

definition pathHasParentReference :: "string \<Rightarrow> bool" where
  "pathHasParentReference s = list_ex (\<lambda>part. part = ''..'') (split_on (CHR ''/'') s)"

definition protectedSecretDirs :: "string list" where
  "protectedSecretDirs =
     [''/bin'', ''/boot'', ''/dev'', ''/lib'', ''/lib64'', ''/proc'', ''/sbin'', ''/sys'', ''/usr'',
      ''/run/axern'', ''/var/run/axern'']"

definition protectedSecretFiles :: "string list" where
  "protectedSecretFiles =
     [''/etc/group'', ''/etc/gshadow'', ''/etc/hostname'', ''/etc/hosts'', ''/etc/ld.so.preload'',
      ''/etc/passwd'', ''/etc/resolv.conf'', ''/etc/shadow'']"

definition protectedSecretFileTarget :: "string \<Rightarrow> bool" where
  "protectedSecretFileTarget target =
     (list_ex (pathsOverlap target) protectedSecretDirs \<or>
      list_ex (pathsOverlap target) protectedSecretFiles)"

definition protectedMounts :: "string list" where
  "protectedMounts =
     [''/bin'', ''/dev'', ''/etc'', ''/lib'', ''/lib64'', ''/mnt'', ''/proc'', ''/run'', ''/sbin'',
      ''/sys'', ''/usr'']"

definition protectedImageMountTarget :: "string \<Rightarrow> bool" where
  "protectedImageMountTarget target = list_ex (pathsOverlap target) protectedMounts"

section \<open>Validation at the API\<close>

datatype request_error =
    EnvNameRequired | EnvNameInvalid | EnvDuplicate | EnvSecretID | EnvKey
  | FilePathRequired | FilePathInvalid | FileProtected | FileOverlap | FileSecretID | FileKey | FileMode
  | EmptyArgv | ConfigInvalid execution_error | ConfigCapabilities capability_error
  | MountImageRequired | MountImageInvalid | MountTarget | MountProtected | MountOverlap
  | MountSecretOverlap

definition secretEnvironmentNamePattern :: "string \<Rightarrow> bool" where
  "secretEnvironmentNamePattern s =
     (case s of
        [] \<Rightarrow> False
      | c # cs \<Rightarrow>
          (is_lower_char c \<or> is_upper_char c \<or> c = CHR ''_'') \<and>
          list_all (\<lambda>d. is_alnum d \<or> d = CHR ''_'') cs)"

fun secretEnvLoop :: "string list \<Rightarrow> secret_env_var option list \<Rightarrow> request_error option" where
  "secretEnvLoop seen [] = None"
| "secretEnvLoop seen (None # rest) = secretEnvLoop seen rest"
| "secretEnvLoop seen (Some item # rest) =
     (let name = trim_space (sv_Name item)
      in if name = [] then Some EnvNameRequired
         else if \<not> secretEnvironmentNamePattern name then Some EnvNameInvalid
         else if name \<in> set seen then Some EnvDuplicate
         else if trim_space (sv_SecretID item) = [] then Some EnvSecretID
         else if trim_space (sv_Key item) = [] then Some EnvKey
         else secretEnvLoop (name # seen) rest)"

text \<open>0o777 is 511 and 0o222 is 146; the mode is a \<open>uint32\<close>.\<close>

definition readonly_mode :: "int \<Rightarrow> bool" where
  "readonly_mode m \<longleftrightarrow> m \<le> 511 \<and> m AND 146 = 0"

fun secretFileLoop :: "string list \<Rightarrow> secret_file option list \<Rightarrow> request_error option" where
  "secretFileLoop seen [] = None"
| "secretFileLoop seen (None # rest) = secretFileLoop seen rest"
| "secretFileLoop seen (Some item # rest) =
     (let rawPath = trim_space (sf_Path item); cleanPath = Clean rawPath
      in if rawPath = [] then Some FilePathRequired
         else if cleanPath = ''/'' \<or> \<not> prefix ''/'' cleanPath \<or> pathHasParentReference rawPath
         then Some FilePathInvalid
         else if protectedSecretFileTarget cleanPath then Some FileProtected
         else if list_ex (\<lambda>existing. pathsOverlap existing cleanPath) seen then Some FileOverlap
         else if trim_space (sf_SecretID item) = [] then Some FileSecretID
         else if trim_space (sf_Key item) = [] then Some FileKey
         else if \<not> readonly_mode (sf_Mode item) then Some FileMode
         else secretFileLoop (cleanPath # seen) rest)"

definition validateExecutionConfigSecretRefs :: "execution_config option \<Rightarrow> request_error option" where
  "validateExecutionConfigSecretRefs config =
     (case config of
        None \<Rightarrow> None
      | Some c \<Rightarrow>
          (case secretEnvLoop [] (ec_SecretEnv c) of
             Some e \<Rightarrow> Some e
           | None \<Rightarrow> secretFileLoop [] (ec_SecretFiles c)))"

definition validateOptionalExecutionArgv :: "execution_config option \<Rightarrow> request_error option" where
  "validateOptionalExecutionArgv config =
     (case config of
        None \<Rightarrow> None
      | Some c \<Rightarrow>
          (case ec_Argv c of
             [] \<Rightarrow> None
           | a # _ \<Rightarrow> if trim_space a = [] then Some EmptyArgv else None))"

definition validateExecutionConfigResources :: "execution_config option \<Rightarrow> request_error option" where
  "validateExecutionConfigResources config =
     (case config of
        None \<Rightarrow> None
      | Some c \<Rightarrow> map_option ConfigInvalid (ValidateResources (ec_Resources c)))"

definition validateExecutionConfigNetwork ::
  "(string \<Rightarrow> string) \<Rightarrow> (string \<Rightarrow> string option) \<Rightarrow> execution_config option \<Rightarrow> request_error option" where
  "validateExecutionConfigNetwork ul idna config =
     (case config of
        None \<Rightarrow> None
      | Some c \<Rightarrow> map_option ConfigInvalid (ValidateNetwork ul idna (ec_Network c)))"

definition validateExecutionConfigCapabilities ::
  "(string \<Rightarrow> string) \<Rightarrow> execution_config option \<Rightarrow> request_error option" where
  "validateExecutionConfigCapabilities ul config =
     (case config of
        None \<Rightarrow> None
      | Some c \<Rightarrow> map_option ConfigCapabilities
                    (ValidateExtensionRequirements ul (ec_ExtensionCapabilityRequirements c)))"

fun imageMountLoop ::
  "(string \<Rightarrow> bool) \<Rightarrow> string list \<Rightarrow> image_mount option list \<Rightarrow> request_error option" where
  "imageMountLoop parse_ref seen [] = None"
| "imageMountLoop parse_ref seen (None # rest) = imageMountLoop parse_ref seen rest"
| "imageMountLoop parse_ref seen (Some item # rest) =
     (let image = trim_space (im_Image item); rawTarget = trim_space (im_Target item);
          target = Clean rawTarget
      in if image = [] then Some MountImageRequired
         else if \<not> parse_ref image then Some MountImageInvalid
         else if target = ''.'' \<or> target = ''/'' \<or> \<not> prefix ''/'' target \<or> pathHasParentReference rawTarget
         then Some MountTarget
         else if protectedImageMountTarget target then Some MountProtected
         else if list_ex (\<lambda>existing. pathsOverlap existing target) seen then Some MountOverlap
         else imageMountLoop parse_ref (target # seen) rest)"

definition validateImageMountNoSecretFileOverlap :: "execution_config \<Rightarrow> request_error option" where
  "validateImageMountNoSecretFileOverlap config =
     (if list_ex (\<lambda>m. list_ex (\<lambda>f. pathsOverlap (clean_path (im_Target m)) (clean_path (sf_Path f)))
                        (present (ec_SecretFiles config)))
           (present (ec_ImageMounts config))
      then Some MountSecretOverlap else None)"

definition validateExecutionConfigImageMounts ::
  "(string \<Rightarrow> bool) \<Rightarrow> execution_config option \<Rightarrow> request_error option" where
  "validateExecutionConfigImageMounts parse_ref config =
     (case config of
        None \<Rightarrow> None
      | Some c \<Rightarrow>
          if ec_ImageMounts c = [] then None
          else
            (case imageMountLoop parse_ref [] (ec_ImageMounts c) of
               Some e \<Rightarrow> Some e
             | None \<Rightarrow> validateImageMountNoSecretFileOverlap c))"

text \<open>The checks of the \<open>CreateRun\<close> handler, in its order.\<close>

definition validateCreateRun ::
  "(string \<Rightarrow> string) \<Rightarrow> (string \<Rightarrow> string option) \<Rightarrow> (string \<Rightarrow> bool) \<Rightarrow> execution_config option \<Rightarrow>
   request_error option" where
  "validateCreateRun ul idna parse_ref config =
     check_all (\<lambda>e. e)
       [validateExecutionConfigSecretRefs config, validateOptionalExecutionArgv config,
        validateExecutionConfigResources config, validateExecutionConfigNetwork ul idna config,
        validateExecutionConfigCapabilities ul config,
        validateExecutionConfigImageMounts parse_ref config]"

text \<open>The configuration a run is stored with: the controller normalises the request for the
  root filesystem and the admission transaction normalises the result once more.\<close>

definition storedConfig ::
  "(string \<Rightarrow> string) \<Rightarrow> (string \<Rightarrow> string option) \<Rightarrow> (string \<Rightarrow> bool) \<Rightarrow> execution_config option \<Rightarrow>
   bool \<Rightarrow> request_error + execution_config" where
  "storedConfig ul idna parse_ref config readonly =
     (case validateCreateRun ul idna parse_ref config of
        Some e \<Rightarrow> Inl e
      | None \<Rightarrow>
          bind_result (lift_error ConfigInvalid (NormalizeConfigForRootfs ul idna config readonly))
            (\<lambda>c. Inr (NormalizeConfig ul idna (Some c))))"

section \<open>The node's checks\<close>

definition maxDeclaredOutputs :: nat where
  "maxDeclaredOutputs = 16"

fun nodeOutputLoop ::
  "(string \<Rightarrow> string) \<Rightarrow> string list \<Rightarrow> declared_output option list \<Rightarrow> output_error option" where
  "nodeOutputLoop ul seen [] = None"
| "nodeOutputLoop ul seen (None # rest) = Some OutputRequired"
| "nodeOutputLoop ul seen (Some declared # rest) =
     (let rawPath = trim_space (do_Path declared);
          cleanPath = Clean rawPath;
          mediaType = trim_space (do_MediaType declared)
      in if rawPath = [] \<or> cleanPath = ''/'' \<or> \<not> prefix ''/'' cleanPath \<or> hasParentPathElement rawPath
         then Some OutputPath
         else if cleanPath \<in> set seen then Some OutputDuplicate
         else if do_Format declared \<noteq> OF_FILE \<and> do_Format declared \<noteq> OF_TAR then Some OutputFormat
         else if 128 < length mediaType then Some MediaTypeTooLong
         else if mediaType \<noteq> [] \<and> \<not> ParseMediaType ul mediaType then Some MediaTypeInvalid
         else nodeOutputLoop ul (cleanPath # seen) rest)"

definition ValidateDeclaredOutputs ::
  "(string \<Rightarrow> string) \<Rightarrow> declared_output option list \<Rightarrow> output_error option" where
  "ValidateDeclaredOutputs ul outputs =
     (if maxDeclaredOutputs < length outputs then Some OutputCount else nodeOutputLoop ul [] outputs)"

record linux_resources =
  lr_CpuPeriod :: int
  lr_CpuQuota :: int64
  lr_CpuShares :: int
  lr_MemoryLimitInBytes :: int64
  lr_MemorySwapLimitInBytes :: int64

text \<open>A conversion to \<open>uint64\<close>.\<close>

definition to_uint64 :: "int64 \<Rightarrow> int" where
  "to_uint64 x = x mod 2 ^ 64"

definition ResourcesToLinux :: "resource_spec option \<Rightarrow> linux_resources" where
  "ResourcesToLinux resources =
     (let res = \<lparr>lr_CpuPeriod = 0, lr_CpuQuota = 0, lr_CpuShares = 512, lr_MemoryLimitInBytes = 0,
                 lr_MemorySwapLimitInBytes = 0\<rparr>;
          cpu = GetCpuMilli (GetRequests resources);
          cpuLimit = GetCpuMilli (GetLimits resources);
          memLimit = GetMemoryBytes (GetLimits resources);
          shares = to_uint64 (go_div (wrap64 (cpu * 1024)) 1000);
          quota = go_div (wrap64 (cpuLimit * 100000)) 1000;
          res1 = (if 0 < cpu then res\<lparr>lr_CpuShares := (if shares < 2 then 2 else shares)\<rparr> else res);
          res2 = (if 0 < cpuLimit
                  then res1\<lparr>lr_CpuPeriod := 100000, lr_CpuQuota := (if quota < 1 then 1 else quota)\<rparr>
                  else res1)
      in if 0 < memLimit
         then res2\<lparr>lr_MemoryLimitInBytes := memLimit, lr_MemorySwapLimitInBytes := memLimit\<rparr>
         else res2)"

definition EffectiveNetworkMode ::
  "(string \<Rightarrow> string) \<Rightarrow> string \<Rightarrow> network_spec option \<Rightarrow> string" where
  "EffectiveNetworkMode ul defaultMode network =
     (let mode = (case network of None \<Rightarrow> NM_UNSPECIFIED | Some n \<Rightarrow> ns_Mode n)
      in if mode \<noteq> NM_UNSPECIFIED \<and> mode \<noteq> NM_DEFAULT
         then to_lower ul (trim_prefix ''NETWORK_MODE_'' (mode_String mode))
         else defaultMode)"

section \<open>Paths that keep clear of each other\<close>

lemma pathsOverlap_sym: "pathsOverlap a b \<longleftrightarrow> pathsOverlap b a"
  by (auto simp: pathsOverlap_def Let_def)

text \<open>The accepted secret files: absolute, unprotected, pairwise clear, read-only.\<close>

definition file_ok :: "secret_file \<Rightarrow> bool" where
  "file_ok f \<longleftrightarrow>
     is_rooted (clean_path (sf_Path f)) \<and> clean_path (sf_Path f) \<noteq> ''/'' \<and>
     \<not> protectedSecretFileTarget (clean_path (sf_Path f)) \<and> readonly_mode (sf_Mode f)"

definition clear_paths :: "string list \<Rightarrow> bool" where
  "clear_paths ps \<longleftrightarrow> sorted_wrt (\<lambda>p q. \<not> pathsOverlap p q) ps"

lemma secretFileLoop_ok:
  "secretFileLoop seen i = None \<Longrightarrow>
     (\<forall>f\<in>set (present i). file_ok f) \<and>
     clear_paths (map (\<lambda>f. clean_path (sf_Path f)) (present i)) \<and>
     (\<forall>p\<in>set seen. \<forall>f\<in>set (present i). \<not> pathsOverlap p (clean_path (sf_Path f)))"
proof (induction seen i rule: secretFileLoop.induct)
  case (3 seen item rest)
  let ?p = "clean_path (sf_Path item)"
  from "3.prems" have now: "file_ok item" "\<forall>p\<in>set seen. \<not> pathsOverlap p ?p"
    "secretFileLoop (?p # seen) rest = None"
    by (auto simp: Let_def file_ok_def is_rooted_def clean_path_def list_ex_iff split: if_splits)
  from "3.prems" have "(\<forall>f\<in>set (present rest). file_ok f) \<and>
     clear_paths (map (\<lambda>f. clean_path (sf_Path f)) (present rest)) \<and>
     (\<forall>p\<in>set (?p # seen). \<forall>f\<in>set (present rest). \<not> pathsOverlap p (clean_path (sf_Path f)))"
    using "3.IH" [OF refl refl] now(3) by (auto simp: Let_def clean_path_def split: if_splits)
  with now show ?case by (auto simp: clear_paths_def)
qed (auto simp: clear_paths_def)

definition mount_ok :: "image_mount \<Rightarrow> bool" where
  "mount_ok m \<longleftrightarrow>
     is_rooted (clean_path (im_Target m)) \<and> clean_path (im_Target m) \<noteq> ''/'' \<and>
     \<not> protectedImageMountTarget (clean_path (im_Target m))"

lemma imageMountLoop_ok:
  "imageMountLoop parse_ref seen i = None \<Longrightarrow>
     (\<forall>m\<in>set (present i). mount_ok m) \<and>
     clear_paths (map (\<lambda>m. clean_path (im_Target m)) (present i)) \<and>
     (\<forall>p\<in>set seen. \<forall>m\<in>set (present i). \<not> pathsOverlap p (clean_path (im_Target m)))"
proof (induction parse_ref seen i rule: imageMountLoop.induct)
  case (3 parse_ref seen item rest)
  let ?p = "clean_path (im_Target item)"
  from "3.prems" have now: "mount_ok item" "\<forall>p\<in>set seen. \<not> pathsOverlap p ?p"
    "imageMountLoop parse_ref (?p # seen) rest = None"
    by (auto simp: Let_def mount_ok_def is_rooted_def clean_path_def list_ex_iff split: if_splits)
  from "3.prems" have "(\<forall>m\<in>set (present rest). mount_ok m) \<and>
     clear_paths (map (\<lambda>m. clean_path (im_Target m)) (present rest)) \<and>
     (\<forall>p\<in>set (?p # seen). \<forall>m\<in>set (present rest). \<not> pathsOverlap p (clean_path (im_Target m)))"
    using "3.IH" [OF refl refl refl] now(3) by (auto simp: Let_def clean_path_def split: if_splits)
  with now show ?case by (auto simp: clear_paths_def)
qed (auto simp: clear_paths_def)

section \<open>What is stored\<close>

text \<open>A path whose cleaned form has no space at its ends; cleaning and trimming it again
  changes nothing.\<close>

definition firm_path :: "string \<Rightarrow> bool" where
  "firm_path p \<longleftrightarrow> trim_space (clean_path p) = clean_path p"

lemma clean_path_firm:
  assumes "firm_path p" "is_rooted (clean_path p)"
  shows "clean_path (clean_path p) = clean_path p"
proof -
  have "is_rooted (trim_space p)"
    using assms(2) Clean_is_rooted_iff by (simp add: clean_path_def)
  then have "Clean (clean_path p) = clean_path p"
    unfolding clean_path_def [of p] by (rule Clean_rooted_idem)
  with assms(1) show ?thesis by (simp add: clean_path_def [of "clean_path p"] firm_path_def)
qed

lemma storedConfig_cases:
  assumes "storedConfig ul idna parse_ref (Some c) readonly = Inr out"
  obtains mid where "validateExecutionConfigSecretRefs (Some c) = None"
    "validateExecutionConfigImageMounts parse_ref (Some c) = None"
    "NormalizeConfigForRootfs ul idna (Some c) readonly = Inr mid"
    "out = NormalizeConfig ul idna (Some mid)"
    "ec_SecretFiles mid = normalizeSecretFiles (ec_SecretFiles c)"
    "ec_ImageMounts mid = NormalizeImageMounts (ec_ImageMounts c)"
    "ec_DeclaredOutputs mid = normalizeDeclaredOutputs (ec_DeclaredOutputs c)"
proof -
  from assms have v: "validateCreateRun ul idna parse_ref (Some c) = None"
    by (auto simp: storedConfig_def split: option.splits)
  with assms obtain mid where m: "NormalizeConfigForRootfs ul idna (Some c) readonly = Inr mid"
    "out = NormalizeConfig ul idna (Some mid)"
    by (cases "NormalizeConfigForRootfs ul idna (Some c) readonly") (auto simp: storedConfig_def)
  obtain resources where
    "mid = (NormalizeConfig ul idna (Some c))\<lparr>ec_Resources := Some resources\<rparr>"
    using m(1) by (rule NormalizeConfigForRootfs_cases)
  then show thesis
    using that [OF _ _ m] v unfolding validateCreateRun_def check_all_None_iff
    by (simp add: NormalizeConfig_fields config_or_empty_def)
qed

lemma normalizeSecretFiles_twice:
  assumes "\<forall>f\<in>set (present i). firm_path (sf_Path f) \<and> is_rooted (clean_path (sf_Path f))"
  shows "map sf_Path (present (normalizeSecretFiles (normalizeSecretFiles i))) =
      map (\<lambda>f. clean_path (sf_Path f)) (present i)"
    "map sf_Mode (present (normalizeSecretFiles (normalizeSecretFiles i))) = map sf_Mode (present i)"
  using assms by (simp_all add: normalizeSecretFiles_def comp_def clean_path_firm)

lemma NormalizeImageMounts_twice:
  assumes "\<forall>m\<in>set (present i). firm_path (im_Target m) \<and> is_rooted (clean_path (im_Target m))"
  shows "map im_Target (present (NormalizeImageMounts (NormalizeImageMounts i))) =
    map (\<lambda>m. clean_path (im_Target m)) (present i)"
  using assms by (simp add: NormalizeImageMounts_def comp_def clean_path_firm)

lemma validateExecutionConfigImageMounts_ok:
  assumes "validateExecutionConfigImageMounts parse_ref (Some c) = None"
  shows "\<forall>m\<in>set (present (ec_ImageMounts c)). mount_ok m"
    "clear_paths (map (\<lambda>m. clean_path (im_Target m)) (present (ec_ImageMounts c)))"
    "\<forall>m\<in>set (present (ec_ImageMounts c)). \<forall>f\<in>set (present (ec_SecretFiles c)).
       \<not> pathsOverlap (clean_path (im_Target m)) (clean_path (sf_Path f))"
  using assms imageMountLoop_ok [of parse_ref "[]" "ec_ImageMounts c"]
  by (auto simp: validateExecutionConfigImageMounts_def validateImageMountNoSecretFileOverlap_def
      list_ex_iff clear_paths_def split: if_splits option.splits)

lemma validateExecutionConfigSecretRefs_ok:
  assumes "validateExecutionConfigSecretRefs (Some c) = None"
  shows "\<forall>f\<in>set (present (ec_SecretFiles c)). file_ok f"
    "clear_paths (map (\<lambda>f. clean_path (sf_Path f)) (present (ec_SecretFiles c)))"
  using assms secretFileLoop_ok [of "[]" "ec_SecretFiles c"]
  by (auto simp: validateExecutionConfigSecretRefs_def split: option.splits)

lemma in_map_iff_image: "x \<in> set xs \<Longrightarrow> map f xs = map g ys \<Longrightarrow> \<exists>y\<in>set ys. f x = g y"
  by (metis (no_types, lifting) imageE image_eqI list.set_map)

definition sample_request :: execution_config where
  "sample_request = empty_config
     \<lparr>ec_SecretFiles :=
        [Some \<lparr>sf_Path = '' /s//token'', sf_SecretID = ''s'', sf_Key = ''k'', sf_Mode = 256, sf_Optional = False\<rparr>],
      ec_DeclaredOutputs := [Some \<lparr>do_Path = ''/o/./r'', do_Format = OF_FILE, do_MediaType = []\<rparr>]\<rparr>"

lemma sample_request_stored:
  "is_ok (storedConfig (\<lambda>s. s) sample_idna (\<lambda>r. True) (Some sample_request) False)"
  by code_simp

lemma sample_request_firm:
  "\<forall>f\<in>set (present (ec_SecretFiles sample_request)). firm_path (sf_Path f)"
  "\<forall>m\<in>set (present (ec_ImageMounts sample_request)). firm_path (im_Target m)"
  "\<forall>d\<in>set (present (ec_DeclaredOutputs sample_request)). firm_path (do_Path d)"
proof -
  have "firm_path '' /s//token''" "firm_path ''/o/./r''" unfolding firm_path_def by code_simp+
  then show "\<forall>f\<in>set (present (ec_SecretFiles sample_request)). firm_path (sf_Path f)"
    "\<forall>m\<in>set (present (ec_ImageMounts sample_request)). firm_path (im_Target m)"
    "\<forall>d\<in>set (present (ec_DeclaredOutputs sample_request)). firm_path (do_Path d)"
    by (simp_all add: sample_request_def empty_config_def)
qed

text \<open>C30. The paths of a stored configuration keep clear of each other and of the system's:
  where no cleaned path of the request has a space at its ends, no stored secret file
  touches a protected path, every stored mode is read-only, no two stored secret files
  overlap, no stored image mount touches a protected directory, and no two image mounts
  and no image mount and secret file overlap.\<close>

theorem stored_paths_stay_clear:
  assumes "storedConfig ul idna parse_ref (Some c) readonly = Inr out"
    and "\<forall>f\<in>set (present (ec_SecretFiles c)). firm_path (sf_Path f)"
    and "\<forall>m\<in>set (present (ec_ImageMounts c)). firm_path (im_Target m)"
  shows "(\<forall>f\<in>set (present (ec_SecretFiles out)).
        \<not> protectedSecretFileTarget (sf_Path f) \<and> readonly_mode (sf_Mode f)) \<and>
    clear_paths (map sf_Path (present (ec_SecretFiles out))) \<and>
    (\<forall>m\<in>set (present (ec_ImageMounts out)). \<not> protectedImageMountTarget (im_Target m)) \<and>
    clear_paths (map im_Target (present (ec_ImageMounts out))) \<and>
    (\<forall>m\<in>set (present (ec_ImageMounts out)). \<forall>f\<in>set (present (ec_SecretFiles out)).
        \<not> pathsOverlap (im_Target m) (sf_Path f))"
proof -
  from assms(1) obtain mid where v: "validateExecutionConfigSecretRefs (Some c) = None"
    "validateExecutionConfigImageMounts parse_ref (Some c) = None"
    and out: "out = NormalizeConfig ul idna (Some mid)"
    "ec_SecretFiles mid = normalizeSecretFiles (ec_SecretFiles c)"
    "ec_ImageMounts mid = NormalizeImageMounts (ec_ImageMounts c)"
    by (rule storedConfig_cases)
  note files = validateExecutionConfigSecretRefs_ok [OF v(1)]
  note mounts = validateExecutionConfigImageMounts_ok [OF v(2)]
  have f: "map sf_Path (present (ec_SecretFiles out)) =
      map (\<lambda>f. clean_path (sf_Path f)) (present (ec_SecretFiles c))"
    "map sf_Mode (present (ec_SecretFiles out)) = map sf_Mode (present (ec_SecretFiles c))"
    using normalizeSecretFiles_twice [of "ec_SecretFiles c"] assms(2) files(1) out
    by (simp_all add: NormalizeConfig_fields config_or_empty_def file_ok_def)
  have m: "map im_Target (present (ec_ImageMounts out)) =
      map (\<lambda>m. clean_path (im_Target m)) (present (ec_ImageMounts c))"
    using NormalizeImageMounts_twice [of "ec_ImageMounts c"] assms(3) mounts(1) out
    by (simp add: NormalizeConfig_fields config_or_empty_def mount_ok_def)
  have path: "\<exists>y\<in>set (present (ec_SecretFiles c)). sf_Path x = clean_path (sf_Path y)"
    and mode: "\<exists>y\<in>set (present (ec_SecretFiles c)). sf_Mode x = sf_Mode y"
    if "x \<in> set (present (ec_SecretFiles out))" for x
    using in_map_iff_image [OF that f(1)] in_map_iff_image [OF that f(2)] by auto
  have target: "\<exists>y\<in>set (present (ec_ImageMounts c)). im_Target x = clean_path (im_Target y)"
    if "x \<in> set (present (ec_ImageMounts out))" for x
    using in_map_iff_image [OF that m] by auto
  have "\<forall>x\<in>set (present (ec_SecretFiles out)).
      \<not> protectedSecretFileTarget (sf_Path x) \<and> readonly_mode (sf_Mode x)"
    using path mode files(1) unfolding file_ok_def by metis
  moreover have "\<forall>x\<in>set (present (ec_ImageMounts out)). \<not> protectedImageMountTarget (im_Target x)"
    using target mounts(1) unfolding mount_ok_def by metis
  moreover have "\<forall>x\<in>set (present (ec_ImageMounts out)). \<forall>y\<in>set (present (ec_SecretFiles out)).
      \<not> pathsOverlap (im_Target x) (sf_Path y)"
    using path target mounts(3) by metis
  ultimately show ?thesis using files(2) mounts(2) f(1) m by simp
qed

theorem stored_paths_stay_clear_witness:
  "\<exists>out. storedConfig (\<lambda>s. s) sample_idna (\<lambda>r. True) (Some sample_request) False = Inr out \<and>
     (\<forall>f\<in>set (present (ec_SecretFiles out)). \<not> protectedSecretFileTarget (sf_Path f))"
proof -
  obtain out where "storedConfig (\<lambda>s. s) sample_idna (\<lambda>r. True) (Some sample_request) False = Inr out"
    using sample_request_stored by (auto simp: is_ok_iff)
  with stored_paths_stay_clear [OF this sample_request_firm(1,2)] show ?thesis by blast
qed

text \<open>A request whose cleaned paths end in a space. The API accepts it, and trimming the
  cleaned path a second time turns it into a protected path.\<close>

definition trailing_space_config :: execution_config where
  "trailing_space_config = empty_config
     \<lparr>ec_SecretFiles :=
        [Some \<lparr>sf_Path = ''/etc/passwd /.'', sf_SecretID = ''s'', sf_Key = ''k'', sf_Mode = 256, sf_Optional = False\<rparr>],
      ec_ImageMounts := [Some \<lparr>im_Image = ''tools'', im_Target = ''/usr /.''\<rparr>],
      ec_DeclaredOutputs :=
        [Some \<lparr>do_Path = ''/out'', do_Format = OF_FILE, do_MediaType = []\<rparr>,
         Some \<lparr>do_Path = ''/out /.'', do_Format = OF_FILE, do_MediaType = []\<rparr>]\<rparr>"

lemma trailing_space_paths:
  "clean_path ''/etc/passwd /.'' = ''/etc/passwd ''" "clean_path ''/etc/passwd '' = ''/etc/passwd''"
  "clean_path ''/usr /.'' = ''/usr ''" "clean_path ''/usr '' = ''/usr''"
  "clean_path ''/out /.'' = ''/out ''" "clean_path ''/out '' = ''/out''" "clean_path ''/out'' = ''/out''"
  by code_simp+

lemma trailing_space_checks:
  "validateExecutionConfigSecretRefs (Some trailing_space_config) = None"
  "validateExecutionConfigImageMounts (\<lambda>r. True) (Some trailing_space_config) = None"
  "validateDeclaredOutputs (\<lambda>s. s) (ec_DeclaredOutputs trailing_space_config) = None"
proof -
  show "validateExecutionConfigSecretRefs (Some trailing_space_config) = None" by code_simp
  have "\<not> pathsOverlap ''/usr '' ''/etc/passwd ''" by code_simp
  then have "validateImageMountNoSecretFileOverlap trailing_space_config = None"
    by (simp add: validateImageMountNoSecretFileOverlap_def trailing_space_config_def empty_config_def
        trailing_space_paths)
  moreover have "imageMountLoop (\<lambda>r. True) [] (ec_ImageMounts trailing_space_config) = None"
    by code_simp
  ultimately show "validateExecutionConfigImageMounts (\<lambda>r. True) (Some trailing_space_config) = None"
    by (simp add: validateExecutionConfigImageMounts_def)
  show "validateDeclaredOutputs (\<lambda>s. s) (ec_DeclaredOutputs trailing_space_config) = None"
    by code_simp
qed

lemma trailing_space_rest:
  "ValidateResources (ec_Resources trailing_space_config) = None"
  "NormalizeNetwork (\<lambda>s. s) sample_idna (ec_Network trailing_space_config) = Inr None"
  "ValidateExtensionRequirements (\<lambda>s. s) (ec_ExtensionCapabilityRequirements trailing_space_config) = None"
  "ec_Argv trailing_space_config = []" "ec_RootfsSnapshot trailing_space_config = False"
  "validateResourceSigns (ec_Resources trailing_space_config) = None"
  by code_simp+

lemma trailing_space_resources:
  "\<exists>r. NormalizeResourcesForRootfs (Some (NormalizeResources (ec_Resources trailing_space_config))) False = Inr r \<and>
     ValidateResources (Some r) = None"
  by (rule exI, rule conjI, rule trans [OF _ refl], code_simp, code_simp)

text \<open>C31. The hypothesis of the previous property is needed, and the protection can be
  bypassed: a request that passes every check of the API and of normalisation is stored
  with a secret file at \<open>/etc/passwd\<close>, an image mounted over \<open>/usr\<close>, and a
  declared output listed twice, which the node then rejects.\<close>

theorem protected_path_bypass:
  "validateCreateRun (\<lambda>s. s) sample_idna (\<lambda>r. True) (Some trailing_space_config) = None \<and>
   (\<exists>out. storedConfig (\<lambda>s. s) sample_idna (\<lambda>r. True) (Some trailing_space_config) False = Inr out \<and>
      map sf_Path (present (ec_SecretFiles out)) = [''/etc/passwd''] \<and>
      protectedSecretFileTarget ''/etc/passwd'' \<and>
      map im_Target (present (ec_ImageMounts out)) = [''/usr''] \<and> protectedImageMountTarget ''/usr'' \<and>
      ValidateDeclaredOutputs (\<lambda>s. s) (ec_DeclaredOutputs out) = Some OutputDuplicate)"
proof -
  let ?c = trailing_space_config
  have valid: "validateCreateRun (\<lambda>s. s) sample_idna (\<lambda>r. True) (Some ?c) = None"
    by (simp add: validateCreateRun_def trailing_space_checks validateOptionalExecutionArgv_def
        validateExecutionConfigResources_def validateExecutionConfigNetwork_def ValidateNetwork_def
        ValidateNetworkSpec_def validateExecutionConfigCapabilities_def trailing_space_rest)
  obtain r where r: "NormalizeResourcesForRootfs (Some (NormalizeResources (ec_Resources ?c))) False = Inr r"
    "ValidateResources (Some r) = None"
    using trailing_space_resources by blast
  let ?mid = "(NormalizeConfig (\<lambda>s. s) sample_idna (Some ?c))\<lparr>ec_Resources := Some r\<rparr>"
  let ?out = "NormalizeConfig (\<lambda>s. s) sample_idna (Some ?mid)"
  have "ec_Resources (NormalizeConfig (\<lambda>s. s) sample_idna (Some ?c)) = Some (NormalizeResources (ec_Resources ?c))"
    by (simp add: NormalizeConfig_def config_or_empty_def)
  then have "NormalizeConfigForRootfs (\<lambda>s. s) sample_idna (Some ?c) False = Inr ?mid"
    using r by (simp add: NormalizeConfigForRootfs_def config_or_empty_def trailing_space_rest
        trailing_space_checks validateExtensionCapabilityRequirements_def ValidateNetwork_def
        ValidateNetworkSpec_def)
  with valid have stored: "storedConfig (\<lambda>s. s) sample_idna (\<lambda>r. True) (Some ?c) False = Inr ?out"
    by (simp add: storedConfig_def)
  have files: "map sf_Path (present (ec_SecretFiles ?out)) = [''/etc/passwd'']"
    "map im_Target (present (ec_ImageMounts ?out)) = [''/usr'']"
    by (simp_all add: NormalizeConfig_fields config_or_empty_def normalizeSecretFiles_def
        NormalizeImageMounts_def trailing_space_config_def empty_config_def trailing_space_paths)
  have "ec_DeclaredOutputs ?out =
      [Some \<lparr>do_Path = ''/out'', do_Format = OF_FILE, do_MediaType = []\<rparr>,
       Some \<lparr>do_Path = ''/out'', do_Format = OF_FILE, do_MediaType = []\<rparr>]"
    by (simp add: NormalizeConfig_fields config_or_empty_def normalizeDeclaredOutputs_def
        normalizeOutput_def trailing_space_config_def empty_config_def trailing_space_paths
        output_less_def trim_space_Nil)
  moreover have "ValidateDeclaredOutputs (\<lambda>s. s)
      [Some \<lparr>do_Path = ''/out'', do_Format = OF_FILE, do_MediaType = []\<rparr>,
       Some \<lparr>do_Path = ''/out'', do_Format = OF_FILE, do_MediaType = []\<rparr>] = Some OutputDuplicate"
    by code_simp
  moreover have "protectedSecretFileTarget ''/etc/passwd''" "protectedImageMountTarget ''/usr''"
    by code_simp+
  ultimately show ?thesis using valid stored files by simp
qed

section \<open>What the node accepts\<close>

lemma nodeOutputLoop_eq: "nodeOutputLoop ul seen i = validateOutputLoop ul seen i"
  by (induction ul seen i rule: validateOutputLoop.induct) (auto simp: Let_def output_path_ok_def)

lemma ValidateDeclaredOutputs_eq: "ValidateDeclaredOutputs ul i = validateDeclaredOutputs ul i"
  by (simp add: ValidateDeclaredOutputs_def validateDeclaredOutputs_def nodeOutputLoop_eq
      maxDeclaredOutputs_def MaxDeclaredOutputs_def)

lemma output_path_ok_rooted: "output_path_ok (trim_space p) \<Longrightarrow> is_rooted (clean_path p)"
  using output_path_ok_stored by (simp add: stored_path_def)

lemma normalizeOutput_firm:
  assumes "output_ok ul d" "firm_path (do_Path d)"
  shows "normalizeOutput (normalizeOutput d) = normalizeOutput d" "output_ok ul (normalizeOutput d)"
proof -
  have path: "clean_path (clean_path (do_Path d)) = clean_path (do_Path d)"
    using clean_path_firm [OF assms(2)] output_path_ok_rooted assms(1) by (simp add: output_ok_def)
  then show "normalizeOutput (normalizeOutput d) = normalizeOutput d"
    by (simp add: normalizeOutput_def)
  have stored: "stored_path (clean_path (do_Path d))"
    using assms(1) output_path_ok_stored by (simp add: output_ok_def)
  then have "clean_path (do_Path d) \<noteq> []" by (auto simp: stored_path_def is_rooted_def)
  with stored have "output_path_ok (trim_space (clean_path (do_Path d)))"
    using assms(2) by (simp add: firm_path_def stored_path_def output_path_ok_def is_rooted_def)
  with assms(1) show "output_ok ul (normalizeOutput d)"
    by (simp add: output_ok_def normalizeOutput_def)
qed

text \<open>C32. The node accepts what the control plane stores: where no cleaned output path of
  the request has a space at its ends, the declared outputs are stored as they were first
  normalised and pass the node's validation.\<close>

theorem node_accepts_stored_outputs:
  assumes "storedConfig ul idna parse_ref (Some c) readonly = Inr out"
    and "\<forall>d\<in>set (present (ec_DeclaredOutputs c)). firm_path (do_Path d)"
  shows "ec_DeclaredOutputs out = normalizeDeclaredOutputs (ec_DeclaredOutputs c) \<and>
    ValidateDeclaredOutputs ul (ec_DeclaredOutputs out) = None"
proof -
  from assms(1) obtain mid where mid: "NormalizeConfigForRootfs ul idna (Some c) readonly = Inr mid"
    and out: "out = NormalizeConfig ul idna (Some mid)"
    and outputs: "ec_DeclaredOutputs mid = normalizeDeclaredOutputs (ec_DeclaredOutputs c)"
    by (rule storedConfig_cases)
  obtain ds where ds: "ec_DeclaredOutputs c = map Some ds" "length ds \<le> MaxDeclaredOutputs"
    "\<forall>d\<in>set ds. output_ok ul d" "distinct (map (\<lambda>d. clean_path (do_Path d)) ds)"
    using mid by (rule NormalizeConfigForRootfs_cases) (simp add: config_or_empty_def)
  let ?ns = "sort_slice output_less (map normalizeOutput ds)"
  have firm: "normalizeOutput (normalizeOutput d) = normalizeOutput d" "output_ok ul (normalizeOutput d)"
    if "d \<in> set ds" for d
    by (rule normalizeOutput_firm [of ul]; use that ds(1,3) assms(2) in simp)+
  have "map normalizeOutput ?ns = ?ns"
    by (rule map_idI) (use firm in auto)
  moreover have "sort_slice output_less ?ns = ?ns"
    by (rule sort_slice_sorted_id [OF _ normalizeDeclaredOutputs_sorted [OF ds(4)]])
      (rule output_order.asym)
  ultimately have same: "ec_DeclaredOutputs out = map Some ?ns"
    using out outputs ds(1)
    by (simp add: NormalizeConfig_fields config_or_empty_def normalizeDeclaredOutputs_def)
  have "map (\<lambda>d. clean_path (do_Path d)) (map normalizeOutput ds) = map (\<lambda>d. clean_path (do_Path d)) ds"
    using firm(1) by (auto simp: normalizeOutput_def)
  then have "distinct (map (\<lambda>d. clean_path (do_Path d)) ?ns)"
    using ds(4) by (simp only: distinct_map_sort_slice)
  then have "validateDeclaredOutputs ul (map Some ?ns) = None"
    unfolding validateDeclaredOutputs_iff using ds(2) firm(2) by auto
  then show ?thesis
    using same ds(1) by (simp add: ValidateDeclaredOutputs_eq normalizeDeclaredOutputs_def)
qed

theorem node_accepts_stored_outputs_witness:
  "\<exists>out. storedConfig (\<lambda>s. s) sample_idna (\<lambda>r. True) (Some sample_request) False = Inr out \<and>
     ValidateDeclaredOutputs (\<lambda>s. s) (ec_DeclaredOutputs out) = None"
proof -
  obtain out where "storedConfig (\<lambda>s. s) sample_idna (\<lambda>r. True) (Some sample_request) False = Inr out"
    using sample_request_stored by (auto simp: is_ok_iff)
  with node_accepts_stored_outputs [OF this sample_request_firm(3)] show ?thesis by blast
qed

text \<open>C33. The cgroup values of a container are the exact conversions of its resources as
  long as the products fit into 64 bits: CPU shares in proportion to the request and at
  least 2 (512 without a request), a quota of 100 microseconds per milli-CPU of the limit
  and period, no swap beyond the memory limit.\<close>

theorem linux_resources_exact:
  assumes "cpu = GetCpuMilli (GetRequests r)" "cpuLimit = GetCpuMilli (GetLimits r)"
    "memLimit = GetMemoryBytes (GetLimits r)"
    and "0 \<le> cpu" "cpu * 1024 \<le> MaxInt64" "0 \<le> cpuLimit" "cpuLimit * 100000 \<le> MaxInt64" "0 \<le> memLimit"
  shows "ResourcesToLinux r =
    \<lparr>lr_CpuPeriod = (if 0 < cpuLimit then 100000 else 0), lr_CpuQuota = 100 * cpuLimit,
     lr_CpuShares = (if 0 < cpu then max 2 (cpu * 1024 div 1000) else 512),
     lr_MemoryLimitInBytes = memLimit, lr_MemorySwapLimitInBytes = memLimit\<rparr>"
proof -
  have "wrap64 (cpu * 1024) = cpu * 1024" "wrap64 (cpuLimit * 100000) = cpuLimit * 100000"
    using assms(4-7) by (simp_all add: wrap64_id is_int64_def MinInt64_def)
  moreover have "go_div (cpuLimit * 100000) 1000 = 100 * cpuLimit"
    using assms(6) by (simp add: go_div_nonneg)
  moreover have "go_div (cpu * 1024) 1000 = cpu * 1024 div 1000"
    using assms(4) by (simp add: go_div_nonneg)
  moreover have "to_uint64 (cpu * 1024 div 1000) = cpu * 1024 div 1000"
    using assms(4,5) by (simp add: to_uint64_def MaxInt64_def)
  ultimately show ?thesis
    using assms by (simp add: ResourcesToLinux_def Let_def max_def)
qed

theorem linux_resources_exact_witness:
  "lr_CpuQuota (ResourcesToLinux (ec_Resources sample_config)) = 200000"
proof -
  have "GetCpuMilli (GetRequests (ec_Resources sample_config)) = 0"
    "GetCpuMilli (GetLimits (ec_Resources sample_config)) = 2000"
    "GetMemoryBytes (GetLimits (ec_Resources sample_config)) = 1073741824"
    by code_simp+
  from linux_resources_exact [OF this [symmetric]] show ?thesis by (simp add: MaxInt64_def)
qed

text \<open>Beyond that bound the product wraps: a very large CPU limit becomes the smallest
  quota.\<close>

theorem cpu_quota_overflow:
  "lr_CpuQuota (ResourcesToLinux (Some \<lparr>rs_Requests = None, rs_Limits = Some
     \<lparr>rq_cpu_milli = 92233720368548, rq_memory_bytes = 0, rq_ephemeral_storage_bytes = 0\<rparr>\<rparr>)) = 1"
  by code_simp

end
