(* ===== verification/Allocation_Kernel.thy ===== *)
theory Allocation_Kernel
  imports Execution_Config
begin

text \<open>
  The rules of an allocation's lifecycle (\<open>kernel/allocation\<close>) and of a run's status
  (\<open>kernel/run\<close>): the protobuf enumerations with the names the database stores, the
  acceptance of node observations, the run status an observation implies, node inventory,
  the retry plans of the reconcile queue, and the operator's clearance of finished work.

  The lemmas show that a stored name parses back to its value, that every accepted
  observation moves the lifecycle forward, and that the create retries are bounded in
  number and delay.
\<close>

section \<open>Enumerations and their names\<close>

datatype lifecycle_state =
    LS_UNSPECIFIED | LS_BOUND | LS_STARTING | LS_ACTIVE | LS_STOPPED | LS_RELEASING | LS_RELEASED
  | LS_OTHER int

datatype run_status =
    RUN_UNSPECIFIED | RUN_PLACED | RUN_STARTING | RUN_RUNNING | RUN_SUCCEEDED | RUN_FAILED
  | RUN_CANCELLED | RUN_OTHER int

datatype snapshot_status = SNAP_UNSPECIFIED | SNAP_PENDING | SNAP_READY | SNAP_FAILED | SNAP_OTHER int

datatype diagnostic_code =
    DIAG_UNSPECIFIED | DIAG_SECRET_PROJECTION_ERROR | DIAG_REGISTRY_AUTH_ERROR
  | DIAG_IMAGE_RESOLUTION_ERROR | DIAG_NODE_SELECTION_ERROR | DIAG_RUNTIME_START_ERROR
  | DIAG_PROCESS_EXITED | DIAG_ADMISSION_BLOCKED | DIAG_CAPABILITY_ENFORCEMENT_LOST
  | DIAG_MEMORY_LIMIT_EXCEEDED | DIAG_EXECUTION_LEASE_EXPIRED | DIAG_OPERATOR_FORCE_TERMINATED
  | DIAG_OPERATOR_FORCE_CLEANUP | DIAG_OTHER int

text \<open>\<open>String\<close> of the generated enumerations: the name of a declared value, the number
  of any other.\<close>

fun lifecycle_String :: "lifecycle_state \<Rightarrow> string" where
  "lifecycle_String LS_UNSPECIFIED = ''ALLOCATION_LIFECYCLE_STATE_UNSPECIFIED''"
| "lifecycle_String LS_BOUND = ''ALLOCATION_LIFECYCLE_STATE_BOUND''"
| "lifecycle_String LS_STARTING = ''ALLOCATION_LIFECYCLE_STATE_STARTING''"
| "lifecycle_String LS_ACTIVE = ''ALLOCATION_LIFECYCLE_STATE_ACTIVE''"
| "lifecycle_String LS_STOPPED = ''ALLOCATION_LIFECYCLE_STATE_STOPPED''"
| "lifecycle_String LS_RELEASING = ''ALLOCATION_LIFECYCLE_STATE_RELEASING''"
| "lifecycle_String LS_RELEASED = ''ALLOCATION_LIFECYCLE_STATE_RELEASED''"
| "lifecycle_String (LS_OTHER n) = fmt_int n"

fun run_status_String :: "run_status \<Rightarrow> string" where
  "run_status_String RUN_UNSPECIFIED = ''RUN_STATUS_UNSPECIFIED''"
| "run_status_String RUN_PLACED = ''RUN_STATUS_PLACED''"
| "run_status_String RUN_STARTING = ''RUN_STATUS_STARTING''"
| "run_status_String RUN_RUNNING = ''RUN_STATUS_RUNNING''"
| "run_status_String RUN_SUCCEEDED = ''RUN_STATUS_SUCCEEDED''"
| "run_status_String RUN_FAILED = ''RUN_STATUS_FAILED''"
| "run_status_String RUN_CANCELLED = ''RUN_STATUS_CANCELLED''"
| "run_status_String (RUN_OTHER n) = fmt_int n"

text \<open>The generated maps from names to values.\<close>

definition AllocationLifecycleState_value :: "(string \<times> lifecycle_state) list" where
  "AllocationLifecycleState_value =
     map (\<lambda>s. (lifecycle_String s, s))
       [LS_UNSPECIFIED, LS_BOUND, LS_STARTING, LS_ACTIVE, LS_STOPPED, LS_RELEASING, LS_RELEASED]"

definition RunStatus_value :: "(string \<times> run_status) list" where
  "RunStatus_value =
     map (\<lambda>s. (run_status_String s, s))
       [RUN_UNSPECIFIED, RUN_PLACED, RUN_STARTING, RUN_RUNNING, RUN_SUCCEEDED, RUN_FAILED, RUN_CANCELLED]"

definition ParseLifecycleState :: "string \<Rightarrow> lifecycle_state" where
  "ParseLifecycleState v =
     (case map_of AllocationLifecycleState_value v of Some s \<Rightarrow> s | None \<Rightarrow> LS_UNSPECIFIED)"

definition parseRunStatus :: "string \<Rightarrow> run_status" where
  "parseRunStatus v = (case map_of RunStatus_value v of Some s \<Rightarrow> s | None \<Rightarrow> RUN_UNSPECIFIED)"

definition IsCleanupState :: "lifecycle_state \<Rightarrow> bool" where
  "IsCleanupState s \<longleftrightarrow> s = LS_RELEASING \<or> s = LS_RELEASED"

definition IsTerminal :: "run_status \<Rightarrow> bool" where
  "IsTerminal s \<longleftrightarrow> s = RUN_SUCCEEDED \<or> s = RUN_FAILED \<or> s = RUN_CANCELLED"

record watched_run =
  wr_Status :: run_status
  wr_RootfsSnapshot :: "snapshot_status option"

definition IsWatchComplete :: "watched_run option \<Rightarrow> bool" where
  "IsWatchComplete run =
     (case run of
        None \<Rightarrow> False
      | Some r \<Rightarrow> IsTerminal (wr_Status r) \<and>
          (case wr_RootfsSnapshot r of None \<Rightarrow> True | Some s \<Rightarrow> s \<noteq> SNAP_PENDING))"

section \<open>Observations\<close>

record lifecycle_observation =
  obs_AllocationID :: string
  obs_State :: lifecycle_state
  obs_ExitCode :: "int32 option"
  obs_Message :: string
  obs_ObservedAt :: "timestamp option"
  obs_Ready :: bool
  obs_ReadinessMessage :: string
  obs_DiagnosticCode :: diagnostic_code

text \<open>True where \<open>ValidateObservationBinding\<close> returns no error.\<close>

definition ValidateObservationBinding :: "string \<Rightarrow> string \<Rightarrow> bool" where
  "ValidateObservationBinding currentNodeID reportingNodeID =
     (let c = trim_space currentNodeID; r = trim_space reportingNodeID
      in \<not> (c = [] \<or> r = [] \<or> c \<noteq> r))"

definition AcceptsObservation ::
  "lifecycle_state \<Rightarrow> string \<Rightarrow> string \<Rightarrow> lifecycle_observation option \<Rightarrow> bool" where
  "AcceptsObservation currentState currentNodeID reportingNodeID obs =
     (case obs of
        None \<Rightarrow> False
      | Some o1 \<Rightarrow>
          if \<not> ValidateObservationBinding currentNodeID reportingNodeID then False
          else if obs_State o1 \<noteq> LS_STARTING \<and> obs_State o1 \<noteq> LS_ACTIVE \<and> obs_State o1 \<noteq> LS_STOPPED
          then False
          else if currentState = LS_BOUND \<or> currentState = LS_STARTING then True
          else if currentState = LS_ACTIVE then obs_State o1 \<noteq> LS_STARTING
          else False)"

definition NodeActiveObservationTime :: "lifecycle_observation option \<Rightarrow> gotime \<Rightarrow> gotime" where
  "NodeActiveObservationTime obs fallback =
     (case Option.bind obs obs_ObservedAt of
        None \<Rightarrow> fallback
      | Some t \<Rightarrow> if is_zero_time (as_time t) then fallback else as_time t)"

definition RunStatusFromObservation ::
  "lifecycle_state \<Rightarrow> int32 option \<Rightarrow> diagnostic_code \<Rightarrow> run_status" where
  "RunStatusFromObservation state exitCode diagnosticCode =
     (case state of
        LS_BOUND \<Rightarrow> RUN_PLACED
      | LS_STARTING \<Rightarrow> RUN_STARTING
      | LS_ACTIVE \<Rightarrow> RUN_RUNNING
      | LS_STOPPED \<Rightarrow>
          if diagnosticCode = DIAG_UNSPECIFIED \<and> exitCode = Some 0 then RUN_SUCCEEDED else RUN_FAILED
      | _ \<Rightarrow> RUN_UNSPECIFIED)"

section \<open>Node inventory\<close>

definition MissingFromNodeInventoryMessage :: string where
  "MissingFromNodeInventoryMessage = ''allocation missing from node inventory''"

definition NodeUnavailableMessage :: string where
  "NodeUnavailableMessage = ''node heartbeat stale''"

record inventory_snapshot =
  is_NodeID :: string
  is_ActiveAllocationIDs :: "string list"
  is_CollectedAt :: gotime

record inventory_expectation =
  ie_AllocationID :: string
  ie_NodeActiveAt :: gotime

definition ExpectedInNodeInventoryAt :: "gotime \<Rightarrow> gotime \<Rightarrow> bool" where
  "ExpectedInNodeInventoryAt nodeActiveAt snapshotAt =
     (\<not> is_zero_time nodeActiveAt \<and> \<not> is_zero_time snapshotAt \<and> nodeActiveAt \<le> snapshotAt)"

definition MissingFromNodeInventory ::
  "inventory_snapshot \<Rightarrow> inventory_expectation list \<Rightarrow> inventory_expectation list" where
  "MissingFromNodeInventory snapshot expected =
     (let active = filter (\<lambda>i. i \<noteq> []) (map trim_space (is_ActiveAllocationIDs snapshot))
      in filter (\<lambda>e. ie_AllocationID e \<notin> set active \<and>
                     ExpectedInNodeInventoryAt (ie_NodeActiveAt e) (is_CollectedAt snapshot)) expected)"

section \<open>Reconcile intents and retry plans\<close>

datatype reconcile_intent = IntentUnspecified | IntentEnsurePresent | IntentEnsureAbsent

definition ReconcileIntentForLifecycle :: "lifecycle_state \<Rightarrow> reconcile_intent" where
  "ReconcileIntentForLifecycle state =
     (if state = LS_BOUND \<or> state = LS_STARTING \<or> state = LS_ACTIVE then IntentEnsurePresent
      else if state = LS_RELEASING \<or> state = LS_RELEASED then IntentEnsureAbsent
      else IntentUnspecified)"

definition DefaultReconcileLimit :: int where "DefaultReconcileLimit = 20"
definition DeleteRetryDelay :: duration where "DeleteRetryDelay = 5 * second"
definition CreateRetryInitialDelay :: duration where "CreateRetryInitialDelay = 2 * second"
definition CreateRetryMaxDelay :: duration where "CreateRetryMaxDelay = 30 * second"
definition CreateRetryMaxAttempts :: int where "CreateRetryMaxAttempts = 5"
definition RootfsSnapshotMaxAttempts :: int where "RootfsSnapshotMaxAttempts = 5"
definition ReconcileClaimTTL :: duration where "ReconcileClaimTTL = 30 * second"
definition ReconcileWorkerCount :: int where "ReconcileWorkerCount = 8"

record schedule_request =
  sr_AllocationID :: string
  sr_Intent :: reconcile_intent
  sr_NextRunAt :: gotime
  sr_LastReconcileError :: string
  sr_IncrementAttempts :: bool

record create_retry_plan =
  crp_FailureNumber :: int
  crp_Retry :: bool
  crp_NextRunAt :: gotime

text \<open>The doubling loop of \<open>CreateRetryDelay\<close>.\<close>

function retryDelayLoop :: "duration \<Rightarrow> int \<Rightarrow> int \<Rightarrow> duration" where
  "retryDelayLoop delay i failureNumber =
     (if i < failureNumber then
        (let d = delay * 2
         in if CreateRetryMaxDelay \<le> d then CreateRetryMaxDelay else retryDelayLoop d (i + 1) failureNumber)
      else delay)"
  by pat_completeness auto
termination
  by (relation "measure (\<lambda>(delay, i, n). nat (n - i))") auto

declare retryDelayLoop.simps [simp del]

definition CreateRetryDelay :: "int \<Rightarrow> duration" where
  "CreateRetryDelay failureNumber =
     retryDelayLoop CreateRetryInitialDelay 1 (if failureNumber \<le> 0 then 1 else failureNumber)"

definition PlanCreateRetry :: "int \<Rightarrow> gotime \<Rightarrow> create_retry_plan" where
  "PlanCreateRetry currentAttempts now =
     (let failureNumber = currentAttempts + 1
      in if CreateRetryMaxAttempts \<le> failureNumber
         then \<lparr>crp_FailureNumber = failureNumber, crp_Retry = False, crp_NextRunAt = zero_time\<rparr>
         else \<lparr>crp_FailureNumber = failureNumber, crp_Retry = True,
               crp_NextRunAt = now + CreateRetryDelay failureNumber\<rparr>)"

definition ScheduleCreateRetryRequest ::
  "string \<Rightarrow> int \<Rightarrow> string \<Rightarrow> gotime \<Rightarrow> schedule_request option" where
  "ScheduleCreateRetryRequest allocationID currentAttempts lastError now =
     (let plan = PlanCreateRetry currentAttempts now
      in if \<not> crp_Retry plan then None
         else Some \<lparr>sr_AllocationID = allocationID, sr_Intent = IntentEnsurePresent,
                    sr_NextRunAt = crp_NextRunAt plan, sr_LastReconcileError = lastError,
                    sr_IncrementAttempts = True\<rparr>)"

definition ScheduleDeleteRetryRequest :: "string \<Rightarrow> string \<Rightarrow> gotime \<Rightarrow> schedule_request" where
  "ScheduleDeleteRetryRequest allocationID lastError now =
     \<lparr>sr_AllocationID = allocationID, sr_Intent = IntentEnsureAbsent,
      sr_NextRunAt = now + DeleteRetryDelay, sr_LastReconcileError = lastError,
      sr_IncrementAttempts = True\<rparr>"

definition RootfsSnapshotRetryExhausted :: "int \<Rightarrow> bool" where
  "RootfsSnapshotRetryExhausted currentAttempts \<longleftrightarrow> RootfsSnapshotMaxAttempts \<le> currentAttempts + 1"

definition ScheduleDeleteRequest :: "string \<Rightarrow> gotime \<Rightarrow> schedule_request" where
  "ScheduleDeleteRequest allocationID now =
     \<lparr>sr_AllocationID = allocationID, sr_Intent = IntentEnsureAbsent, sr_NextRunAt = now,
      sr_LastReconcileError = [], sr_IncrementAttempts = False\<rparr>"

text \<open>The claimed work item, its sealing requests included.\<close>

record reconcile_item =
  rit_OutputExpiresAt :: "gotime option"
  rit_AllocationID :: string
  rit_RunID :: string
  rit_EnvironmentID :: string
  rit_LifecycleState :: lifecycle_state
  rit_NodeID :: string
  rit_NodeTarget :: string
  rit_ReconcileAttempts :: int
  rit_LastReconcileError :: string
  rit_ClaimOwner :: string
  rit_NextRunAt :: gotime
  rit_EligibleAt :: gotime
  rit_CapabilityRequirements :: "capability_requirement list"
  rit_DeclaredOutputs :: "declared_output option list"
  rit_RootfsSnapshotRequested :: bool
  rit_BaseImageRef :: string
  rit_RegistryCredentialID :: string

record snapshot_sealing =
  ss_BaseImageRef :: string
  ss_RegistryCredentialID :: string

record output_sealing =
  os_ExpiresAt :: gotime
  os_Outputs :: "declared_output option list"

record snapshot_result =
  srs_ImageRef :: string
  srs_ImageDescriptor :: "oci_image_descriptor option"
  srs_PlatformOS :: string
  srs_PlatformArch :: string
  srs_PlatformVariant :: string

definition RootfsSnapshotSealingRequest :: "reconcile_item \<Rightarrow> snapshot_sealing option" where
  "RootfsSnapshotSealingRequest i =
     (if \<not> rit_RootfsSnapshotRequested i \<or> rit_LifecycleState i \<noteq> LS_RELEASING then None
      else Some \<lparr>ss_BaseImageRef = rit_BaseImageRef i, ss_RegistryCredentialID = rit_RegistryCredentialID i\<rparr>)"

definition OutputSealingRequest :: "reconcile_item \<Rightarrow> output_sealing option" where
  "OutputSealingRequest i =
     map_option (\<lambda>t. \<lparr>os_ExpiresAt = t, os_Outputs = rit_DeclaredOutputs i\<rparr>) (rit_OutputExpiresAt i)"

section \<open>Operator requests and clearance\<close>

record lifecycle_retry_filter =
  lrf_DueOnly :: bool
  lrf_Limit :: int

definition MaxLifecycleRetryListLimit :: int where "MaxLifecycleRetryListLimit = 100"
definition DefaultLifecycleRetryListLimit :: int where "DefaultLifecycleRetryListLimit = 50"

definition NormalizeLifecycleRetryFilter :: "lifecycle_retry_filter \<Rightarrow> lifecycle_retry_filter" where
  "NormalizeLifecycleRetryFilter i =
     (let limit = (if lrf_Limit i \<le> 0 then DefaultLifecycleRetryListLimit else lrf_Limit i)
      in i\<lparr>lrf_Limit := (if MaxLifecycleRetryListLimit < limit then MaxLifecycleRetryListLimit else limit)\<rparr>)"

datatype retry_request_error = AllocationIDRequired | OperatorReasonRequired

record force_retry_request =
  frr_AllocationID :: string
  frr_OperatorReason :: string
  frr_RequestedRunAt :: gotime

record operator_request =
  opr_AllocationID :: string
  opr_OperatorReason :: string

definition NormalizeForceLifecycleRetryRequest :: "force_retry_request \<Rightarrow> force_retry_request" where
  "NormalizeForceLifecycleRetryRequest i =
     \<lparr>frr_AllocationID = trim_space (frr_AllocationID i), frr_OperatorReason = trim_space (frr_OperatorReason i),
      frr_RequestedRunAt = frr_RequestedRunAt i\<rparr>"

definition ValidateForceLifecycleRetryRequest :: "force_retry_request \<Rightarrow> retry_request_error option" where
  "ValidateForceLifecycleRetryRequest req =
     (if frr_AllocationID req = [] then Some AllocationIDRequired
      else if frr_OperatorReason req = [] then Some OperatorReasonRequired else None)"

definition NormalizeFailLifecycleRetryRequest :: "operator_request \<Rightarrow> operator_request" where
  "NormalizeFailLifecycleRetryRequest i =
     \<lparr>opr_AllocationID = trim_space (opr_AllocationID i), opr_OperatorReason = trim_space (opr_OperatorReason i)\<rparr>"

definition ValidateFailLifecycleRetryRequest :: "operator_request \<Rightarrow> retry_request_error option" where
  "ValidateFailLifecycleRetryRequest req =
     (if opr_AllocationID req = [] then Some AllocationIDRequired
      else if opr_OperatorReason req = [] then Some OperatorReasonRequired else None)"

definition NormalizeClearLifecycleRetryRequest :: "operator_request \<Rightarrow> operator_request" where
  "NormalizeClearLifecycleRetryRequest i =
     \<lparr>opr_AllocationID = trim_space (opr_AllocationID i), opr_OperatorReason = trim_space (opr_OperatorReason i)\<rparr>"

definition ValidateClearLifecycleRetryRequest :: "operator_request \<Rightarrow> retry_request_error option" where
  "ValidateClearLifecycleRetryRequest req =
     (if opr_AllocationID req = [] then Some AllocationIDRequired
      else if opr_OperatorReason req = [] then Some OperatorReasonRequired else None)"

record clearance_input =
  ci_AllocationID :: string
  ci_AllocationState :: string
  ci_RunStatus :: string
  ci_HasActiveAccessGrant :: bool
  ci_HasActiveTunnelSession :: bool

record clearance =
  cl_Clearable :: bool
  cl_BlockedReason :: string

definition statusOrUnknown :: "string \<Rightarrow> string" where
  "statusOrUnknown v = (let t = trim_space v in if t = [] then ''unknown'' else t)"

definition isTerminalRunStatus :: "string \<Rightarrow> bool" where
  "isTerminalRunStatus v \<longleftrightarrow>
     v = run_status_String RUN_SUCCEEDED \<or> v = run_status_String RUN_FAILED \<or>
     v = run_status_String RUN_CANCELLED"

definition blockedLifecycleRetryClearance :: "string \<Rightarrow> clearance" where
  "blockedLifecycleRetryClearance reason = \<lparr>cl_Clearable = False, cl_BlockedReason = reason\<rparr>"

definition evaluateRunLifecycleRetryClearance :: "clearance_input \<Rightarrow> clearance" where
  "evaluateRunLifecycleRetryClearance i =
     (let status = trim_space (ci_RunStatus i)
      in if status = [] \<or> isTerminalRunStatus status then \<lparr>cl_Clearable = True, cl_BlockedReason = []\<rparr>
         else blockedLifecycleRetryClearance (''run status is '' @ statusOrUnknown status))"

definition EvaluateLifecycleRetryClearance :: "clearance_input \<Rightarrow> clearance" where
  "EvaluateLifecycleRetryClearance i =
     (let allocationState = trim_space (ci_AllocationState i)
      in if ParseLifecycleState allocationState \<noteq> LS_RELEASED
         then blockedLifecycleRetryClearance
                (''allocation lifecycle state is '' @ statusOrUnknown allocationState)
         else if ci_HasActiveAccessGrant i
         then blockedLifecycleRetryClearance ''active allocation access grants''
         else if ci_HasActiveTunnelSession i
         then blockedLifecycleRetryClearance ''active tunnel sessions''
         else evaluateRunLifecycleRetryClearance i)"

section \<open>Names round trip\<close>

text \<open>A lifecycle state or run status of the enumeration's declared values.\<close>

definition known_lifecycle :: "lifecycle_state \<Rightarrow> bool" where
  "known_lifecycle s \<longleftrightarrow> (\<forall>n. s \<noteq> LS_OTHER n)"

definition known_run_status :: "run_status \<Rightarrow> bool" where
  "known_run_status s \<longleftrightarrow> (\<forall>n. s \<noteq> RUN_OTHER n)"

lemma ParseLifecycleState_String: "known_lifecycle s \<Longrightarrow> ParseLifecycleState (lifecycle_String s) = s"
  by (cases s) (simp_all add: known_lifecycle_def ParseLifecycleState_def AllocationLifecycleState_value_def)

lemma parseRunStatus_String: "known_run_status s \<Longrightarrow> parseRunStatus (run_status_String s) = s"
  by (cases s) (simp_all add: known_run_status_def parseRunStatus_def RunStatus_value_def)

section \<open>The order of the lifecycle\<close>

text \<open>The position of a state in the lifecycle; the states the database does not hold come
  first.\<close>

fun lifecycle_rank :: "lifecycle_state \<Rightarrow> nat" where
  "lifecycle_rank LS_BOUND = 1"
| "lifecycle_rank LS_STARTING = 2"
| "lifecycle_rank LS_ACTIVE = 3"
| "lifecycle_rank LS_STOPPED = 4"
| "lifecycle_rank LS_RELEASING = 5"
| "lifecycle_rank LS_RELEASED = 6"
| "lifecycle_rank _ = 0"

lemma AcceptsObservation_cases:
  assumes "AcceptsObservation s current node (Some obs)"
  shows "s \<in> {LS_BOUND, LS_STARTING, LS_ACTIVE}" "obs_State obs \<in> {LS_STARTING, LS_ACTIVE, LS_STOPPED}"
    "s = LS_ACTIVE \<Longrightarrow> obs_State obs \<noteq> LS_STARTING" "ValidateObservationBinding current node"
  using assms by (auto simp: AcceptsObservation_def split: if_splits)

lemma AcceptsObservation_forward:
  assumes "AcceptsObservation s current node (Some obs)"
  shows "lifecycle_rank s \<le> lifecycle_rank (obs_State obs)"
  using AcceptsObservation_cases [OF assms] by auto

lemma RunStatusFromObservation_terminal:
  "IsTerminal (RunStatusFromObservation state exitCode code) \<longleftrightarrow> state = LS_STOPPED"
  by (cases state) (auto simp: RunStatusFromObservation_def IsTerminal_def)

lemma ReconcileIntent_present: "ReconcileIntentForLifecycle s = IntentEnsurePresent \<longleftrightarrow> s \<in> {LS_BOUND, LS_STARTING, LS_ACTIVE}"
  by (auto simp: ReconcileIntentForLifecycle_def)

lemma ReconcileIntent_absent: "ReconcileIntentForLifecycle s = IntentEnsureAbsent \<longleftrightarrow> IsCleanupState s"
  by (auto simp: ReconcileIntentForLifecycle_def IsCleanupState_def)

section \<open>Bounded retries\<close>

lemma retryDelayLoop_bounds:
  "0 < delay \<Longrightarrow> delay \<le> CreateRetryMaxDelay \<Longrightarrow>
   delay \<le> retryDelayLoop delay i n \<and> retryDelayLoop delay i n \<le> CreateRetryMaxDelay"
proof (induction delay i n rule: retryDelayLoop.induct)
  case (1 delay i n)
  show ?case
  proof (cases "i < n \<and> \<not> CreateRetryMaxDelay \<le> delay * 2")
    case True
    with "1.IH" "1.prems" have "delay * 2 \<le> retryDelayLoop (delay * 2) (i + 1) n"
      "retryDelayLoop (delay * 2) (i + 1) n \<le> CreateRetryMaxDelay" by auto
    with True "1.prems" show ?thesis by (subst (1 2) retryDelayLoop.simps) (auto simp: Let_def)
  next
    case False
    with "1.prems" show ?thesis by (subst (1 2) retryDelayLoop.simps) (auto simp: Let_def)
  qed
qed

lemma CreateRetryDelay_bounds:
  "CreateRetryInitialDelay \<le> CreateRetryDelay n" "CreateRetryDelay n \<le> CreateRetryMaxDelay"
  using retryDelayLoop_bounds [of CreateRetryInitialDelay 1]
  by (simp_all add: CreateRetryDelay_def CreateRetryInitialDelay_def CreateRetryMaxDelay_def second_def)

text \<open>The delay is the closed form: two seconds doubled per earlier failure, at most
  thirty.\<close>

lemma retryDelayLoop_closed:
  "0 < delay \<Longrightarrow> delay < CreateRetryMaxDelay \<Longrightarrow>
   retryDelayLoop delay i n = min CreateRetryMaxDelay (delay * 2 ^ nat (n - i))"
proof (induction delay i n rule: retryDelayLoop.induct)
  case (1 delay i n)
  show ?case
  proof (cases "i < n")
    case False
    with "1.prems" show ?thesis by (subst retryDelayLoop.simps) simp
  next
    case True
    then have pow: "(2 :: int) ^ nat (n - i) = 2 * 2 ^ nat (n - (i + 1))"
      by (simp flip: power_Suc add: Suc_nat_eq_nat_zadd1)
    show ?thesis
    proof (cases "CreateRetryMaxDelay \<le> delay * 2")
      case True
      have "delay * 2 * 1 \<le> delay * 2 * 2 ^ nat (n - (i + 1))"
        using "1.prems" by (intro mult_left_mono) auto
      with True \<open>i < n\<close> show ?thesis
        by (subst retryDelayLoop.simps) (simp add: pow Let_def min_def mult.assoc)
    next
      case False
      with "1.IH" \<open>i < n\<close> "1.prems" show ?thesis
        by (subst retryDelayLoop.simps) (simp add: pow Let_def mult.assoc)
    qed
  qed
qed

lemma ScheduleCreateRetryRequest_iff:
  "ScheduleCreateRetryRequest a attempts e now \<noteq> None \<longleftrightarrow> attempts + 1 < CreateRetryMaxAttempts"
  by (simp add: ScheduleCreateRetryRequest_def PlanCreateRetry_def Let_def)

lemma ScheduleCreateRetryRequest_fields:
  assumes "ScheduleCreateRetryRequest a attempts e now = Some req"
  shows "sr_AllocationID req = a" "sr_Intent req = IntentEnsurePresent" "sr_IncrementAttempts req"
    "now < sr_NextRunAt req" "sr_NextRunAt req \<le> now + CreateRetryMaxDelay"
proof -
  have req: "req = \<lparr>sr_AllocationID = a, sr_Intent = IntentEnsurePresent,
      sr_NextRunAt = now + CreateRetryDelay (attempts + 1), sr_LastReconcileError = e,
      sr_IncrementAttempts = True\<rparr>"
    using assms by (auto simp: ScheduleCreateRetryRequest_def PlanCreateRetry_def Let_def split: if_splits)
  show "sr_AllocationID req = a" "sr_Intent req = IntentEnsurePresent" "sr_IncrementAttempts req"
    by (simp_all add: req)
  show "sr_NextRunAt req \<le> now + CreateRetryMaxDelay"
    using CreateRetryDelay_bounds(2) by (simp add: req)
  have "0 < CreateRetryInitialDelay" by (simp add: CreateRetryInitialDelay_def second_def)
  also have "\<dots> \<le> CreateRetryDelay (attempts + 1)" by (rule CreateRetryDelay_bounds)
  finally show "now < sr_NextRunAt req" by (simp add: req)
qed

end
