(* ===== verification/Store_Model.thy ===== *)
theory Store_Model
  imports Allocation_Kernel
begin

text \<open>
  The database of the control plane as the run store uses it: the tables of
  \<open>postgres/migrations/000001_initial.sql\<close> that hold runs, allocations, the reconcile
  queue, access grants, tunnel sessions, Secret references and capability conditions, and
  the statements that several transactions share (\<open>postgres/allocation\<close>,
  \<open>postgres/tunnel/revoke.go\<close>, \<open>postgres/run/secret_references.go\<close>).

  A table is the list of its rows.  A statement maps a database to a new one or to an
  error; a \<open>CHECK\<close> or key that a row would break is the error \<open>CheckViolation\<close> or
  \<open>UniqueViolation\<close>, and an error discards every change, as the rollback of the
  transaction does.  Transactions run one after another, which is what their row locks
  arrange; text is ordered bytewise, and times keep their nanoseconds except where a
  column's microseconds matter.  Foreign keys to namespaces, principals and nodes, column
  overflow and the notification triggers are left out.
\<close>

named_theorems store_simps \<open>successful statements as explicit database updates\<close>

section \<open>Tables\<close>

definition lookup :: "('r \<Rightarrow> 'k) \<Rightarrow> 'k \<Rightarrow> 'r list \<Rightarrow> 'r option" where
  "lookup key k rows = List.find (\<lambda>r. key r = k) rows"

definition update_where :: "('r \<Rightarrow> bool) \<Rightarrow> ('r \<Rightarrow> 'r) \<Rightarrow> 'r list \<Rightarrow> 'r list" where
  "update_where p f rows = map (\<lambda>r. if p r then f r else r) rows"

definition delete_where :: "('r \<Rightarrow> bool) \<Rightarrow> 'r list \<Rightarrow> 'r list" where
  "delete_where p rows = filter (\<lambda>r. \<not> p r) rows"

definition rows_affected :: "('r \<Rightarrow> bool) \<Rightarrow> 'r list \<Rightarrow> nat" where
  "rows_affected p rows = length (filter p rows)"

lemma lookup_Nil [simp]: "lookup key k [] = None"
  by (simp add: lookup_def)

lemma lookup_Cons [simp]: "lookup key k (r # rows) = (if key r = k then Some r else lookup key k rows)"
  by (simp add: lookup_def)

lemma lookup_SomeD: "lookup key k rows = Some r \<Longrightarrow> r \<in> set rows \<and> key r = k"
  by (auto simp: lookup_def find_Some_iff)

lemma lookup_None_iff: "lookup key k rows = None \<longleftrightarrow> k \<notin> key ` set rows"
  by (auto simp: lookup_def find_None_iff)

lemma lookup_distinct:
  "distinct (map key rows) \<Longrightarrow> r \<in> set rows \<Longrightarrow> lookup key (key r) rows = Some r"
  by (induction rows) auto

lemma lookup_append: "lookup key k (rows @ [r]) =
    (case lookup key k rows of None \<Rightarrow> if key r = k then Some r else None | Some x \<Rightarrow> Some x)"
  by (induction rows) auto

lemma lookup_update_where:
  "(\<And>r. p r \<Longrightarrow> key (f r) = key r) \<Longrightarrow>
   lookup key k (update_where p f rows) = map_option (\<lambda>r. if p r then f r else r) (lookup key k rows)"
  by (induction rows) (auto simp: update_where_def)

lemma lookup_delete_where:
  "distinct (map key rows) \<Longrightarrow>
   lookup key k (delete_where p rows) =
     (case lookup key k rows of None \<Rightarrow> None | Some r \<Rightarrow> if p r then None else Some r)"
  by (induction rows) (auto simp: delete_where_def lookup_None_iff image_iff split: option.splits dest!: lookup_SomeD)

lemma map_update_where: "(\<And>r. p r \<Longrightarrow> g (f r) = g r) \<Longrightarrow> map g (update_where p f rows) = map g rows"
  by (simp add: update_where_def)

lemma set_update_where:
  "set (update_where p f rows) = {f r |r. r \<in> set rows \<and> p r} \<union> {r \<in> set rows. \<not> p r}"
  by (auto simp: update_where_def)

lemma set_delete_where [simp]: "set (delete_where p rows) = {r \<in> set rows. \<not> p r}"
  by (auto simp: delete_where_def)

lemma distinct_map_delete_where: "distinct (map g rows) \<Longrightarrow> distinct (map g (delete_where p rows))"
  by (simp add: delete_where_def distinct_map_filter)

lemma rows_affected_key:
  assumes "distinct (map key rows)"
  shows "rows_affected (\<lambda>r. key r = k \<and> p r) rows =
     (case lookup key k rows of None \<Rightarrow> 0 | Some r \<Rightarrow> of_bool (p r))"
  using assms
  by (induction rows) (auto simp: rows_affected_def filter_empty_conv lookup_None_iff image_iff split: option.splits dest!: lookup_SomeD)

section \<open>Rows\<close>

record rootfs_snapshot_result =
  rsr_Status :: snapshot_status
  rsr_EnvironmentID :: string
  rsr_ImageRef :: string
  rsr_ImageDescriptor :: "oci_image_descriptor option"
  rsr_PlatformOS :: string
  rsr_PlatformArch :: string
  rsr_PlatformVariant :: string
  rsr_Message :: string

text \<open>The column value \<open>{}\<close>, and a result of which only status and message are set.\<close>

definition snapshot_with :: "snapshot_status \<Rightarrow> string \<Rightarrow> rootfs_snapshot_result" where
  "snapshot_with status message =
     \<lparr>rsr_Status = status, rsr_EnvironmentID = [], rsr_ImageRef = [], rsr_ImageDescriptor = None,
      rsr_PlatformOS = [], rsr_PlatformArch = [], rsr_PlatformVariant = [], rsr_Message = message\<rparr>"

record run_row =
  rr_id :: string
  rr_namespace :: string
  rr_environment_id :: string
  rr_status :: run_status
  rr_config :: execution_config
  rr_environment_spec :: environment_spec
  rr_resolved_spec :: resolved_environment_spec
  rr_labels :: "(string \<times> string) list"
  rr_version :: int64
  rr_created_at :: gotime
  rr_updated_at :: gotime
  rr_exit_code :: "int32 option"
  rr_diagnostic_code :: string
  rr_message :: string
  rr_snapshot :: rootfs_snapshot_result

record allocation_row =
  ar_id :: string
  ar_run_id :: string
  ar_node_id :: string
  ar_state :: lifecycle_state
  ar_cpu :: int64
  ar_memory :: int64
  ar_ephemeral :: int64
  ar_created_at :: gotime
  ar_updated_at :: gotime
  ar_node_active_at :: "gotime option"
  ar_output_expires_at :: "gotime option"

record queue_row =
  qr_id :: string
  qr_next_run_at :: gotime
  qr_attempts :: int
  qr_last_error :: string
  qr_claim_owner :: string
  qr_claim_expires_at :: "gotime option"
  qr_created_at :: gotime
  qr_updated_at :: gotime

datatype access_purpose = AP_UNSPECIFIED | AP_INTERACTIVE | AP_RUN_OUTPUT | AP_OTHER int

record grant_row =
  gr_id :: string
  gr_allocation_id :: string
  gr_node_id :: string
  gr_purpose :: access_purpose
  gr_expires_at :: gotime
  gr_revision :: int64
  gr_revoked :: bool
  gr_token_hash :: string
  gr_created_at :: gotime

datatype tunnel_status =
    TS_UNSPECIFIED | TS_PENDING | TS_RUNNING | TS_DEGRADED | TS_REVOKED | TS_EXPIRED | TS_FAILED | TS_OTHER int

text \<open>The columns of \<open>tunnel_sessions\<close> and its events that revocation reads or writes.\<close>

record tunnel_row =
  tr_id :: string
  tr_allocation_id :: string
  tr_status :: tunnel_status
  tr_reason :: string
  tr_bound_addr :: string
  tr_revision :: int64
  tr_created_at :: gotime
  tr_updated_at :: gotime

record tunnel_event =
  te_session_id :: string
  te_event_type :: string
  te_status :: tunnel_status
  te_reason_code :: string
  te_reason :: string
  te_bound_addr :: string
  te_created_at :: gotime

record secret_reference =
  sref_run_id :: string
  sref_namespace :: string
  sref_secret_id :: string

record secret_row =
  sec_id :: string
  sec_namespace :: string

record node_row =
  nr_id :: string
  nr_target :: string
  nr_lifecycle_status :: string

record requirement_row =
  qq_allocation_id :: string
  qq_key_id :: string
  qq_requirement :: capability_requirement

record condition_row =
  co_allocation_id :: string
  co_observed_at :: gotime
  co_conditions :: condition_set

record audit_event =
  ae_operation :: string
  ae_target_type :: string
  ae_target_id :: string
  ae_operator_reason :: string
  ae_created_at :: gotime

record store_db =
  db_runs :: "run_row list"
  db_allocations :: "allocation_row list"
  db_queue :: "queue_row list"
  db_grants :: "grant_row list"
  db_cursors :: "(string \<times> int64) list"
  db_tunnels :: "tunnel_row list"
  db_tunnel_events :: "tunnel_event list"
  db_tunnel_revision :: int64
  db_secret_references :: "secret_reference list"
  db_secrets :: "secret_row list"
  db_nodes :: "node_row list"
  db_environments :: "environment list"
  db_requirements :: "requirement_row list"
  db_conditions :: "condition_row list"
  db_audit :: "audit_event list"

datatype store_error =
    NotFoundError | RowMissing | ReconcileClaimLost | IntentNotAccepted | CheckViolation | UniqueViolation
  | FailedPrecondition string | InvalidArgument string | ObservationRejected string
  | ClaimOwnerRequired | ClaimTTLNotPositive | SnapshotContract string
  | CapabilityInvalid capability_error | ConditionKeysMismatch | ConditionsConflict
  | RetryRequestInvalid retry_request_error

type_synonym statement = "store_db \<Rightarrow> store_error + store_db"

text \<open>Statements of one transaction in order; the first error ends it.\<close>

fun exec_all :: "statement list \<Rightarrow> statement" where
  "exec_all [] db = Inr db"
| "exec_all (s # ss) db = bind_result (s db) (exec_all ss)"

section \<open>Constraints and the output expiry trigger\<close>

text \<open>\<open>length(btrim(s)) > 0\<close>.\<close>

definition btrim_nonempty :: "string \<Rightarrow> bool" where
  "btrim_nonempty s \<longleftrightarrow> list_ex (\<lambda>c. c \<noteq> CHR '' '') s"

definition run_row_ok :: "run_row \<Rightarrow> bool" where
  "run_row_ok r \<longleftrightarrow>
     rr_status r \<in> {RUN_PLACED, RUN_STARTING, RUN_RUNNING, RUN_SUCCEEDED, RUN_FAILED, RUN_CANCELLED} \<and>
     0 < rr_version r \<and>
     (if ec_RootfsSnapshot (rr_config r)
      then rsr_Status (rr_snapshot r) \<in> {SNAP_PENDING, SNAP_READY, SNAP_FAILED}
      else rr_snapshot r = snapshot_with SNAP_UNSPECIFIED []) \<and>
     (rsr_Status (rr_snapshot r) = SNAP_READY \<longrightarrow> rr_status r = RUN_SUCCEEDED) \<and>
     (rsr_Status (rr_snapshot r) = SNAP_FAILED \<longrightarrow> IsTerminal (rr_status r)) \<and>
     rr_created_at r \<le> rr_updated_at r \<and>
     (rr_exit_code r \<noteq> None \<longrightarrow> rr_status r \<in> {RUN_SUCCEEDED, RUN_FAILED})"

definition allocation_row_ok :: "allocation_row \<Rightarrow> bool" where
  "allocation_row_ok a \<longleftrightarrow>
     ar_state a \<in> {LS_BOUND, LS_STARTING, LS_ACTIVE, LS_RELEASING, LS_RELEASED} \<and>
     0 < ar_cpu a \<and> 0 \<le> ar_memory a \<and> 0 \<le> ar_ephemeral a \<and> ar_created_at a \<le> ar_updated_at a"

definition queue_row_ok :: "queue_row \<Rightarrow> bool" where
  "queue_row_ok q \<longleftrightarrow>
     0 \<le> qr_attempts q \<and> qr_created_at q \<le> qr_updated_at q \<and>
     (qr_claim_owner q = [] \<and> qr_claim_expires_at q = None \<or>
      btrim_nonempty (qr_claim_owner q) \<and> qr_claim_expires_at q \<noteq> None)"

definition grant_row_ok :: "grant_row \<Rightarrow> bool" where
  "grant_row_ok g \<longleftrightarrow>
     gr_purpose g \<in> {AP_INTERACTIVE, AP_RUN_OUTPUT} \<and> 0 < gr_revision g \<and>
     gr_created_at g < gr_expires_at g \<and> btrim_nonempty (gr_token_hash g)"

definition freeze_allocation_output_expiry :: "allocation_row option \<Rightarrow> allocation_row \<Rightarrow> allocation_row" where
  "freeze_allocation_output_expiry old new =
     (if ar_state new \<in> {LS_RELEASING, LS_RELEASED} then
        (case Option.bind old ar_output_expires_at of
           Some t \<Rightarrow> new\<lparr>ar_output_expires_at := Some t\<rparr>
         | None \<Rightarrow> new\<lparr>ar_output_expires_at := Some (ar_updated_at new + 15 * minute)\<rparr>)
      else new\<lparr>ar_output_expires_at := None\<rparr>)"

section \<open>Statements\<close>

definition update_runs :: "(run_row \<Rightarrow> bool) \<Rightarrow> (run_row \<Rightarrow> run_row) \<Rightarrow> statement" where
  "update_runs p f db =
     (if list_all (\<lambda>r. p r \<longrightarrow> run_row_ok (f r)) (db_runs db)
      then Inr (db\<lparr>db_runs := update_where p f (db_runs db)\<rparr>) else Inl CheckViolation)"

definition update_allocations ::
  "(allocation_row \<Rightarrow> bool) \<Rightarrow> (allocation_row \<Rightarrow> allocation_row) \<Rightarrow> statement" where
  "update_allocations p f db =
     (let g = (\<lambda>a. freeze_allocation_output_expiry (Some a) (f a))
      in if list_all (\<lambda>a. p a \<longrightarrow> allocation_row_ok (g a)) (db_allocations db)
         then Inr (db\<lparr>db_allocations := update_where p g (db_allocations db)\<rparr>) else Inl CheckViolation)"

definition update_queue :: "(queue_row \<Rightarrow> bool) \<Rightarrow> (queue_row \<Rightarrow> queue_row) \<Rightarrow> statement" where
  "update_queue p f db =
     (if list_all (\<lambda>q. p q \<longrightarrow> queue_row_ok (f q)) (db_queue db)
      then Inr (db\<lparr>db_queue := update_where p f (db_queue db)\<rparr>) else Inl CheckViolation)"

definition delete_queue :: "(queue_row \<Rightarrow> bool) \<Rightarrow> statement" where
  "delete_queue p db = Inr (db\<lparr>db_queue := delete_where p (db_queue db)\<rparr>)"

text \<open>A guard of a transaction: an error of its own when the condition fails.\<close>

definition require :: "store_error \<Rightarrow> (store_db \<Rightarrow> bool) \<Rightarrow> statement" where
  "require e p db = (if p db then Inr db else Inl e)"

lemma update_runs_Inr [store_simps]:
  "update_runs p f db = Inr db' \<longleftrightarrow>
     (\<forall>r\<in>set (db_runs db). p r \<longrightarrow> run_row_ok (f r)) \<and>
     db' = db\<lparr>db_runs := update_where p f (db_runs db)\<rparr>"
  by (auto simp: update_runs_def list_all_iff)

lemma update_allocations_Inr [store_simps]:
  "update_allocations p f db = Inr db' \<longleftrightarrow>
     (\<forall>a\<in>set (db_allocations db). p a \<longrightarrow> allocation_row_ok (freeze_allocation_output_expiry (Some a) (f a))) \<and>
     db' = db\<lparr>db_allocations :=
       update_where p (\<lambda>a. freeze_allocation_output_expiry (Some a) (f a)) (db_allocations db)\<rparr>"
  by (auto simp: update_allocations_def list_all_iff Let_def)

lemma update_queue_Inr [store_simps]:
  "update_queue p f db = Inr db' \<longleftrightarrow>
     (\<forall>q\<in>set (db_queue db). p q \<longrightarrow> queue_row_ok (f q)) \<and>
     db' = db\<lparr>db_queue := update_where p f (db_queue db)\<rparr>"
  by (auto simp: update_queue_def list_all_iff)

lemma delete_queue_Inr [store_simps]:
  "delete_queue p db = Inr db' \<longleftrightarrow> db' = db\<lparr>db_queue := delete_where p (db_queue db)\<rparr>"
  by (auto simp: delete_queue_def)

lemma require_Inr [store_simps]: "require e p db = Inr db' \<longleftrightarrow> p db \<and> db' = db"
  by (auto simp: require_def)

lemma freeze_simps [simp]:
  "ar_id (freeze_allocation_output_expiry old a) = ar_id a"
  "ar_run_id (freeze_allocation_output_expiry old a) = ar_run_id a"
  "ar_node_id (freeze_allocation_output_expiry old a) = ar_node_id a"
  "ar_state (freeze_allocation_output_expiry old a) = ar_state a"
  "ar_node_active_at (freeze_allocation_output_expiry old a) = ar_node_active_at a"
  "ar_created_at (freeze_allocation_output_expiry old a) = ar_created_at a"
  by (simp_all add: freeze_allocation_output_expiry_def split: option.splits)

end
