(* ===== verification/Image_Ref.thy ===== *)
theory Image_Ref
  imports Go_Text
begin

text \<open>
  Image references (\<open>lib/go/imageref\<close>): normalisation, the registry host of a reference,
  the set of insecure registries and the binding of a repository to a digest.  The lemmas
  show that a bound reference is the repository without tag or digest, an at sign and the
  digest.
\<close>

definition DefaultRegistry :: string where
  "DefaultRegistry = ''index.docker.io''"

definition NormalizeRef :: "string \<Rightarrow> string" where
  "NormalizeRef ref = trim_prefix ''http://'' (trim_prefix ''https://'' (trim_space ref))"

definition RegistryHost :: "string \<Rightarrow> string" where
  "RegistryHost ref0 =
     (let ref = NormalizeRef ref0
      in if ref = [] then []
         else if CHR ''/'' \<notin> set ref then DefaultRegistry
         else let first = takeWhile (\<lambda>c. c \<noteq> CHR ''/'') ref
              in if first = ''localhost'' \<or> CHR ''.'' \<in> set first \<or> CHR '':'' \<in> set first then first
                 else DefaultRegistry)"

definition trim_suffix :: "string \<Rightarrow> string \<Rightarrow> string" where
  "trim_suffix p s = (if suffix p s then take (length s - length p) s else s)"

definition NormalizeRegistryHost :: "string \<Rightarrow> string" where
  "NormalizeRegistryHost host =
     trim_suffix ''/'' (trim_prefix ''https://'' (trim_prefix ''http://'' (trim_space host)))"

text \<open>The nil map is \<open>[]\<close>; a set of hosts is the list of its members.\<close>

definition HostSetFromCSV :: "string \<Rightarrow> string list" where
  "HostSetFromCSV raw =
     (if trim_space raw = [] then []
      else remdups (filter (\<lambda>h. h \<noteq> []) (map NormalizeRegistryHost (split_on (CHR '','') raw))))"

definition UseHTTPFor :: "string \<Rightarrow> string list \<Rightarrow> bool" where
  "UseHTTPFor ref insecureRegistries =
     (insecureRegistries \<noteq> [] \<and> RegistryHost ref \<noteq> [] \<and> RegistryHost ref \<in> set insecureRegistries)"

definition last_index_byte :: "char \<Rightarrow> string \<Rightarrow> int" where
  "last_index_byte c s =
     (if c \<in> set s then int (length s) - 1 - int (length (takeWhile (\<lambda>x. x \<noteq> c) (rev s))) else - 1)"

definition stripTag :: "string \<Rightarrow> string" where
  "stripTag ref =
     (let colon = last_index_byte (CHR '':'') ref
      in if last_index_byte (CHR ''/'') ref < colon then take (nat colon) ref else ref)"

datatype image_ref_error = DigestRequired | RepositoryRequired

definition WithDigest :: "string \<Rightarrow> string \<Rightarrow> image_ref_error + string" where
  "WithDigest ref0 digest0 =
     (let ref = NormalizeRef ref0; digest = trim_space digest0
      in case cut_on (CHR '':'') digest of
           None \<Rightarrow> Inl DigestRequired
         | Some (algorithm, encoded) \<Rightarrow>
             if ref = [] \<or> algorithm \<noteq> ''sha256'' \<or> length encoded \<noteq> 64 then Inl DigestRequired
             else let repository = stripTag (takeWhile (\<lambda>c. c \<noteq> CHR ''@'') ref)
                  in if trim_space repository = [] then Inl RepositoryRequired
                     else Inr (repository @ ''@'' @ digest))"

lemma last_index_byte_cases:
  "last_index_byte c s = - 1 \<and> c \<notin> set s \<or>
   (\<exists>a b. s = a @ c # b \<and> c \<notin> set b \<and> last_index_byte c s = int (length a))"
proof (cases "c \<in> set s")
  case True
  then obtain a b where s: "s = a @ c # b" and b: "c \<notin> set b" by (metis split_list_last)
  have "takeWhile (\<lambda>x. x \<noteq> c) (rev s) = rev b"
    using b by (simp add: s) (subst takeWhile_append2; auto)
  with True s b show ?thesis by (intro disjI2 exI [of _ a] exI [of _ b]) (simp add: last_index_byte_def)
qed (simp add: last_index_byte_def)

lemma stripTag_prefix: "prefix (stripTag ref) ref"
  by (simp add: stripTag_def Let_def take_is_prefix)

lemma WithDigest_shape:
  assumes "WithDigest ref digest = Inr r"
  shows "\<exists>repository. r = repository @ ''@'' @ trim_space digest \<and> CHR ''@'' \<notin> set repository \<and> trim_space repository \<noteq> []"
proof -
  let ?repo = "stripTag (takeWhile (\<lambda>c. c \<noteq> CHR ''@'') (NormalizeRef ref))"
  have "CHR ''@'' \<notin> set ?repo"
    using stripTag_prefix [of "takeWhile (\<lambda>c. c \<noteq> CHR ''@'') (NormalizeRef ref)"]
    by (auto dest!: set_mono_prefix set_takeWhileD)
  with assms show ?thesis
    by (auto simp: WithDigest_def Let_def split: option.splits prod.splits if_splits)
qed

end
