(* ===== verification/Reconcile_Queue.thy ===== *)
theory Reconcile_Queue
  imports Store_Model Image_Ref
begin

text \<open>
  The statements that the transactions of the run store share: the reconcile queue
  (\<open>postgres/allocation/reconcile_queue.go\<close>), access grants
  (\<open>postgres/allocation/access_grants.go\<close>), tunnel revocation
  (\<open>postgres/tunnel/revoke.go\<close>), Secret references
  (\<open>postgres/run/secret_references.go\<close>) and capability conditions
  (\<open>postgres/allocation/capability.go\<close>).

  The lemmas describe each successful statement as an update of the tables and show that
  the statements on grants, tunnels, Secrets and conditions leave runs, allocations and the
  queue alone.
\<close>

section \<open>The reconcile queue\<close>

text \<open>The lifecycle condition that every statement on the queue repeats.\<close>

definition intent_accepts :: "reconcile_intent \<Rightarrow> lifecycle_state \<Rightarrow> bool" where
  "intent_accepts intent state \<longleftrightarrow>
     intent = IntentEnsurePresent \<and> state \<in> {LS_BOUND, LS_STARTING, LS_ACTIVE} \<or>
     intent = IntentEnsureAbsent \<and> state \<in> {LS_RELEASING, LS_RELEASED}"

definition allocation_accepts :: "reconcile_intent \<Rightarrow> string \<Rightarrow> store_db \<Rightarrow> bool" where
  "allocation_accepts intent aid db =
     (case lookup ar_id aid (db_allocations db) of
        None \<Rightarrow> False | Some a \<Rightarrow> intent_accepts intent (ar_state a))"

definition claim_held :: "string \<Rightarrow> gotime \<Rightarrow> queue_row \<Rightarrow> bool" where
  "claim_held owner now q \<longleftrightarrow>
     qr_claim_owner q = owner \<and> (case qr_claim_expires_at q of None \<Rightarrow> False | Some t \<Rightarrow> now < t)"

definition holds_claim :: "string \<Rightarrow> string \<Rightarrow> reconcile_intent \<Rightarrow> gotime \<Rightarrow> store_db \<Rightarrow> bool" where
  "holds_claim aid owner intent now db =
     (case lookup qr_id (trim_space aid) (db_queue db) of
        None \<Rightarrow> False
      | Some q \<Rightarrow> claim_held (trim_space owner) now q \<and> allocation_accepts intent (trim_space aid) db)"

definition RequireReconcileClaim :: "string \<Rightarrow> string \<Rightarrow> reconcile_intent \<Rightarrow> gotime \<Rightarrow> statement" where
  "RequireReconcileClaim aid owner intent now = require ReconcileClaimLost (holds_claim aid owner intent now)"

definition RenewReconcileClaim ::
  "string \<Rightarrow> string \<Rightarrow> reconcile_intent \<Rightarrow> gotime \<Rightarrow> duration \<Rightarrow> store_db \<Rightarrow> store_error + store_db \<times> bool" where
  "RenewReconcileClaim aid owner intent now claimTTL db =
     (if claimTTL \<le> 0 then Inl ClaimTTLNotPositive
      else let p = (\<lambda>q. qr_id q = trim_space aid \<and> claim_held (trim_space owner) now q \<and>
                        allocation_accepts intent (qr_id q) db)
           in bind_result
                (update_queue p (\<lambda>q. q\<lparr>qr_claim_expires_at := Some (now + claimTTL), qr_updated_at := now\<rparr>) db)
                (\<lambda>db'. Inr (db', rows_affected p (db_queue db) = 1)))"

text \<open>\<open>INSERT ... ON CONFLICT DO UPDATE\<close> on one allocation's row.\<close>

definition schedule_insert :: "schedule_request \<Rightarrow> gotime \<Rightarrow> gotime \<Rightarrow> queue_row" where
  "schedule_insert req nextRunAt now =
     \<lparr>qr_id = trim_space (sr_AllocationID req), qr_next_run_at = nextRunAt,
      qr_attempts = (if sr_IncrementAttempts req then 1 else 0),
      qr_last_error = trim_space (sr_LastReconcileError req), qr_claim_owner = [], qr_claim_expires_at = None,
      qr_created_at = now, qr_updated_at = now\<rparr>"

definition schedule_update :: "schedule_request \<Rightarrow> gotime \<Rightarrow> gotime \<Rightarrow> queue_row \<Rightarrow> queue_row" where
  "schedule_update req nextRunAt now q =
     (let live = (case qr_claim_expires_at q of None \<Rightarrow> False | Some t \<Rightarrow> now < t)
      in q\<lparr>qr_next_run_at := min (qr_next_run_at q) nextRunAt,
           qr_attempts := (if sr_IncrementAttempts req then qr_attempts q + 1 else 0),
           qr_last_error := trim_space (sr_LastReconcileError req),
           qr_claim_owner := (if live then qr_claim_owner q else []),
           qr_claim_expires_at := (if live then qr_claim_expires_at q else None),
           qr_updated_at := now\<rparr>)"

definition ScheduleReconcile :: "schedule_request \<Rightarrow> gotime \<Rightarrow> statement" where
  "ScheduleReconcile req now db =
     (let nextRunAt = (if is_zero_time (sr_NextRunAt req) then now else sr_NextRunAt req);
          aid = trim_space (sr_AllocationID req)
      in if \<not> allocation_accepts (sr_Intent req) aid db then Inl IntentNotAccepted
         else if lookup qr_id aid (db_queue db) = None
         then Inr (db\<lparr>db_queue := db_queue db @ [schedule_insert req nextRunAt now]\<rparr>)
         else update_queue (\<lambda>q. qr_id q = aid) (schedule_update req nextRunAt now) db)"

definition ScheduleClaimedReconcile ::
  "schedule_request \<Rightarrow> string \<Rightarrow> gotime \<Rightarrow> store_db \<Rightarrow> store_error + store_db \<times> bool" where
  "ScheduleClaimedReconcile req owner now db =
     (let nextRunAt = (if is_zero_time (sr_NextRunAt req) then now else sr_NextRunAt req);
          p = (\<lambda>q. qr_id q = trim_space (sr_AllocationID req) \<and> claim_held (trim_space owner) now q \<and>
                   allocation_accepts (sr_Intent req) (qr_id q) db)
      in bind_result
           (update_queue p
              (\<lambda>q. q\<lparr>qr_next_run_at := nextRunAt,
                    qr_attempts := (if sr_IncrementAttempts req then qr_attempts q + 1 else qr_attempts q),
                    qr_last_error := trim_space (sr_LastReconcileError req),
                    qr_claim_owner := [], qr_claim_expires_at := None, qr_updated_at := now\<rparr>) db)
           (\<lambda>db'. Inr (db', rows_affected p (db_queue db) = 1)))"

text \<open>A guarded statement that must affect exactly one row.\<close>

definition delete_claimed :: "string \<Rightarrow> string \<Rightarrow> statement" where
  "delete_claimed aid owner db =
     (let p = (\<lambda>q. qr_id q = trim_space aid \<and> qr_claim_owner q = trim_space owner)
      in if rows_affected p (db_queue db) \<noteq> 1 then Inl ReconcileClaimLost else delete_queue p db)"

section \<open>Claiming due work\<close>

type_synonym joined_row = "queue_row \<times> allocation_row \<times> run_row \<times> node_row"

definition join_queue :: "store_db \<Rightarrow> joined_row list" where
  "join_queue db =
     present (map (\<lambda>q.
       Option.bind (lookup ar_id (qr_id q) (db_allocations db)) (\<lambda>a.
       Option.bind (lookup rr_id (ar_run_id a) (db_runs db)) (\<lambda>r.
       map_option (\<lambda>n. (q, a, r, n)) (lookup nr_id (ar_node_id a) (db_nodes db))))) (db_queue db))"

definition claimable :: "gotime \<Rightarrow> queue_row \<Rightarrow> bool" where
  "claimable now q \<longleftrightarrow>
     qr_next_run_at q \<le> now \<and> (case qr_claim_expires_at q of None \<Rightarrow> True | Some t \<Rightarrow> t \<le> now)"

definition due_less :: "joined_row \<Rightarrow> joined_row \<Rightarrow> bool" where
  "due_less x y \<longleftrightarrow>
     qr_next_run_at (fst x) < qr_next_run_at (fst y) \<or>
     qr_next_run_at (fst x) = qr_next_run_at (fst y) \<and> qr_id (fst x) < qr_id (fst y)"

text \<open>\<open>ROW_NUMBER() OVER (PARTITION BY node_id ORDER BY next_run_at, allocation_id)\<close>.\<close>

definition node_rank :: "joined_row list \<Rightarrow> joined_row \<Rightarrow> nat" where
  "node_rank due x =
     Suc (length (filter (\<lambda>y. ar_node_id (fst (snd y)) = ar_node_id (fst (snd x)) \<and> due_less y x) due))"

definition candidate_less :: "joined_row list \<Rightarrow> joined_row \<Rightarrow> joined_row \<Rightarrow> bool" where
  "candidate_less due x y \<longleftrightarrow>
     node_rank due x < node_rank due y \<or> node_rank due x = node_rank due y \<and> due_less x y"

definition claim_candidates :: "store_db \<Rightarrow> int \<Rightarrow> gotime \<Rightarrow> joined_row list" where
  "claim_candidates db limit now =
     (let due = filter (\<lambda>x. claimable now (fst x)) (join_queue db)
      in take (nat limit) (sort_slice (candidate_less due) due))"

definition allocation_requirements :: "store_db \<Rightarrow> string \<Rightarrow> capability_requirement list" where
  "allocation_requirements db aid =
     map qq_requirement (sort_slice (\<lambda>x y. qq_key_id x < qq_key_id y)
       (filter (\<lambda>x. qq_allocation_id x = aid) (db_requirements db)))"

definition rootfsSnapshotBaseImageRef :: "string \<Rightarrow> string \<Rightarrow> image_ref_error + string" where
  "rootfsSnapshotBaseImageRef sourceRef digest = WithDigest sourceRef digest"

text \<open>The computed columns of the claim query and one scanned row of it.\<close>

definition snapshot_requested :: "run_row \<Rightarrow> bool" where
  "snapshot_requested r \<longleftrightarrow>
     ec_RootfsSnapshot (rr_config r) \<and> rr_status r = RUN_SUCCEEDED \<and> rsr_Status (rr_snapshot r) = SNAP_PENDING"

definition base_image_ref :: "run_row \<Rightarrow> string" where
  "base_image_ref r = (case es_Image (rr_environment_spec r) of None \<Rightarrow> [] | Some im \<Rightarrow> is_Ref im)"

definition base_image_digest :: "run_row \<Rightarrow> string" where
  "base_image_digest r = (case re_ImageDescriptor (rr_resolved_spec r) of None \<Rightarrow> [] | Some d \<Rightarrow> id_Digest d)"

definition registry_credential_id :: "run_row \<Rightarrow> string" where
  "registry_credential_id r =
     (case es_Image (rr_environment_spec r) of None \<Rightarrow> [] | Some im \<Rightarrow> is_RegistryCredentialID im)"

definition eligible_at :: "queue_row \<Rightarrow> gotime" where
  "eligible_at q =
     max (max (qr_next_run_at q) (qr_updated_at q))
       (case qr_claim_expires_at q of None \<Rightarrow> qr_updated_at q | Some t \<Rightarrow> t)"

definition scanned_item ::
  "store_db \<Rightarrow> string \<Rightarrow> queue_row \<Rightarrow> allocation_row \<Rightarrow> run_row \<Rightarrow> node_row \<Rightarrow> string \<Rightarrow> reconcile_item" where
  "scanned_item db owner q a r n ref =
     \<lparr>rit_OutputExpiresAt = ar_output_expires_at a, rit_AllocationID = qr_id q, rit_RunID = ar_run_id a,
      rit_EnvironmentID = rr_environment_id r, rit_LifecycleState = ar_state a, rit_NodeID = ar_node_id a,
      rit_NodeTarget = nr_target n, rit_ReconcileAttempts = qr_attempts q, rit_LastReconcileError = qr_last_error q,
      rit_ClaimOwner = owner, rit_NextRunAt = qr_next_run_at q, rit_EligibleAt = eligible_at q,
      rit_CapabilityRequirements = allocation_requirements db (qr_id q),
      rit_DeclaredOutputs = ec_DeclaredOutputs (rr_config r), rit_RootfsSnapshotRequested = snapshot_requested r,
      rit_BaseImageRef = ref, rit_RegistryCredentialID = registry_credential_id r\<rparr>"

fun claimed_item :: "store_db \<Rightarrow> string \<Rightarrow> joined_row \<Rightarrow> store_error + reconcile_item" where
  "claimed_item db owner (q, a, r, n) =
     (if snapshot_requested r
      then (case rootfsSnapshotBaseImageRef (base_image_ref r) (base_image_digest r) of
              Inl _ \<Rightarrow> Inl (SnapshotContract (qr_id q))
            | Inr ref \<Rightarrow> Inr (scanned_item db owner q a r n ref))
      else Inr (scanned_item db owner q a r n (base_image_ref r)))"

text \<open>The statement commits before its rows are scanned, so an error of the scan comes with
  the claims in place.\<close>

definition ClaimDueReconcileItems ::
  "string \<Rightarrow> int \<Rightarrow> gotime \<Rightarrow> duration \<Rightarrow> store_db \<Rightarrow> store_db \<times> (store_error + reconcile_item list)" where
  "ClaimDueReconcileItems owner0 limit0 now claimTTL db =
     (let owner = trim_space owner0; limit = (if limit0 \<le> 0 then DefaultReconcileLimit else limit0)
      in if owner = [] then (db, Inl ClaimOwnerRequired)
         else if claimTTL \<le> 0 then (db, Inl ClaimTTLNotPositive)
         else let candidates = claim_candidates db limit now;
                  ids = map (\<lambda>x. qr_id (fst x)) candidates
              in case update_queue (\<lambda>q. qr_id q \<in> set ids \<and> claimable now q)
                        (\<lambda>q. q\<lparr>qr_claim_owner := owner, qr_claim_expires_at := Some (now + claimTTL),
                              qr_updated_at := now\<rparr>) db of
                   Inl e \<Rightarrow> (db, Inl e)
                 | Inr db' \<Rightarrow> (db', map_result (claimed_item db owner)
                                 (sort_slice (\<lambda>x y. qr_id (fst x) < qr_id (fst y)) candidates)))"

section \<open>Access grants\<close>

definition NextAccessGrantRevision :: "string \<Rightarrow> store_db \<Rightarrow> store_db \<times> int64" where
  "NextAccessGrantRevision nodeID db =
     (case map_of (db_cursors db) nodeID of
        None \<Rightarrow> (db\<lparr>db_cursors := (nodeID, 1) # db_cursors db\<rparr>, 1)
      | Some n \<Rightarrow> (db\<lparr>db_cursors := map (\<lambda>(k, v). if k = nodeID then (k, v + 1) else (k, v)) (db_cursors db)\<rparr>, n + 1))"

definition live_interactive :: "string \<Rightarrow> grant_row \<Rightarrow> bool" where
  "live_interactive aid g \<longleftrightarrow> gr_allocation_id g = aid \<and> gr_purpose g = AP_INTERACTIVE \<and> \<not> gr_revoked g"

definition RevokeInteractiveAccessGrants :: "string \<Rightarrow> statement" where
  "RevokeInteractiveAccessGrants aid db =
     (case List.find (live_interactive aid) (db_grants db) of
        None \<Rightarrow> Inr db
      | Some g \<Rightarrow>
          (case NextAccessGrantRevision (gr_node_id g) db of
             (db1, revision) \<Rightarrow>
               let f = (\<lambda>x. x\<lparr>gr_revoked := True, gr_revision := revision\<rparr>)
               in if list_all (\<lambda>x. live_interactive aid x \<longrightarrow> grant_row_ok (f x)) (db_grants db1)
                  then Inr (db1\<lparr>db_grants := update_where (live_interactive aid) f (db_grants db1)\<rparr>)
                  else Inl CheckViolation))"

definition grant_IsExpired :: "grant_row \<Rightarrow> gotime \<Rightarrow> bool" where
  "grant_IsExpired g now \<longleftrightarrow> \<not> now < gr_expires_at g"

section \<open>Tunnels\<close>

definition tunnel_live :: "tunnel_status \<Rightarrow> bool" where
  "tunnel_live s \<longleftrightarrow> s = TS_PENDING \<or> s = TS_RUNNING \<or> s = TS_DEGRADED"

definition RevokeActiveForAllocationsTx :: "string list \<Rightarrow> string \<Rightarrow> gotime \<Rightarrow> statement" where
  "RevokeActiveForAllocationsTx allocationIDs reason0 now db =
     (if allocationIDs = [] then Inr db
      else
        let reason = (if trim_space reason0 = [] then ''allocation deleted'' else trim_space reason0);
            due = (\<lambda>t. tr_allocation_id t \<in> set allocationIDs \<and> tunnel_live (tr_status t));
            revision = db_tunnel_revision db + 1;
            f = (\<lambda>t. t\<lparr>tr_status := TS_REVOKED, tr_reason := reason, tr_updated_at := now, tr_revision := revision\<rparr>);
            event = (\<lambda>t. \<lparr>te_session_id = tr_id t, te_event_type = ''TUNNEL_SESSION_EVENT_TYPE_REVOKED'',
                       te_status = TS_REVOKED,
                       te_reason_code = ''TUNNEL_SESSION_EVENT_REASON_CODE_ALLOCATION_ENDED'',
                       te_reason = reason, te_bound_addr = tr_bound_addr t, te_created_at = now\<rparr>)
        in if \<not> list_ex due (db_tunnels db) then Inr db
           else if \<not> list_all (\<lambda>t. due t \<longrightarrow> tr_created_at t \<le> now \<and> 0 < revision) (db_tunnels db)
           then Inl CheckViolation
           else Inr (db\<lparr>db_tunnels := update_where due f (db_tunnels db), db_tunnel_revision := revision,
                       db_tunnel_events := db_tunnel_events db @ map event (filter due (db_tunnels db))\<rparr>))"

section \<open>Secret references\<close>

definition requiredRunSecretIDs :: "execution_config \<Rightarrow> environment_spec \<Rightarrow> string list" where
  "requiredRunSecretIDs config spec =
     (let image = (case es_Image spec of None \<Rightarrow> [] | Some im \<Rightarrow> [trim_space (is_RegistryCredentialID im)]);
          env = map (\<lambda>v. trim_space (sv_SecretID v)) (filter (\<lambda>v. \<not> sv_Optional v) (present (ec_SecretEnv config)));
          files = map (\<lambda>f. trim_space (sf_SecretID f)) (filter (\<lambda>f. \<not> sf_Optional f) (present (ec_SecretFiles config)))
      in sort_slice (<) (remdups (filter (\<lambda>i. i \<noteq> []) (image @ env @ files))))"

definition insertRunSecretReference :: "string \<Rightarrow> string \<Rightarrow> string \<Rightarrow> statement" where
  "insertRunSecretReference runID namespace secretID db =
     (let found = filter (\<lambda>s. sec_id s = secretID \<and> sec_namespace s = namespace) (db_secrets db)
      in if length found \<noteq> 1 then Inl (FailedPrecondition ''required Secret does not exist'')
         else if list_ex (\<lambda>x. sref_run_id x = runID \<and> sref_secret_id x = secretID) (db_secret_references db)
         then Inl UniqueViolation
         else Inr (db\<lparr>db_secret_references := db_secret_references db @
                [\<lparr>sref_run_id = runID, sref_namespace = namespace, sref_secret_id = secretID\<rparr>]\<rparr>))"

definition insertRunSecretReferences ::
  "string \<Rightarrow> string \<Rightarrow> execution_config \<Rightarrow> environment_spec \<Rightarrow> statement" where
  "insertRunSecretReferences runID namespace config spec =
     exec_all (map (insertRunSecretReference runID namespace) (requiredRunSecretIDs config spec))"

definition deleteRunSecretReferences :: "string \<Rightarrow> statement" where
  "deleteRunSecretReferences runID db =
     Inr (db\<lparr>db_secret_references := delete_where (\<lambda>x. sref_run_id x = trim_space runID) (db_secret_references db)\<rparr>)"

definition deleteAllocationRunSecretReferences :: "string \<Rightarrow> statement" where
  "deleteAllocationRunSecretReferences aid db =
     (case lookup ar_id (trim_space aid) (db_allocations db) of
        None \<Rightarrow> Inr db
      | Some a \<Rightarrow> Inr (db\<lparr>db_secret_references :=
                     delete_where (\<lambda>x. sref_run_id x = ar_run_id a) (db_secret_references db)\<rparr>))"

section \<open>Capability requirements and conditions\<close>

fun insertRequirementRows ::
  "(string \<Rightarrow> string) \<Rightarrow> string \<Rightarrow> capability_requirement list \<Rightarrow> statement" where
  "insertRequirementRows ul aid [] db = Inr db"
| "insertRequirementRows ul aid (x # xs) db =
     (let keyID = (case KeyID ul (cr_key x) of Inl _ \<Rightarrow> [] | Inr i \<Rightarrow> i)
      in if \<not> btrim_nonempty keyID then Inl CheckViolation
         else if list_ex (\<lambda>r. qq_allocation_id r = aid \<and> qq_key_id r = keyID) (db_requirements db)
         then Inl UniqueViolation
         else insertRequirementRows ul aid xs
                (db\<lparr>db_requirements := db_requirements db @
                    [\<lparr>qq_allocation_id = aid, qq_key_id = keyID, qq_requirement = x\<rparr>]\<rparr>))"

definition InsertCapabilityRequirements ::
  "(string \<Rightarrow> string) \<Rightarrow> string \<Rightarrow> capability_requirement option list \<Rightarrow> statement" where
  "InsertCapabilityRequirements ul aid requirements db =
     (case ValidateRequirements ul requirements of
        Some e \<Rightarrow> Inl (CapabilityInvalid e)
      | None \<Rightarrow> insertRequirementRows ul (trim_space aid) (present requirements) db)"

definition condition_key_id :: "(string \<Rightarrow> string) \<Rightarrow> capability_condition option \<Rightarrow> capability_error + string" where
  "condition_key_id ul c = KeyID ul (Option.bind c cc_key)"

definition canonicalCapabilityConditionSet ::
  "(string \<Rightarrow> string) \<Rightarrow> condition_set option \<Rightarrow> store_error + condition_set" where
  "canonicalCapabilityConditionSet ul cset =
     (case cset of
        None \<Rightarrow> Inl (CapabilityInvalid (ConditionError ConditionSetRequired))
      | Some s \<Rightarrow>
          (case check_all (\<lambda>c. result_error (condition_key_id ul c)) (cond_conditions s) of
             Some e \<Rightarrow> Inl (CapabilityInvalid e)
           | None \<Rightarrow>
               let key = (\<lambda>c. case condition_key_id ul c of Inl _ \<Rightarrow> [] | Inr i \<Rightarrow> i)
               in Inr (s\<lparr>cond_conditions := sort_slice (\<lambda>x y. key x < key y) (cond_conditions s)\<rparr>)))"

fun condition_keys_loop ::
  "(string \<Rightarrow> string) \<Rightarrow> string list \<Rightarrow> capability_condition option list \<Rightarrow> store_error option" where
  "condition_keys_loop ul stored [] = (if stored = [] then None else Some ConditionKeysMismatch)"
| "condition_keys_loop ul stored (c # cs) =
     (case condition_key_id ul c of
        Inl e \<Rightarrow> Some (CapabilityInvalid e)
      | Inr i \<Rightarrow> if i \<notin> set stored then Some ConditionKeysMismatch
                else condition_keys_loop ul (remove1 i stored) cs)"

definition validateStoredRequirementConditionKeys ::
  "(string \<Rightarrow> string) \<Rightarrow> store_db \<Rightarrow> string \<Rightarrow> capability_condition option list \<Rightarrow> store_error option" where
  "validateStoredRequirementConditionKeys ul db aid conditions =
     (let stored = remdups (map qq_key_id (filter (\<lambda>r. qq_allocation_id r = trim_space aid) (db_requirements db)))
      in if length stored \<noteq> length conditions then Some ConditionKeysMismatch
         else condition_keys_loop ul stored conditions)"

text \<open>\<open>col\<close> is the value a timestamp column keeps of a time: PostgreSQL stores whole
  microseconds.\<close>

definition ReplaceCapabilityConditions ::
  "(string \<Rightarrow> string) \<Rightarrow> (gotime \<Rightarrow> gotime) \<Rightarrow> string \<Rightarrow> condition_set option \<Rightarrow> gotime \<Rightarrow> statement" where
  "ReplaceCapabilityConditions ul col aid0 cset now db =
     bind_result (canonicalCapabilityConditionSet ul cset) (\<lambda>canonical.
       case ValidateConditionSet ul (Some canonical) now of
         Some e \<Rightarrow> Inl (CapabilityInvalid e)
       | None \<Rightarrow>
           let aid = trim_space aid0
           in case lookup ar_id aid (db_allocations db) of
                None \<Rightarrow> Inl RowMissing
              | Some a \<Rightarrow>
                  if ar_state a \<in> {LS_STOPPED, LS_RELEASING, LS_RELEASED} then Inr db
                  else case validateStoredRequirementConditionKeys ul db aid (cond_conditions canonical) of
                         Some e \<Rightarrow> Inl e
                       | None \<Rightarrow>
                           let incomingAt = (case cond_observed_at canonical of None \<Rightarrow> 0 | Some t \<Rightarrow> as_time t);
                               row = \<lparr>co_allocation_id = aid, co_observed_at = col incomingAt, co_conditions = canonical\<rparr>
                           in case lookup co_allocation_id aid (db_conditions db) of
                                None \<Rightarrow> Inr (db\<lparr>db_conditions := db_conditions db @ [row]\<rparr>)
                              | Some existing \<Rightarrow>
                                  if incomingAt < co_observed_at existing then Inr db
                                  else if incomingAt = co_observed_at existing
                                  then if co_conditions existing \<noteq> canonical then Inl ConditionsConflict else Inr db
                                  else Inr (db\<lparr>db_conditions :=
                                         update_where (\<lambda>x. co_allocation_id x = aid) (\<lambda>_. row) (db_conditions db)\<rparr>))"

section \<open>The statements that leave runs, allocations and the queue alone\<close>

definition same_core :: "store_db \<Rightarrow> store_db \<Rightarrow> bool" where
  "same_core db db' \<longleftrightarrow>
     db_runs db' = db_runs db \<and> db_allocations db' = db_allocations db \<and> db_queue db' = db_queue db"

lemma same_core_refl [simp]: "same_core db db"
  by (simp add: same_core_def)

lemma same_core_trans: "same_core a b \<Longrightarrow> same_core b c \<Longrightarrow> same_core a c"
  by (simp add: same_core_def)

lemma NextAccessGrantRevision_core: "NextAccessGrantRevision n db = (db', v) \<Longrightarrow> same_core db db'"
  by (auto simp: NextAccessGrantRevision_def same_core_def split: option.splits)

lemma RevokeInteractiveAccessGrants_core:
  "RevokeInteractiveAccessGrants aid db = Inr db' \<Longrightarrow> same_core db db'"
  by (auto simp: RevokeInteractiveAccessGrants_def same_core_def Let_def
      split: option.splits prod.splits if_splits dest!: NextAccessGrantRevision_core)

lemma RevokeActiveForAllocationsTx_core:
  "RevokeActiveForAllocationsTx ids reason now db = Inr db' \<Longrightarrow> same_core db db'"
  by (auto simp: RevokeActiveForAllocationsTx_def same_core_def Let_def split: if_splits)

lemma deleteRunSecretReferences_core: "deleteRunSecretReferences rid db = Inr db' \<Longrightarrow> same_core db db'"
  by (auto simp: deleteRunSecretReferences_def same_core_def)

lemma deleteAllocationRunSecretReferences_core:
  "deleteAllocationRunSecretReferences aid db = Inr db' \<Longrightarrow> same_core db db'"
  by (auto simp: deleteAllocationRunSecretReferences_def same_core_def split: option.splits)

lemma insertRunSecretReference_core: "insertRunSecretReference rid ns s db = Inr db' \<Longrightarrow> same_core db db'"
  by (auto simp: insertRunSecretReference_def same_core_def Let_def split: if_splits)

lemma exec_all_core:
  "exec_all ss db = Inr db' \<Longrightarrow> (\<And>s d d'. s \<in> set ss \<Longrightarrow> s d = Inr d' \<Longrightarrow> same_core d d') \<Longrightarrow> same_core db db'"
proof (induction ss arbitrary: db)
  case (Cons s ss)
  from Cons.prems(1) obtain d where d: "s db = Inr d" "exec_all ss d = Inr db'" by auto
  from Cons.prems(2) d(1) have "same_core db d" by auto
  moreover have "same_core d db'" using Cons.IH [OF d(2)] Cons.prems(2) by auto
  ultimately show ?case by (rule same_core_trans)
qed simp

lemma insertRunSecretReferences_core:
  "insertRunSecretReferences rid ns c spec db = Inr db' \<Longrightarrow> same_core db db'"
  unfolding insertRunSecretReferences_def
  by (rule exec_all_core) (auto dest: insertRunSecretReference_core)

lemma insertRequirementRows_core: "insertRequirementRows ul aid xs db = Inr db' \<Longrightarrow> same_core db db'"
  by (induction ul aid xs db rule: insertRequirementRows.induct)
    (auto simp: same_core_def Let_def split: if_splits)

lemma InsertCapabilityRequirements_core:
  "InsertCapabilityRequirements ul aid rs db = Inr db' \<Longrightarrow> same_core db db'"
  by (auto simp: InsertCapabilityRequirements_def split: option.splits dest: insertRequirementRows_core)

lemma ReplaceCapabilityConditions_core:
  "ReplaceCapabilityConditions ul col aid cset now db = Inr db' \<Longrightarrow> same_core db db'"
  by (auto simp: ReplaceCapabilityConditions_def same_core_def Let_def split: option.splits if_splits)

lemmas core_statements =
  RevokeInteractiveAccessGrants_core RevokeActiveForAllocationsTx_core deleteRunSecretReferences_core
  deleteAllocationRunSecretReferences_core insertRunSecretReferences_core
  InsertCapabilityRequirements_core ReplaceCapabilityConditions_core

end
