(* ===== verification/Run_Store.thy ===== *)
theory Run_Store
  imports Reconcile_Queue
begin

text \<open>
  The transactions of the run store (\<open>postgres/run\<close>) and of the operator
  (\<open>postgres/admin/allocation_lifecycle.go\<close>) that change runs, allocations and the
  reconcile queue, and the retention of finished runs (\<open>postgres/retention\<close>).  Each
  handler is one definition: its reads, guards and statements in the order of the source.
  Identifiers made by \<open>uuid\<close> and token hashes are arguments.  A handler returns what
  the callers in the model read of its result; the wake-up signal after a commit has no
  state and is left out.
\<close>

section \<open>Stored diagnostic codes\<close>

fun diagnostic_String :: "diagnostic_code \<Rightarrow> string" where
  "diagnostic_String DIAG_UNSPECIFIED = ''WORKLOAD_DIAGNOSTIC_CODE_UNSPECIFIED''"
| "diagnostic_String DIAG_SECRET_PROJECTION_ERROR = ''WORKLOAD_DIAGNOSTIC_CODE_SECRET_PROJECTION_ERROR''"
| "diagnostic_String DIAG_REGISTRY_AUTH_ERROR = ''WORKLOAD_DIAGNOSTIC_CODE_REGISTRY_AUTH_ERROR''"
| "diagnostic_String DIAG_IMAGE_RESOLUTION_ERROR = ''WORKLOAD_DIAGNOSTIC_CODE_IMAGE_RESOLUTION_ERROR''"
| "diagnostic_String DIAG_NODE_SELECTION_ERROR = ''WORKLOAD_DIAGNOSTIC_CODE_NODE_SELECTION_ERROR''"
| "diagnostic_String DIAG_RUNTIME_START_ERROR = ''WORKLOAD_DIAGNOSTIC_CODE_RUNTIME_START_ERROR''"
| "diagnostic_String DIAG_PROCESS_EXITED = ''WORKLOAD_DIAGNOSTIC_CODE_PROCESS_EXITED''"
| "diagnostic_String DIAG_ADMISSION_BLOCKED = ''WORKLOAD_DIAGNOSTIC_CODE_ADMISSION_BLOCKED''"
| "diagnostic_String DIAG_CAPABILITY_ENFORCEMENT_LOST = ''WORKLOAD_DIAGNOSTIC_CODE_CAPABILITY_ENFORCEMENT_LOST''"
| "diagnostic_String DIAG_MEMORY_LIMIT_EXCEEDED = ''WORKLOAD_DIAGNOSTIC_CODE_MEMORY_LIMIT_EXCEEDED''"
| "diagnostic_String DIAG_EXECUTION_LEASE_EXPIRED = ''WORKLOAD_DIAGNOSTIC_CODE_EXECUTION_LEASE_EXPIRED''"
| "diagnostic_String DIAG_OPERATOR_FORCE_TERMINATED = ''WORKLOAD_DIAGNOSTIC_CODE_OPERATOR_FORCE_TERMINATED''"
| "diagnostic_String DIAG_OPERATOR_FORCE_CLEANUP = ''WORKLOAD_DIAGNOSTIC_CODE_OPERATOR_FORCE_CLEANUP''"
| "diagnostic_String (DIAG_OTHER n) = fmt_int n"

definition WorkloadDiagnosticCode_value :: "(string \<times> diagnostic_code) list" where
  "WorkloadDiagnosticCode_value =
     map (\<lambda>c. (diagnostic_String c, c))
       [DIAG_UNSPECIFIED, DIAG_SECRET_PROJECTION_ERROR, DIAG_REGISTRY_AUTH_ERROR, DIAG_IMAGE_RESOLUTION_ERROR,
        DIAG_NODE_SELECTION_ERROR, DIAG_RUNTIME_START_ERROR, DIAG_PROCESS_EXITED, DIAG_ADMISSION_BLOCKED,
        DIAG_CAPABILITY_ENFORCEMENT_LOST, DIAG_MEMORY_LIMIT_EXCEEDED, DIAG_EXECUTION_LEASE_EXPIRED,
        DIAG_OPERATOR_FORCE_TERMINATED, DIAG_OPERATOR_FORCE_CLEANUP]"

definition parseWorkloadDiagnosticCode :: "string \<Rightarrow> diagnostic_code" where
  "parseWorkloadDiagnosticCode v =
     (case map_of WorkloadDiagnosticCode_value (trim_space v) of Some c \<Rightarrow> c | None \<Rightarrow> DIAG_UNSPECIFIED)"

section \<open>Reads\<close>

type_synonym run_view = "run_row \<times> allocation_row"

definition run_by_id :: "store_db \<Rightarrow> string \<Rightarrow> run_view option" where
  "run_by_id db runID =
     Option.bind (lookup rr_id runID (db_runs db)) (\<lambda>r.
       map_option (Pair r) (lookup ar_run_id runID (db_allocations db)))"

definition runByAllocation :: "store_db \<Rightarrow> string \<Rightarrow> run_view option" where
  "runByAllocation db aid =
     Option.bind (lookup ar_id (trim_space aid) (db_allocations db)) (\<lambda>a.
       map_option (\<lambda>r. (r, a)) (lookup rr_id (ar_run_id a) (db_runs db)))"

definition currentAllocation :: "store_db \<Rightarrow> string \<Rightarrow> (allocation_row \<times> node_row \<times> capability_requirement list) option" where
  "currentAllocation db aid =
     Option.bind (lookup ar_id (trim_space aid) (db_allocations db)) (\<lambda>a.
       map_option (\<lambda>n. (a, n, allocation_requirements db (trim_space aid)))
         (lookup nr_id (ar_node_id a) (db_nodes db)))"

record start_allocation =
  sa_Run :: run_view
  sa_Environment :: environment
  sa_Allocation :: "allocation_row \<times> node_row \<times> capability_requirement list"

definition LoadStartAllocation :: "store_db \<Rightarrow> string \<Rightarrow> store_error + start_allocation" where
  "LoadStartAllocation db aid =
     (case runByAllocation db aid of
        None \<Rightarrow> Inl NotFoundError
      | Some (r, a) \<Rightarrow>
          let env = \<lparr>env_ID = rr_environment_id r, env_Namespace = rr_namespace r,
                     env_Spec = Some (rr_environment_spec r), env_ResolvedSpec = Some (rr_resolved_spec r),
                     env_Labels = []\<rparr>
          in case currentAllocation db aid of
               None \<Rightarrow> Inl NotFoundError
             | Some alloc \<Rightarrow>
                 if \<not> list_ex (\<lambda>n. nr_id n = ar_node_id (fst alloc) \<and> nr_lifecycle_status n = ''active'') (db_nodes db)
                 then Inl (FailedPrecondition ''Node identity is not active'')
                 else Inr \<lparr>sa_Run = (r, a), sa_Environment = env, sa_Allocation = alloc\<rparr>)"

text \<open>The allocations a node's lease covers.\<close>

definition ListNodeExecutionAllocationIDs :: "store_db \<Rightarrow> string \<Rightarrow> string list" where
  "ListNodeExecutionAllocationIDs db nodeID =
     sort_slice (<) (map ar_id (filter (\<lambda>a.
       (case lookup rr_id (ar_run_id a) (db_runs db) of None \<Rightarrow> False | Some r \<Rightarrow> \<not> IsTerminal (rr_status r)) \<and>
       list_ex (\<lambda>n. nr_id n = ar_node_id a \<and> nr_lifecycle_status n = ''active'') (db_nodes db) \<and>
       ar_node_id a = trim_space nodeID \<and> ar_state a \<in> {LS_BOUND, LS_STARTING, LS_ACTIVE}) (db_allocations db)))"

section \<open>Admission\<close>

record admit_params =
  ap_RunID :: string
  ap_AllocationID :: string
  ap_Namespace :: string
  ap_EnvironmentID :: string
  ap_Config :: "execution_config option"
  ap_Labels :: "(string \<times> string) list"
  ap_Candidates :: "candidate list"

definition empty_environment_spec :: environment_spec where
  "empty_environment_spec = \<lparr>es_Namespace = [], es_Image = None\<rparr>"

definition empty_resolved_spec :: resolved_environment_spec where
  "empty_resolved_spec =
     \<lparr>re_RootfsReadonly = False, re_ImageDefaultArgv = [], re_DefaultCwd = [], re_DefaultEnv = [],
      re_Mounts = [], re_ImageDescriptor = None, re_ExecutionProfile = None\<rparr>"

definition admitted_run :: "admit_params \<Rightarrow> execution_config \<Rightarrow> environment \<Rightarrow> gotime \<Rightarrow> run_row" where
  "admitted_run p config env now =
     \<lparr>rr_id = ap_RunID p, rr_namespace = NormalizeNamespace (ap_Namespace p), rr_environment_id = ap_EnvironmentID p,
      rr_status = RUN_PLACED, rr_config = config,
      rr_environment_spec = (case env_Spec env of None \<Rightarrow> empty_environment_spec | Some s \<Rightarrow> s),
      rr_resolved_spec = (case env_ResolvedSpec env of None \<Rightarrow> empty_resolved_spec | Some s \<Rightarrow> s),
      rr_labels = ap_Labels p, rr_version = 1, rr_created_at = now, rr_updated_at = now, rr_exit_code = None,
      rr_diagnostic_code = diagnostic_String DIAG_UNSPECIFIED, rr_message = [],
      rr_snapshot = (if ec_RootfsSnapshot config then snapshot_with SNAP_PENDING []
                     else snapshot_with SNAP_UNSPECIFIED [])\<rparr>"

definition admitted_allocation :: "admit_params \<Rightarrow> execution_config \<Rightarrow> string \<Rightarrow> gotime \<Rightarrow> allocation_row" where
  "admitted_allocation p config nodeID now =
     (let resources = GetRequests (ec_Resources config)
      in freeze_allocation_output_expiry None
           \<lparr>ar_id = ap_AllocationID p, ar_run_id = ap_RunID p, ar_node_id = nodeID, ar_state = LS_BOUND,
            ar_cpu = GetCpuMilli resources, ar_memory = GetMemoryBytes resources,
            ar_ephemeral = GetEphemeralStorageBytes resources,
            ar_created_at = now, ar_updated_at = now, ar_node_active_at = None, ar_output_expires_at = None\<rparr>)"

definition insert_run :: "run_row \<Rightarrow> statement" where
  "insert_run r db =
     (if \<not> run_row_ok r then Inl CheckViolation
      else if lookup rr_id (rr_id r) (db_runs db) \<noteq> None then Inl UniqueViolation
      else Inr (db\<lparr>db_runs := db_runs db @ [r]\<rparr>))"

definition insert_allocation :: "allocation_row \<Rightarrow> statement" where
  "insert_allocation a db =
     (if \<not> allocation_row_ok a then Inl CheckViolation
      else if lookup ar_id (ar_id a) (db_allocations db) \<noteq> None \<or>
              lookup ar_run_id (ar_run_id a) (db_allocations db) \<noteq> None then Inl UniqueViolation
      else Inr (db\<lparr>db_allocations := db_allocations db @ [a]\<rparr>))"

text \<open>\<open>AdmitRun\<close> with the resource admission of the candidates as the argument \<open>admit\<close>:
  it reads the database and returns the node and the requirements resolved on it.\<close>

definition AdmitRun ::
  "(string \<Rightarrow> string) \<Rightarrow> (string \<Rightarrow> string option) \<Rightarrow>
   (candidate list \<Rightarrow> store_db \<Rightarrow> store_error + string \<times> capability_requirement option list) \<Rightarrow>
   admit_params \<Rightarrow> gotime \<Rightarrow> statement" where
  "AdmitRun ul idna admit p now db =
     (if ap_Candidates p = [] then Inl (FailedPrecondition ''no eligible node'')
      else case lookup env_ID (ap_EnvironmentID p) (db_environments db) of
        None \<Rightarrow> Inl NotFoundError
      | Some env \<Rightarrow>
          if env_Namespace env \<noteq> NormalizeNamespace (ap_Namespace p)
          then Inl (InvalidArgument ''run namespace does not own environment'')
          else bind_result (admit (ap_Candidates p) db) (\<lambda>(nodeID, requirements).
            let config = NormalizeConfig ul idna (ap_Config p); run = admitted_run p config env now
            in exec_all
                 [insert_run run,
                  insertRunSecretReferences (rr_id run) (rr_namespace run) config (rr_environment_spec run),
                  insert_allocation (admitted_allocation p config nodeID now),
                  InsertCapabilityRequirements ul (ap_AllocationID p) requirements,
                  ScheduleReconcile \<lparr>sr_AllocationID = ap_AllocationID p, sr_Intent = IntentEnsurePresent,
                    sr_NextRunAt = now, sr_LastReconcileError = [], sr_IncrementAttempts = False\<rparr> now] db))"

section \<open>Termination by the client, the worker and the operator\<close>

definition CancelRun :: "string \<Rightarrow> gotime \<Rightarrow> store_db \<Rightarrow> store_error + store_db \<times> run_view" where
  "CancelRun runID now db =
     (case run_by_id db (trim_space runID) of
        None \<Rightarrow> Inl NotFoundError
      | Some (r, a) \<Rightarrow>
          bind_result
            (if IsTerminal (rr_status r) then Inr db
             else exec_all
               [update_runs (\<lambda>x. rr_id x = rr_id r)
                  (\<lambda>x. x\<lparr>rr_status := RUN_CANCELLED, rr_version := rr_version x + 1, rr_updated_at := now\<rparr>),
                update_allocations (\<lambda>x. ar_id x = ar_id a)
                  (\<lambda>x. x\<lparr>ar_state := LS_RELEASING, ar_updated_at := now\<rparr>),
                RevokeInteractiveAccessGrants (ar_id a),
                RevokeActiveForAllocationsTx [ar_id a] ''run cancelled'' now,
                deleteRunSecretReferences (rr_id r),
                ScheduleReconcile (ScheduleDeleteRequest (ar_id a) now) now] db)
            (\<lambda>db'. case run_by_id db' (trim_space runID) of None \<Rightarrow> Inl RowMissing | Some v \<Rightarrow> Inr (db', v)))"

text \<open>A claimed reschedule that must hold its claim.\<close>

definition reschedule_claimed :: "schedule_request \<Rightarrow> string \<Rightarrow> gotime \<Rightarrow> statement" where
  "reschedule_claimed req owner now db =
     bind_result (ScheduleClaimedReconcile req owner now db)
       (\<lambda>(db', updated). if updated then Inr db' else Inl ReconcileClaimLost)"

definition MarkAllocationCreateFailed ::
  "string \<Rightarrow> string \<Rightarrow> string \<Rightarrow> gotime \<Rightarrow> store_db \<Rightarrow> store_error + store_db \<times> run_view" where
  "MarkAllocationCreateFailed aid owner message now db =
     (if runByAllocation db aid = None then Inl NotFoundError
      else bind_result
        (exec_all
           [RequireReconcileClaim aid owner IntentEnsurePresent now,
            update_allocations (\<lambda>x. ar_id x = aid \<and> ar_state x \<notin> {LS_RELEASING, LS_RELEASED})
              (\<lambda>x. x\<lparr>ar_state := LS_RELEASING, ar_updated_at := now\<rparr>),
            (\<lambda>d. update_runs
              (\<lambda>x. Some (rr_id x) = map_option ar_run_id (lookup ar_id aid (db_allocations d)) \<and> \<not> IsTerminal (rr_status x))
              (\<lambda>x. x\<lparr>rr_status := RUN_FAILED, rr_diagnostic_code := diagnostic_String DIAG_RUNTIME_START_ERROR,
                     rr_message := message, rr_version := rr_version x + 1, rr_updated_at := now\<rparr>) d),
            deleteAllocationRunSecretReferences aid,
            reschedule_claimed \<lparr>sr_AllocationID = aid, sr_Intent = IntentEnsureAbsent, sr_NextRunAt = now,
              sr_LastReconcileError = [], sr_IncrementAttempts = False\<rparr> owner now] db)
        (\<lambda>db'. case runByAllocation db' aid of None \<Rightarrow> Inl RowMissing | Some v \<Rightarrow> Inr (db', v)))"

section \<open>Start completion and release\<close>

definition CompleteAllocationStart ::
  "(string \<Rightarrow> string) \<Rightarrow> (gotime \<Rightarrow> gotime) \<Rightarrow> string \<Rightarrow> string \<Rightarrow> condition_set option \<Rightarrow> gotime \<Rightarrow> statement" where
  "CompleteAllocationStart ul col aid owner conditions now db =
     (if lookup ar_id (trim_space aid) (db_allocations db) = None then Inl NotFoundError
      else exec_all
        [RequireReconcileClaim aid owner IntentEnsurePresent now,
         (if conditions = None then Inr else ReplaceCapabilityConditions ul col aid conditions now),
         delete_claimed aid owner] db)"

definition insert_environment :: "environment \<Rightarrow> statement" where
  "insert_environment e db =
     (if lookup env_ID (env_ID e) (db_environments db) \<noteq> None then Inl UniqueViolation
      else Inr (db\<lparr>db_environments := db_environments db @ [e]\<rparr>))"

text \<open>The environment a snapshot is published as. \<open>sha1_id\<close> is the name-based identifier
  of \<open>uuid.NewSHA1\<close>.\<close>

definition snapshot_environment ::
  "(string \<Rightarrow> string) \<Rightarrow> string \<Rightarrow> run_row \<Rightarrow> snapshot_result \<Rightarrow> environment" where
  "snapshot_environment sha1_id aid r s =
     \<lparr>env_ID = ''env-'' @ sha1_id aid, env_Namespace = rr_namespace r,
      env_Spec = Some \<lparr>es_Namespace = rr_namespace r,
        es_Image = Some \<lparr>is_Ref = srs_ImageRef s, is_RootfsReadonly = False, is_RegistryCredentialID = []\<rparr>\<rparr>,
      env_ResolvedSpec = Some ((rr_resolved_spec r)\<lparr>re_RootfsReadonly := False, re_ImageDescriptor := srs_ImageDescriptor s\<rparr>),
      env_Labels = []\<rparr>"

definition ready_snapshot :: "string \<Rightarrow> snapshot_result \<Rightarrow> rootfs_snapshot_result" where
  "ready_snapshot environmentID s =
     \<lparr>rsr_Status = SNAP_READY, rsr_EnvironmentID = environmentID, rsr_ImageRef = srs_ImageRef s,
      rsr_ImageDescriptor = srs_ImageDescriptor s, rsr_PlatformOS = srs_PlatformOS s, rsr_PlatformArch = srs_PlatformArch s,
      rsr_PlatformVariant = srs_PlatformVariant s, rsr_Message = []\<rparr>"

definition publish_snapshot :: "string \<Rightarrow> rootfs_snapshot_result \<Rightarrow> gotime \<Rightarrow> statement" where
  "publish_snapshot runID s now =
     update_runs (\<lambda>x. rr_id x = runID)
       (\<lambda>x. x\<lparr>rr_snapshot := s, rr_version := rr_version x + 1, rr_updated_at := now\<rparr>)"

definition release_for_acknowledgement :: "string \<Rightarrow> string \<Rightarrow> gotime \<Rightarrow> statement" where
  "release_for_acknowledgement aid owner now db =
     (let p = (\<lambda>q. qr_id q = aid \<and> qr_claim_owner q = trim_space owner)
      in if rows_affected p (db_queue db) \<noteq> 1 then Inl ReconcileClaimLost
         else update_queue p (\<lambda>q. q\<lparr>qr_claim_owner := [], qr_claim_expires_at := None,
                qr_next_run_at := now, qr_updated_at := now\<rparr>) db)"

text \<open>What a release does with the snapshot, and with the queue row afterwards.\<close>

definition release_snapshot ::
  "(string \<Rightarrow> string) \<Rightarrow> string \<Rightarrow> string \<Rightarrow> run_row \<Rightarrow> snapshot_result option \<Rightarrow> gotime \<Rightarrow> statement" where
  "release_snapshot sha1_id aid owner r snapshot now =
     (case snapshot of
        Some s \<Rightarrow>
          exec_all
            [require (FailedPrecondition ''rootfs snapshot result does not match a successful snapshot request'')
               (\<lambda>_. ec_RootfsSnapshot (rr_config r) \<and> rr_status r = RUN_SUCCEEDED),
             require (FailedPrecondition ''rootfs snapshot result is already final'')
               (\<lambda>_. rsr_Status (rr_snapshot r) = SNAP_PENDING),
             require (FailedPrecondition ''rootfs snapshot result is incomplete'')
               (\<lambda>_. trim_space (srs_ImageRef s) \<noteq> [] \<and> srs_ImageDescriptor s \<noteq> None),
             insert_environment (snapshot_environment sha1_id aid r s),
             publish_snapshot (rr_id r) (ready_snapshot (''env-'' @ sha1_id aid) s) now,
             release_for_acknowledgement aid owner now]
      | None \<Rightarrow>
          if ec_RootfsSnapshot (rr_config r) \<and> rr_status r = RUN_SUCCEEDED \<and> rsr_Status (rr_snapshot r) = SNAP_PENDING
          then (\<lambda>_. Inl (FailedPrecondition ''successful rootfs snapshot request has no sealing result''))
          else if ec_RootfsSnapshot (rr_config r) \<and> rr_status r \<noteq> RUN_SUCCEEDED
          then exec_all [publish_snapshot (rr_id r) (snapshot_with SNAP_FAILED ''workload did not succeed'') now,
                         delete_claimed aid owner]
          else delete_claimed aid owner)"

definition CompleteAllocationRelease ::
  "(string \<Rightarrow> string) \<Rightarrow> string \<Rightarrow> string \<Rightarrow> snapshot_result option \<Rightarrow> gotime \<Rightarrow> statement" where
  "CompleteAllocationRelease sha1_id aid0 owner snapshot now db =
     (let aid = trim_space aid0
      in case runByAllocation db aid of
           None \<Rightarrow> Inl NotFoundError
         | Some (r, a) \<Rightarrow>
             exec_all
               [RequireReconcileClaim aid owner IntentEnsureAbsent now,
                require (FailedPrecondition ''allocation cannot be released from its lifecycle state'')
                  (\<lambda>_. ar_state a = LS_RELEASING \<or> ar_state a = LS_RELEASED),
                (if ar_state a = LS_RELEASING
                 then update_allocations (\<lambda>x. ar_id x = aid) (\<lambda>x. x\<lparr>ar_state := LS_RELEASED, ar_updated_at := now\<rparr>)
                 else Inr),
                release_snapshot sha1_id aid owner r snapshot now] db)"

definition CompleteAllocationReleaseAcknowledgement :: "string \<Rightarrow> string \<Rightarrow> gotime \<Rightarrow> statement" where
  "CompleteAllocationReleaseAcknowledgement aid owner now =
     exec_all [RequireReconcileClaim aid owner IntentEnsureAbsent now, delete_claimed aid owner]"

definition MarkRootfsSnapshotFailed :: "string \<Rightarrow> string \<Rightarrow> string \<Rightarrow> gotime \<Rightarrow> statement" where
  "MarkRootfsSnapshotFailed aid owner message now =
     exec_all
       [RequireReconcileClaim aid owner IntentEnsureAbsent now,
        (\<lambda>d. let p = (\<lambda>x. Some (rr_id x) = map_option ar_run_id (lookup ar_id (trim_space aid) (db_allocations d)) \<and>
                          rsr_Status (rr_snapshot x) = SNAP_PENDING)
             in if rows_affected p (db_runs d) \<noteq> 1
                then Inl (FailedPrecondition ''rootfs snapshot result is already final or missing'')
                else update_runs p (\<lambda>x. x\<lparr>rr_snapshot := snapshot_with SNAP_FAILED (trim_space message),
                       rr_version := rr_version x + 1, rr_updated_at := now\<rparr>) d)]"

section \<open>Reports of the node\<close>

record reported_allocation =
  ra_allocationID :: string
  ra_runID :: string
  ra_nodeID :: string
  ra_lifecycleState :: lifecycle_state
  ra_runStatus :: run_status
  ra_exitCode :: "int32 option"
  ra_diagnosticCode :: diagnostic_code
  ra_message :: string

definition observation_id :: "lifecycle_observation option \<Rightarrow> string" where
  "observation_id obs = (case obs of None \<Rightarrow> [] | Some o1 \<Rightarrow> trim_space (obs_AllocationID o1))"

definition allocationIDsFromRunObservations :: "lifecycle_observation option list \<Rightarrow> string list" where
  "allocationIDsFromRunObservations observations =
     sort_slice (<) (remdups (filter (\<lambda>i. i \<noteq> []) (map observation_id observations)))"

definition reported :: "store_db \<Rightarrow> allocation_row \<Rightarrow> reported_allocation option" where
  "reported db a =
     map_option (\<lambda>r. \<lparr>ra_allocationID = ar_id a, ra_runID = ar_run_id a, ra_nodeID = ar_node_id a,
                       ra_lifecycleState = ar_state a, ra_runStatus = rr_status r, ra_exitCode = rr_exit_code r,
                       ra_diagnosticCode = parseWorkloadDiagnosticCode (rr_diagnostic_code r),
                       ra_message = rr_message r\<rparr>)
       (lookup rr_id (ar_run_id a) (db_runs db))"

text \<open>The map of the locked rows; a later entry of the list is hidden by an earlier one.\<close>

definition lockReportedAllocations :: "store_db \<Rightarrow> string list \<Rightarrow> (string \<times> reported_allocation) list" where
  "lockReportedAllocations db ids =
     map (\<lambda>x. (ra_allocationID x, x))
       (present (map (reported db) (filter (\<lambda>a. ar_id a \<in> set ids) (db_allocations db))))"

definition runAllocationObservationMatches ::
  "reported_allocation \<Rightarrow> lifecycle_state \<Rightarrow> run_status \<Rightarrow> lifecycle_observation \<Rightarrow> diagnostic_code \<Rightarrow> string \<Rightarrow> bool" where
  "runAllocationObservationMatches alloc state status obs code message \<longleftrightarrow>
     ra_lifecycleState alloc = state \<and> ra_runStatus alloc = status \<and> ra_exitCode alloc = obs_ExitCode obs \<and>
     ra_diagnosticCode alloc = code \<and> trim_space (ra_message alloc) = message"

definition persisted_state :: "lifecycle_state \<Rightarrow> lifecycle_state" where
  "persisted_state s = (if s = LS_STOPPED then LS_RELEASING else s)"

text \<open>The writes for one accepted observation.\<close>

definition apply_observation ::
  "reported_allocation \<Rightarrow> lifecycle_observation \<Rightarrow> run_status \<Rightarrow> gotime \<Rightarrow> statement" where
  "apply_observation alloc obs status now =
     (let state = persisted_state (obs_State obs); activeAt = NodeActiveObservationTime (Some obs) now
      in exec_all
        ([update_allocations (\<lambda>x. ar_id x = ra_allocationID alloc)
            (\<lambda>x. x\<lparr>ar_state := state, ar_updated_at := now,
                   ar_node_active_at := (if ar_node_active_at x = None \<and> state \<in> {LS_STARTING, LS_ACTIVE}
                                         then Some activeAt else ar_node_active_at x)\<rparr>),
          update_runs (\<lambda>x. rr_id x = ra_runID alloc \<and> \<not> IsTerminal (rr_status x))
            (\<lambda>x. x\<lparr>rr_status := status, rr_exit_code := obs_ExitCode obs,
                   rr_diagnostic_code := diagnostic_String (obs_DiagnosticCode obs),
                   rr_message := trim_space (obs_Message obs), rr_version := rr_version x + 1, rr_updated_at := now\<rparr>)]
         @ (if IsTerminal status
            then [deleteRunSecretReferences (ra_runID alloc),
                  RevokeActiveForAllocationsTx [ra_allocationID alloc] ''run allocation terminated'' now,
                  RevokeInteractiveAccessGrants (ra_allocationID alloc),
                  ScheduleReconcile \<lparr>sr_AllocationID = ra_allocationID alloc, sr_Intent = IntentEnsureAbsent,
                    sr_NextRunAt = now, sr_LastReconcileError = [], sr_IncrementAttempts = False\<rparr> now]
            else [])))"

definition observed_projection :: "reported_allocation \<Rightarrow> lifecycle_observation \<Rightarrow> run_status \<Rightarrow> reported_allocation" where
  "observed_projection alloc obs status =
     alloc\<lparr>ra_lifecycleState := persisted_state (obs_State obs), ra_runStatus := status,
           ra_exitCode := obs_ExitCode obs, ra_diagnosticCode := obs_DiagnosticCode obs,
           ra_message := trim_space (obs_Message obs)\<rparr>"

fun reportLoop ::
  "string \<Rightarrow> gotime \<Rightarrow> (string \<times> reported_allocation) list \<Rightarrow> lifecycle_observation option list \<Rightarrow> statement" where
  "reportLoop nodeID now allocations [] db = Inr db"
| "reportLoop nodeID now allocations (obs # rest) db =
     (case map_of allocations (observation_id obs) of
        None \<Rightarrow> reportLoop nodeID now allocations rest db
      | Some alloc \<Rightarrow>
          if \<not> ValidateObservationBinding (ra_nodeID alloc) nodeID then Inl (ObservationRejected (ra_allocationID alloc))
          else if \<not> AcceptsObservation (ra_lifecycleState alloc) (ra_nodeID alloc) nodeID obs
          then reportLoop nodeID now allocations rest db
          else (case obs of
                  None \<Rightarrow> reportLoop nodeID now allocations rest db
                | Some o1 \<Rightarrow>
                    (let status = RunStatusFromObservation (obs_State o1) (obs_ExitCode o1) (obs_DiagnosticCode o1)
                     in if runAllocationObservationMatches alloc (persisted_state (obs_State o1)) status o1
                             (obs_DiagnosticCode o1) (trim_space (obs_Message o1))
                        then reportLoop nodeID now allocations rest db
                        else bind_result (apply_observation alloc o1 status now db)
                               (reportLoop nodeID now ((ra_allocationID alloc, observed_projection alloc o1 status) # allocations) rest))))"

definition BatchReportAllocationLifecycle ::
  "string \<Rightarrow> lifecycle_observation option list \<Rightarrow> gotime \<Rightarrow> statement" where
  "BatchReportAllocationLifecycle nodeID observations now db =
     reportLoop nodeID now (lockReportedAllocations db (allocationIDsFromRunObservations observations)) observations db"

definition timestamp_of :: "gotime \<Rightarrow> timestamp" where
  "timestamp_of t = \<lparr>ts_seconds = t div second, ts_nanos = t mod second\<rparr>"

text \<open>The report the control plane makes in the node's place.\<close>

definition stopped_report :: "string \<Rightarrow> string \<Rightarrow> gotime \<Rightarrow> lifecycle_observation" where
  "stopped_report aid message now =
     \<lparr>obs_AllocationID = aid, obs_State = LS_STOPPED, obs_ExitCode = None, obs_Message = message,
      obs_ObservedAt = Some (timestamp_of now), obs_Ready = False, obs_ReadinessMessage = [],
      obs_DiagnosticCode = DIAG_RUNTIME_START_ERROR\<rparr>"

definition created_less :: "allocation_row \<Rightarrow> allocation_row \<Rightarrow> bool" where
  "created_less x y \<longleftrightarrow>
     ar_created_at x < ar_created_at y \<or> ar_created_at x = ar_created_at y \<and> ar_id x < ar_id y"

definition activeRunInventoryExpectations :: "store_db \<Rightarrow> string \<Rightarrow> inventory_expectation list" where
  "activeRunInventoryExpectations db nodeID =
     map (\<lambda>a. \<lparr>ie_AllocationID = ar_id a,
               ie_NodeActiveAt = (case ar_node_active_at a of None \<Rightarrow> zero_time | Some t \<Rightarrow> t)\<rparr>)
       (sort_slice created_less
         (filter (\<lambda>a. ar_node_id a = trim_space nodeID \<and> ar_state a \<in> {LS_STARTING, LS_ACTIVE}) (db_allocations db)))"

definition unavailableRunAllocations :: "store_db \<Rightarrow> string \<Rightarrow> string list" where
  "unavailableRunAllocations db nodeID =
     map ar_id (sort_slice created_less
       (filter (\<lambda>a. ar_node_id a = trim_space nodeID \<and> ar_state a \<in> {LS_BOUND, LS_STARTING, LS_ACTIVE}) (db_allocations db)))"

text \<open>One transaction per allocation: those before the first error stay committed.\<close>

fun report_each :: "string \<Rightarrow> string \<Rightarrow> gotime \<Rightarrow> string list \<Rightarrow> store_db \<Rightarrow> store_db \<times> store_error option" where
  "report_each nodeID message now [] db = (db, None)"
| "report_each nodeID message now (aid # rest) db =
     (case BatchReportAllocationLifecycle nodeID [Some (stopped_report aid message now)] now db of
        Inl e \<Rightarrow> (db, Some e)
      | Inr db' \<Rightarrow> report_each nodeID message now rest db')"

definition ReconcileNodeInventory :: "inventory_snapshot \<Rightarrow> gotime \<Rightarrow> store_db \<Rightarrow> store_db \<times> store_error option" where
  "ReconcileNodeInventory snapshot now db =
     (let nodeID = trim_space (is_NodeID snapshot)
      in if nodeID = [] then (db, None)
         else report_each nodeID MissingFromNodeInventoryMessage now
                (map ie_AllocationID (MissingFromNodeInventory snapshot (activeRunInventoryExpectations db nodeID))) db)"

definition ReconcileNodeUnavailable :: "string \<Rightarrow> gotime \<Rightarrow> store_db \<Rightarrow> store_db \<times> store_error option" where
  "ReconcileNodeUnavailable nodeID0 now db =
     (let nodeID = trim_space nodeID0
      in if nodeID = [] then (db, None)
         else report_each nodeID NodeUnavailableMessage now (unavailableRunAllocations db nodeID) db)"

record condition_report =
  cdr_AllocationID :: string
  cdr_ConditionSet :: "condition_set option"

text \<open>A report that names an unknown allocation, or one of another node, is skipped.\<close>

fun conditionReportLoop ::
  "(string \<Rightarrow> string) \<Rightarrow> (gotime \<Rightarrow> gotime) \<Rightarrow> string \<Rightarrow> gotime \<Rightarrow> condition_report list \<Rightarrow> statement" where
  "conditionReportLoop ul col nodeID now [] db = Inr db"
| "conditionReportLoop ul col nodeID now (report # rest) db =
     (let aid = trim_space (cdr_AllocationID report)
      in case lookup ar_id aid (db_allocations db) of
           None \<Rightarrow> conditionReportLoop ul col nodeID now rest db
         | Some a \<Rightarrow>
             if ar_node_id a \<noteq> trim_space nodeID then conditionReportLoop ul col nodeID now rest db
             else bind_result (ReplaceCapabilityConditions ul col aid (cdr_ConditionSet report) now db)
                    (conditionReportLoop ul col nodeID now rest))"

definition BatchReportAllocationCapabilityConditions ::
  "(string \<Rightarrow> string) \<Rightarrow> (gotime \<Rightarrow> gotime) \<Rightarrow> string \<Rightarrow> condition_report list \<Rightarrow> gotime \<Rightarrow> statement" where
  "BatchReportAllocationCapabilityConditions ul col nodeID reports now =
     conditionReportLoop ul col nodeID now
       (sort_slice (\<lambda>x y. trim_space (cdr_AllocationID x) < trim_space (cdr_AllocationID y)) reports)"

section \<open>Access grants\<close>

definition defaultAllocationAccessGrantTTL :: duration where
  "defaultAllocationAccessGrantTTL = 5 * minute"

text \<open>The purpose decides whether the allocation's state admits a grant, and for how long.\<close>

definition grant_ttl ::
  "access_purpose \<Rightarrow> allocation_row \<Rightarrow> duration \<Rightarrow> gotime \<Rightarrow> store_error + duration" where
  "grant_ttl purpose a ttl now =
     (case purpose of
        AP_INTERACTIVE \<Rightarrow>
          if ar_state a \<noteq> LS_ACTIVE then Inl (FailedPrecondition ''allocation is not active'') else Inr ttl
      | AP_RUN_OUTPUT \<Rightarrow>
          if ar_state a = LS_ACTIVE then Inr ttl
          else (case ar_output_expires_at a of
                  None \<Rightarrow> Inl (FailedPrecondition ''allocation output is unavailable or expired'')
                | Some expiry \<Rightarrow>
                    if \<not> now < expiry then Inl (FailedPrecondition ''allocation output is unavailable or expired'')
                    else Inr (if expiry < now + ttl then expiry - now else ttl))
      | _ \<Rightarrow> Inl (InvalidArgument ''allocation access purpose is required''))"

definition insert_grant :: "grant_row \<Rightarrow> statement" where
  "insert_grant g db =
     (if \<not> grant_row_ok g then Inl CheckViolation
      else if lookup gr_id (gr_id g) (db_grants db) \<noteq> None then Inl UniqueViolation
      else Inr (db\<lparr>db_grants := db_grants db @ [g]\<rparr>))"

definition IssueAllocationAccessGrant ::
  "string \<Rightarrow> string \<Rightarrow> string \<Rightarrow> access_purpose \<Rightarrow> duration \<Rightarrow> gotime \<Rightarrow> store_db \<Rightarrow> store_error + store_db \<times> grant_row" where
  "IssueAllocationAccessGrant grantID hash aid purpose ttl0 now db =
     (let ttl1 = (if ttl0 \<le> 0 then defaultAllocationAccessGrantTTL else ttl0)
      in case currentAllocation db aid of
           None \<Rightarrow> Inl NotFoundError
         | Some (alloc, n, _) \<Rightarrow>
             (case lookup ar_id aid (db_allocations db) of
                None \<Rightarrow> Inl RowMissing
              | Some a \<Rightarrow>
                  if nr_lifecycle_status n \<noteq> ''active'' then Inl (FailedPrecondition ''Node identity is not active'')
                  else bind_result (grant_ttl purpose a ttl1 now) (\<lambda>ttl.
                    case NextAccessGrantRevision (ar_node_id alloc) db of
                      (db1, revision) \<Rightarrow>
                        let g = \<lparr>gr_id = grantID, gr_allocation_id = ar_id alloc, gr_node_id = ar_node_id alloc,
                                 gr_purpose = purpose, gr_expires_at = now + ttl, gr_revision = revision,
                                 gr_revoked = False, gr_token_hash = hash, gr_created_at = now\<rparr>
                        in bind_result (insert_grant g db1) (\<lambda>db2. Inr (db2, g)))))"

text \<open>The grants a node's watch delivers after a revision.\<close>

definition loadAllocationAccessGrants :: "store_db \<Rightarrow> string \<Rightarrow> int64 \<Rightarrow> gotime \<Rightarrow> grant_row list \<times> int64" where
  "loadAllocationAccessGrants db nodeID afterRevision now =
     (let current = (case map_of (db_cursors db) nodeID of None \<Rightarrow> 0 | Some v \<Rightarrow> v)
      in (map (\<lambda>g. if grant_IsExpired g now then g\<lparr>gr_revoked := True\<rparr> else g)
            (sort_slice (\<lambda>x y. gr_revision x < gr_revision y \<or> gr_revision x = gr_revision y \<and> gr_id x < gr_id y)
              (filter (\<lambda>g. gr_node_id g = nodeID \<and> afterRevision < gr_revision g \<and> gr_revision g \<le> current) (db_grants db))),
          current))"

section \<open>The operator\<close>

definition insertAdminAuditEvent :: "string \<Rightarrow> string \<Rightarrow> string \<Rightarrow> gotime \<Rightarrow> statement" where
  "insertAdminAuditEvent operation aid reason now db =
     Inr (db\<lparr>db_audit := db_audit db @
       [\<lparr>ae_operation = operation, ae_target_type = ''allocation'', ae_target_id = aid,
         ae_operator_reason = reason, ae_created_at = now\<rparr>]\<rparr>)"

definition live_grant :: "gotime \<Rightarrow> string \<Rightarrow> grant_row \<Rightarrow> bool" where
  "live_grant now aid g \<longleftrightarrow> gr_allocation_id g = aid \<and> \<not> gr_revoked g \<and> now < gr_expires_at g"

definition live_tunnel :: "string \<Rightarrow> tunnel_row \<Rightarrow> bool" where
  "live_tunnel aid t \<longleftrightarrow> tr_allocation_id t = aid \<and> tunnel_live (tr_status t)"

definition lockLifecycleRetry :: "store_db \<Rightarrow> string \<Rightarrow> joined_row option" where
  "lockLifecycleRetry db aid = List.find (\<lambda>x. qr_id (fst x) = trim_space aid \<and> trim_space aid \<noteq> []) (join_queue db)"

text \<open>The clearance shown with a queue entry.\<close>

definition retry_clearance :: "store_db \<Rightarrow> gotime \<Rightarrow> joined_row \<Rightarrow> clearance" where
  "retry_clearance db now x =
     (case x of (q, a, r, n) \<Rightarrow>
        EvaluateLifecycleRetryClearance
          \<lparr>ci_AllocationID = qr_id q, ci_AllocationState = lifecycle_String (ar_state a),
           ci_RunStatus = run_status_String (rr_status r),
           ci_HasActiveAccessGrant = list_ex (live_grant now (qr_id q)) (db_grants db),
           ci_HasActiveTunnelSession = list_ex (live_tunnel (qr_id q)) (db_tunnels db)\<rparr>)"

definition ForceAllocationLifecycleRetry ::
  "force_retry_request \<Rightarrow> gotime \<Rightarrow> store_db \<Rightarrow> store_error + store_db \<times> joined_row" where
  "ForceAllocationLifecycleRetry req0 now db =
     (let req = NormalizeForceLifecycleRetryRequest req0; aid = frr_AllocationID req
      in case ValidateForceLifecycleRetryRequest req of
           Some e \<Rightarrow> Inl (RetryRequestInvalid e)
         | None \<Rightarrow>
             let runAt = (if is_zero_time (frr_RequestedRunAt req) then now else frr_RequestedRunAt req)
             in bind_result
                  (exec_all
                     [require NotFoundError (\<lambda>d. lockLifecycleRetry d aid \<noteq> None),
                      insertAdminAuditEvent ''force_allocation_lifecycle_retry'' aid (frr_OperatorReason req) now,
                      update_queue (\<lambda>q. qr_id q = aid)
                        (\<lambda>q. q\<lparr>qr_next_run_at := runAt, qr_updated_at := now, qr_claim_owner := [], qr_claim_expires_at := None\<rparr>)] db)
                  (\<lambda>db'. case lockLifecycleRetry db' aid of None \<Rightarrow> Inl NotFoundError | Some x \<Rightarrow> Inr (db', x)))"

definition failRunLifecycleRetry :: "string \<Rightarrow> string \<Rightarrow> string \<Rightarrow> gotime \<Rightarrow> statement" where
  "failRunLifecycleRetry aid runID message now =
     exec_all
       [update_allocations (\<lambda>x. ar_id x = aid \<and> ar_run_id x = runID)
          (\<lambda>x. x\<lparr>ar_state := LS_RELEASING, ar_updated_at := now\<rparr>),
        (\<lambda>d. let p = (\<lambda>x. rr_id x = runID \<and> \<not> IsTerminal (rr_status x))
             in if rows_affected p (db_runs d) = 0
                then Inl (FailedPrecondition ''the run is already terminal'')
                else update_runs p (\<lambda>x. x\<lparr>rr_status := RUN_FAILED,
                       rr_diagnostic_code := diagnostic_String DIAG_RUNTIME_START_ERROR, rr_message := trim_space message,
                       rr_version := rr_version x + 1, rr_updated_at := now\<rparr>) d),
        RevokeInteractiveAccessGrants aid,
        RevokeActiveForAllocationsTx [aid] ''admin failed run allocation lifecycle retry'' now,
        update_queue (\<lambda>q. qr_id q = aid)
          (\<lambda>q. q\<lparr>qr_attempts := 0, qr_next_run_at := now, qr_last_error := [], qr_claim_owner := [],
                qr_claim_expires_at := None, qr_updated_at := now\<rparr>)]"

definition FailAllocationLifecycleRetry ::
  "operator_request \<Rightarrow> gotime \<Rightarrow> store_db \<Rightarrow> store_error + store_db \<times> joined_row" where
  "FailAllocationLifecycleRetry req0 now db =
     (let req = NormalizeFailLifecycleRetryRequest req0; aid = opr_AllocationID req
      in case ValidateFailLifecycleRetryRequest req of
           Some e \<Rightarrow> Inl (RetryRequestInvalid e)
         | None \<Rightarrow>
             (case lockLifecycleRetry db aid of
                None \<Rightarrow> Inl NotFoundError
              | Some (q, a, r, n) \<Rightarrow>
                  if ReconcileIntentForLifecycle (ar_state a) \<noteq> IntentEnsurePresent
                  then Inl (FailedPrecondition ''allocation delete retries cannot be abandoned before cleanup succeeds'')
                  else if IsCleanupState (ar_state a)
                  then Inl (FailedPrecondition ''allocation lifecycle retry is already terminal'')
                  else bind_result
                    (exec_all
                       [insertAdminAuditEvent ''fail_allocation_lifecycle_retry'' aid (opr_OperatorReason req) now,
                        failRunLifecycleRetry (qr_id q) (ar_run_id a) (opr_OperatorReason req) now] db)
                    (\<lambda>db'. case lockLifecycleRetry db' aid of None \<Rightarrow> Inl NotFoundError | Some x \<Rightarrow> Inr (db', x))))"

definition ClearAllocationLifecycleRetry ::
  "operator_request \<Rightarrow> gotime \<Rightarrow> store_db \<Rightarrow> store_error + store_db \<times> joined_row" where
  "ClearAllocationLifecycleRetry req0 now db =
     (let req = NormalizeClearLifecycleRetryRequest req0; aid = opr_AllocationID req
      in case ValidateClearLifecycleRetryRequest req of
           Some e \<Rightarrow> Inl (RetryRequestInvalid e)
         | None \<Rightarrow>
             (case lockLifecycleRetry db aid of
                None \<Rightarrow> Inl NotFoundError
              | Some (q, a, r, n) \<Rightarrow>
                  if ar_state a \<noteq> LS_RELEASED
                  then Inl (FailedPrecondition ''the allocation is not released'')
                  else if list_ex (live_grant now aid) (db_grants db)
                  then Inl (FailedPrecondition ''active allocation access grants'')
                  else if list_ex (live_tunnel aid) (db_tunnels db)
                  then Inl (FailedPrecondition ''active tunnel sessions'')
                  else if (case lookup rr_id (trim_space (ar_run_id a)) (db_runs db) of
                             None \<Rightarrow> False | Some owner \<Rightarrow> \<not> IsTerminal (rr_status owner))
                  then Inl (FailedPrecondition ''the run is not terminal'')
                  else bind_result
                    (exec_all
                       [insertAdminAuditEvent ''clear_allocation_lifecycle_retry'' aid (opr_OperatorReason req) now,
                        delete_queue (\<lambda>x. qr_id x = aid)] db)
                    (\<lambda>db'. Inr (db', (q, a, r, n)))))"

section \<open>Retention\<close>

definition retention_candidate :: "store_db \<Rightarrow> gotime \<Rightarrow> gotime \<Rightarrow> run_row \<Rightarrow> bool" where
  "retention_candidate db cutoff now r \<longleftrightarrow>
     (case lookup ar_run_id (rr_id r) (db_allocations db) of
        None \<Rightarrow> False
      | Some a \<Rightarrow>
          rr_updated_at r < cutoff \<and> ar_state a = LS_RELEASED \<and>
          (case ar_output_expires_at a of None \<Rightarrow> True | Some t \<Rightarrow> t \<le> now) \<and>
          IsTerminal (rr_status r) \<and>
          \<not> list_ex (\<lambda>q. qr_id q = ar_id a) (db_queue db) \<and>
          \<not> list_ex (\<lambda>g. gr_allocation_id g = ar_id a \<and> \<not> gr_revoked g \<and> now \<le> gr_expires_at g) (db_grants db) \<and>
          \<not> list_ex (live_tunnel (ar_id a)) (db_tunnels db))"

definition candidateTerminalRuns :: "store_db \<Rightarrow> gotime \<Rightarrow> gotime \<Rightarrow> int \<Rightarrow> string list" where
  "candidateTerminalRuns db cutoff now batchSize =
     take (nat batchSize) (map rr_id
       (sort_slice (\<lambda>x y. rr_updated_at x < rr_updated_at y \<or> rr_updated_at x = rr_updated_at y \<and> rr_id x < rr_id y)
         (filter (retention_candidate db cutoff now) (db_runs db))))"

text \<open>\<open>DELETE FROM runs\<close> with its cascades.\<close>

definition delete_runs :: "string list \<Rightarrow> store_db \<Rightarrow> store_db" where
  "delete_runs ids db =
     (let aids = map ar_id (filter (\<lambda>a. ar_run_id a \<in> set ids) (db_allocations db));
          sids = map tr_id (filter (\<lambda>t. tr_allocation_id t \<in> set aids) (db_tunnels db))
      in db\<lparr>db_runs := delete_where (\<lambda>r. rr_id r \<in> set ids) (db_runs db),
           db_allocations := delete_where (\<lambda>a. ar_run_id a \<in> set ids) (db_allocations db),
           db_queue := delete_where (\<lambda>q. qr_id q \<in> set aids) (db_queue db),
           db_grants := delete_where (\<lambda>g. gr_allocation_id g \<in> set aids) (db_grants db),
           db_tunnels := delete_where (\<lambda>t. tr_allocation_id t \<in> set aids) (db_tunnels db),
           db_tunnel_events := delete_where (\<lambda>e. te_session_id e \<in> set sids) (db_tunnel_events db),
           db_secret_references := delete_where (\<lambda>x. sref_run_id x \<in> set ids) (db_secret_references db),
           db_requirements := delete_where (\<lambda>x. qq_allocation_id x \<in> set aids) (db_requirements db),
           db_conditions := delete_where (\<lambda>x. co_allocation_id x \<in> set aids) (db_conditions db)\<rparr>)"

definition deleteTerminalRuns :: "gotime \<Rightarrow> gotime \<Rightarrow> int \<Rightarrow> store_db \<Rightarrow> store_db" where
  "deleteTerminalRuns cutoff now batchSize db = delete_runs (candidateTerminalRuns db cutoff now batchSize) db"

definition deleteExpiredAccessGrants :: "gotime \<Rightarrow> gotime \<Rightarrow> int \<Rightarrow> store_db \<Rightarrow> store_db" where
  "deleteExpiredAccessGrants cutoff now batchSize db =
     (let ids = take (nat batchSize) (map gr_id
            (sort_slice (\<lambda>x y. gr_created_at x < gr_created_at y \<or> gr_created_at x = gr_created_at y \<and> gr_id x < gr_id y)
              (filter (\<lambda>g. gr_created_at g < cutoff \<and> (gr_revoked g \<or> gr_expires_at g < now)) (db_grants db))))
      in db\<lparr>db_grants := delete_where (\<lambda>g. gr_id g \<in> set ids) (db_grants db)\<rparr>)"

section \<open>Consistency\<close>

datatype consistency_issue = ActiveAccessGrantOnEnded string string | ActiveTunnelOnEnded string string

definition ended :: "store_db \<Rightarrow> string \<Rightarrow> allocation_row option" where
  "ended db aid =
     (case lookup ar_id aid (db_allocations db) of
        None \<Rightarrow> None | Some a \<Rightarrow> if ar_state a \<in> {LS_RELEASING, LS_RELEASED} then Some a else None)"

text \<open>The rows of the two issue queries, without their order and limit.\<close>

definition activeAccessGrantIssues :: "store_db \<Rightarrow> gotime \<Rightarrow> consistency_issue list" where
  "activeAccessGrantIssues db now =
     map (\<lambda>g. ActiveAccessGrantOnEnded (gr_id g) (gr_allocation_id g))
       (filter (\<lambda>g. \<not> gr_revoked g \<and> now < gr_expires_at g \<and>
          (case ended db (gr_allocation_id g) of
             None \<Rightarrow> False
           | Some a \<Rightarrow> \<not> (gr_purpose g = AP_RUN_OUTPUT \<and>
               (case ar_output_expires_at a of None \<Rightarrow> False | Some t \<Rightarrow> now < t \<and> gr_expires_at g \<le> t)))) (db_grants db))"

definition activeTunnelIssues :: "store_db \<Rightarrow> consistency_issue list" where
  "activeTunnelIssues db =
     map (\<lambda>t. ActiveTunnelOnEnded (tr_id t) (tr_allocation_id t))
       (filter (\<lambda>t. tunnel_live (tr_status t) \<and> ended db (tr_allocation_id t) \<noteq> None) (db_tunnels db))"

definition consistency_Snapshot :: "store_db \<Rightarrow> gotime \<Rightarrow> consistency_issue list" where
  "consistency_Snapshot db now = activeAccessGrantIssues db now @ activeTunnelIssues db"

end
