(* ===== verification/Run_Lifecycle.thy ===== *)
theory Run_Lifecycle
  imports Run_Store
begin

text \<open>
  The lifecycle of a run and its allocation as a small machine, and the proof that every
  transaction of the run store is a move of that machine.

  A state of the machine is what clients rely on: the allocation's lifecycle state, the
  outcome of the run, whether cleanup work is queued and the frozen output expiry.
  \<open>lc_step\<close> lists its moves.  \<open>lifecycle_at\<close> reads the machine's state off the tables.
  The lemmas about single statements say which allocation a statement touches; those about
  transactions combine them and show that the transaction moves only its own allocation, and
  only along \<open>lc_step\<close>.
\<close>

section \<open>The lifecycle machine\<close>

record lifecycle =
  lc_state :: lifecycle_state
  lc_status :: run_status
  lc_exit :: "int32 option"
  lc_code :: string
  lc_message :: string
  lc_node :: string
  lc_queued :: bool
  lc_expiry :: "gotime option"

definition live_state :: "lifecycle_state \<Rightarrow> bool" where
  "live_state s \<longleftrightarrow> s = LS_BOUND \<or> s = LS_STARTING \<or> s = LS_ACTIVE"

definition lc_ok :: "lifecycle \<Rightarrow> bool" where
  "lc_ok l \<longleftrightarrow>
     (live_state (lc_state l) \<or> IsCleanupState (lc_state l)) \<and>
     (IsTerminal (lc_status l) \<longleftrightarrow> IsCleanupState (lc_state l)) \<and>
     (lc_state l = LS_RELEASING \<longrightarrow> lc_queued l) \<and>
     (lc_expiry l \<noteq> None \<longleftrightarrow> IsCleanupState (lc_state l))"

text \<open>The moves: progress reported by the node, the end of the run by report,
  cancellation, failed start or operator, the release of the allocation, and queue entries
  that are done with.\<close>

inductive lc_step :: "lifecycle option \<Rightarrow> lifecycle option \<Rightarrow> bool" where
  lc_admit: "lc_state l = LS_BOUND \<Longrightarrow> lc_status l = RUN_PLACED \<Longrightarrow> lc_exit l = None \<Longrightarrow> lc_queued l \<Longrightarrow>
     lc_expiry l = None \<Longrightarrow> lc_step None (Some l)"
| lc_progress: "live_state (lc_state l) \<Longrightarrow> s = LS_STARTING \<or> s = LS_ACTIVE \<Longrightarrow>
     lifecycle_rank (lc_state l) \<le> lifecycle_rank s \<Longrightarrow>
     lc_step (Some l) (Some (l\<lparr>lc_state := s, lc_status := RunStatusFromObservation s e d, lc_exit := x,
       lc_code := c, lc_message := m\<rparr>))"
| lc_terminate: "live_state (lc_state l) \<Longrightarrow> IsTerminal status \<Longrightarrow>
     lc_step (Some l) (Some (l\<lparr>lc_state := LS_RELEASING, lc_status := status, lc_exit := x, lc_code := c,
       lc_message := m, lc_queued := True, lc_expiry := Some t\<rparr>))"
| lc_release: "lc_state l = LS_RELEASING \<Longrightarrow> lc_step (Some l) (Some (l\<lparr>lc_state := LS_RELEASED, lc_queued := q\<rparr>))"
| lc_dequeue: "lc_state l \<noteq> LS_RELEASING \<Longrightarrow> lc_step (Some l) (Some (l\<lparr>lc_queued := False\<rparr>))"
| lc_forget: "lc_state l = LS_RELEASED \<Longrightarrow> \<not> lc_queued l \<Longrightarrow> lc_step (Some l) None"

inductive_cases lc_step_SomeE: "lc_step (Some l) l'"

lemma IsTerminal_simps [simp]:
  "\<not> IsTerminal RUN_PLACED" "IsTerminal RUN_CANCELLED" "IsTerminal RUN_FAILED" "IsTerminal RUN_SUCCEEDED"
  by (simp_all add: IsTerminal_def)

lemma lc_step_ok:
  assumes "lc_step l l'" and "pred_option lc_ok l"
  shows "pred_option lc_ok l'"
  using assms
  by cases (auto simp: lc_ok_def live_state_def IsCleanupState_def RunStatusFromObservation_terminal)

text \<open>What a move keeps: the order of the lifecycle, the node, and after the end of the
  run its outcome and the output expiry.\<close>

definition lc_follows :: "lifecycle \<Rightarrow> lifecycle \<Rightarrow> bool" where
  "lc_follows l l' \<longleftrightarrow>
     lifecycle_rank (lc_state l) \<le> lifecycle_rank (lc_state l') \<and> lc_node l' = lc_node l \<and>
     (IsTerminal (lc_status l) \<longrightarrow>
        lc_status l' = lc_status l \<and> lc_exit l' = lc_exit l \<and> lc_code l' = lc_code l \<and>
        lc_message l' = lc_message l \<and> lc_expiry l' = lc_expiry l)"

lemma lc_follows_refl [simp]: "lc_follows l l"
  by (simp add: lc_follows_def)

lemma lc_follows_trans: "lc_follows a b \<Longrightarrow> lc_follows b c \<Longrightarrow> lc_follows a c"
  unfolding lc_follows_def by (elim conjE, intro conjI impI) simp_all

lemma lc_ok_live: "lc_ok l \<Longrightarrow> live_state (lc_state l) \<longleftrightarrow> \<not> IsTerminal (lc_status l)"
  by (auto simp: lc_ok_def live_state_def IsCleanupState_def)

lemma live_rank: "live_state s \<Longrightarrow> lifecycle_rank s \<le> 3"
  by (auto simp: live_state_def)

lemma lc_step_follows:
  assumes "lc_step (Some l) (Some l')" "lc_ok l"
  shows "lc_follows l l'"
  using assms(1)
proof cases
  case (lc_terminate status x c m t)
  then show ?thesis
    using live_rank [of "lc_state l"] lc_ok_live [OF assms(2)] by (simp add: lc_follows_def)
qed (use lc_ok_live [OF assms(2)] in \<open>simp_all add: lc_follows_def\<close>)

section \<open>Reading the tables\<close>

definition run_at :: "store_db \<Rightarrow> string \<Rightarrow> run_row option" where
  "run_at db k = lookup rr_id k (db_runs db)"

definition alloc_at :: "store_db \<Rightarrow> string \<Rightarrow> allocation_row option" where
  "alloc_at db k = lookup ar_id k (db_allocations db)"

definition queue_at :: "store_db \<Rightarrow> string \<Rightarrow> queue_row option" where
  "queue_at db k = lookup qr_id k (db_queue db)"

definition lifecycle_view :: "allocation_row \<Rightarrow> run_row \<Rightarrow> queue_row option \<Rightarrow> lifecycle" where
  "lifecycle_view a r q =
     \<lparr>lc_state = ar_state a, lc_status = rr_status r, lc_exit = rr_exit_code r, lc_code = rr_diagnostic_code r,
      lc_message = rr_message r, lc_node = ar_node_id a, lc_queued = (q \<noteq> None), lc_expiry = ar_output_expires_at a\<rparr>"

definition lifecycle_at :: "store_db \<Rightarrow> string \<Rightarrow> lifecycle option" where
  "lifecycle_at db k =
     (case alloc_at db k of
        None \<Rightarrow> None
      | Some a \<Rightarrow> (case run_at db (ar_run_id a) of
                     None \<Rightarrow> None | Some r \<Rightarrow> Some (lifecycle_view a r (queue_at db k))))"

definition rows_ok :: "store_db \<Rightarrow> bool" where
  "rows_ok db \<longleftrightarrow>
     (\<forall>r\<in>set (db_runs db). run_row_ok r) \<and> (\<forall>a\<in>set (db_allocations db). allocation_row_ok a) \<and>
     (\<forall>q\<in>set (db_queue db). queue_row_ok q)"

text \<open>Keys are unique, references resolve and identifiers have no surrounding space.\<close>

definition store_wf :: "store_db \<Rightarrow> bool" where
  "store_wf db \<longleftrightarrow>
     distinct (map rr_id (db_runs db)) \<and> distinct (map ar_id (db_allocations db)) \<and>
     distinct (map ar_run_id (db_allocations db)) \<and> distinct (map qr_id (db_queue db)) \<and>
     (\<forall>a\<in>set (db_allocations db). run_at db (ar_run_id a) \<noteq> None) \<and>
     (\<forall>q\<in>set (db_queue db). alloc_at db (qr_id q) \<noteq> None) \<and>
     (\<forall>a\<in>set (db_allocations db). trim_space (ar_id a) = ar_id a \<and> trim_space (ar_run_id a) = ar_run_id a) \<and>
     rows_ok db"

definition store_ok :: "store_db \<Rightarrow> bool" where
  "store_ok db \<longleftrightarrow> store_wf db \<and> (\<forall>k. pred_option lc_ok (lifecycle_at db k))"

lemma alloc_atD: "alloc_at db k = Some a \<Longrightarrow> a \<in> set (db_allocations db) \<and> ar_id a = k"
  unfolding alloc_at_def by (rule lookup_SomeD)

lemma run_atD: "run_at db k = Some r \<Longrightarrow> r \<in> set (db_runs db) \<and> rr_id r = k"
  unfolding run_at_def by (rule lookup_SomeD)

lemma queue_atD: "queue_at db k = Some q \<Longrightarrow> q \<in> set (db_queue db) \<and> qr_id q = k"
  unfolding queue_at_def by (rule lookup_SomeD)

lemma store_wf_alloc:
  assumes "store_wf db" "a \<in> set (db_allocations db)"
  shows "alloc_at db (ar_id a) = Some a" "trim_space (ar_id a) = ar_id a"
    "trim_space (ar_run_id a) = ar_run_id a" "run_at db (ar_run_id a) \<noteq> None"
  using assms lookup_distinct [of ar_id "db_allocations db" a] by (auto simp: store_wf_def alloc_at_def)

lemma store_wf_queue: "store_wf db \<Longrightarrow> q \<in> set (db_queue db) \<Longrightarrow> alloc_at db (qr_id q) \<noteq> None"
  by (simp add: store_wf_def)

lemma store_wf_same_run:
  assumes "store_wf db" "alloc_at db k = Some a" "alloc_at db k' = Some a'" "ar_run_id a = ar_run_id a'"
  shows "k = k'"
proof -
  have "a = a'"
    using assms by (auto simp: store_wf_def distinct_map dest!: alloc_atD dest: inj_onD)
  then show ?thesis using assms(2,3) by (auto dest!: alloc_atD)
qed

lemma store_ok_lc: "store_ok db \<Longrightarrow> lifecycle_at db k = Some l \<Longrightarrow> lc_ok l"
  unfolding store_ok_def by (metis option.pred_inject(2))

lemma same_core_at:
  assumes "same_core db db'"
  shows "run_at db' = run_at db" "alloc_at db' = alloc_at db" "queue_at db' = queue_at db"
    "rows_ok db' \<longleftrightarrow> rows_ok db" "store_wf db' \<longleftrightarrow> store_wf db" "lifecycle_at db' = lifecycle_at db"
proof -
  show at: "run_at db' = run_at db" "alloc_at db' = alloc_at db" "queue_at db' = queue_at db"
    and rows: "rows_ok db' \<longleftrightarrow> rows_ok db"
    using assms by (simp_all add: same_core_def run_at_def alloc_at_def queue_at_def rows_ok_def fun_eq_iff)
  show "store_wf db' \<longleftrightarrow> store_wf db"
    using assms by (simp add: store_wf_def at rows) (simp add: same_core_def)
  show "lifecycle_at db' = lifecycle_at db"
    by (rule ext) (simp only: lifecycle_at_def at)
qed

section \<open>Statements that touch one allocation\<close>

text \<open>Only the rows of one run, its allocation and its queue entry change; keys stay, and
  rows that satisfied their constraints still do.\<close>

definition local_change :: "string \<Rightarrow> string \<Rightarrow> store_db \<Rightarrow> store_db \<Rightarrow> bool" where
  "local_change aid rid db db' \<longleftrightarrow>
     map rr_id (db_runs db') = map rr_id (db_runs db) \<and>
     map (\<lambda>a. (ar_id a, ar_run_id a, ar_node_id a)) (db_allocations db') =
       map (\<lambda>a. (ar_id a, ar_run_id a, ar_node_id a)) (db_allocations db) \<and>
     (distinct (map qr_id (db_queue db)) \<longrightarrow> distinct (map qr_id (db_queue db'))) \<and>
     (\<forall>k. k \<noteq> rid \<longrightarrow> run_at db' k = run_at db k) \<and>
     (\<forall>k. k \<noteq> aid \<longrightarrow> alloc_at db' k = alloc_at db k) \<and>
     (\<forall>k. k \<noteq> aid \<longrightarrow> queue_at db' k = queue_at db k) \<and>
     (rows_ok db \<longrightarrow> rows_ok db')"

definition touches :: "string \<Rightarrow> string \<Rightarrow> statement \<Rightarrow> bool" where
  "touches aid rid s \<longleftrightarrow> (\<forall>db db'. s db = Inr db' \<longrightarrow> local_change aid rid db db')"

lemma local_change_refl [simp]: "local_change aid rid db db"
  by (auto simp: local_change_def)

lemma local_change_trans:
  assumes "local_change aid rid a b" "local_change aid rid b c"
  shows "local_change aid rid a c"
  using assms unfolding local_change_def by metis

lemma touches_core: "(\<And>db db'. s db = Inr db' \<Longrightarrow> same_core db db') \<Longrightarrow> touches aid rid s"
  unfolding touches_def
proof (intro allI impI)
  fix db db'
  assume "\<And>db db'. s db = Inr db' \<Longrightarrow> same_core db db'" "s db = Inr db'"
  then have core: "same_core db db'" by blast
  then show "local_change aid rid db db'"
    unfolding local_change_def same_core_at [OF core] by (auto simp: same_core_def)
qed

lemma touches_exec_all: "(\<And>s. s \<in> set ss \<Longrightarrow> touches aid rid s) \<Longrightarrow> touches aid rid (exec_all ss)"
proof (induction ss)
  case (Cons s ss)
  then have "touches aid rid s" "touches aid rid (exec_all ss)" by auto
  then show ?case unfolding touches_def exec_all.simps bind_result_Inr_iff
    by (blast intro: local_change_trans)
qed (simp add: touches_def)

lemma touches_Inr [simp]: "touches aid rid Inr"
  by (simp add: touches_def)

lemma touches_require [simp]: "touches aid rid (require e p)"
  by (simp add: touches_def store_simps)

lemma touches_update_runs:
  assumes "\<And>x. p x \<Longrightarrow> rr_id x = rid" "\<And>x. rr_id (f x) = rr_id x"
  shows "touches aid rid (update_runs p f)"
proof -
  have "run_at (db\<lparr>db_runs := update_where p f (db_runs db)\<rparr>) k = run_at db k" if "k \<noteq> rid" for db k
    using that assms by (auto simp: run_at_def lookup_update_where dest!: lookup_SomeD split: option.splits
        intro!: option.map_ident_strong)
  then show ?thesis
    using assms unfolding touches_def local_change_def
    by (auto simp: store_simps map_update_where alloc_at_def queue_at_def rows_ok_def set_update_where)
qed

lemma touches_update_allocations:
  assumes "\<And>x. p x \<Longrightarrow> ar_id x = aid" "\<And>x. ar_id (f x) = ar_id x" "\<And>x. ar_run_id (f x) = ar_run_id x"
    "\<And>x. ar_node_id (f x) = ar_node_id x"
  shows "touches aid rid (update_allocations p f)"
proof -
  let ?g = "\<lambda>a. freeze_allocation_output_expiry (Some a) (f a)"
  have "alloc_at (db\<lparr>db_allocations := update_where p ?g (db_allocations db)\<rparr>) k = alloc_at db k"
    if "k \<noteq> aid" for db k
    using that assms by (auto simp: alloc_at_def lookup_update_where dest!: lookup_SomeD split: option.splits
        intro!: option.map_ident_strong)
  then show ?thesis
    using assms unfolding touches_def local_change_def
    by (auto simp: store_simps map_update_where run_at_def queue_at_def rows_ok_def set_update_where)
qed

lemma touches_update_queue:
  assumes "\<And>x. p x \<Longrightarrow> qr_id x = aid" "\<And>x. qr_id (f x) = qr_id x"
  shows "touches aid rid (update_queue p f)"
proof -
  have "queue_at (db\<lparr>db_queue := update_where p f (db_queue db)\<rparr>) k = queue_at db k" if "k \<noteq> aid" for db k
    using that assms by (auto simp: queue_at_def lookup_update_where dest!: lookup_SomeD split: option.splits
        intro!: option.map_ident_strong)
  then show ?thesis
    using assms unfolding touches_def local_change_def
    by (auto simp: store_simps map_update_where run_at_def alloc_at_def rows_ok_def set_update_where)
qed

lemma lookup_delete_other: "(\<And>x. p x \<Longrightarrow> key x \<noteq> k) \<Longrightarrow> lookup key k (delete_where p rows) = lookup key k rows"
  by (induction rows) (auto simp: delete_where_def)

lemma touches_delete_queue:
  assumes "\<And>x. p x \<Longrightarrow> qr_id x = aid"
  shows "touches aid rid (delete_queue p)"
proof -
  have "queue_at (db\<lparr>db_queue := delete_where p (db_queue db)\<rparr>) k = queue_at db k"
    if "k \<noteq> aid" for db k
    using that assms by (auto simp: queue_at_def lookup_delete_other)
  then show ?thesis
    unfolding touches_def local_change_def
    by (auto simp: store_simps run_at_def alloc_at_def rows_ok_def distinct_map_delete_where)
qed

lemma lookup_delete_same: "distinct (map key rows) \<Longrightarrow> lookup key k (delete_where (\<lambda>x. key x = k \<and> p x) rows) =
    (case lookup key k rows of None \<Rightarrow> None | Some r \<Rightarrow> if p r then None else Some r)"
  by (subst lookup_delete_where) (auto split: option.splits dest!: lookup_SomeD)

text \<open>The queue statements.\<close>

lemma touches_ScheduleReconcile:
  assumes "trim_space (sr_AllocationID req) = aid"
  shows "touches aid rid (ScheduleReconcile req now)"
  unfolding touches_def
proof (intro allI impI)
  fix db db'
  assume run: "ScheduleReconcile req now db = Inr db'"
  let ?next = "if is_zero_time (sr_NextRunAt req) then now else sr_NextRunAt req"
  show "local_change aid rid db db'"
  proof (cases "lookup qr_id aid (db_queue db)")
    case None
    then have "db' = db\<lparr>db_queue := db_queue db @ [schedule_insert req ?next now]\<rparr>"
      using run assms by (auto simp: ScheduleReconcile_def Let_def split: if_splits)
    with None assms show ?thesis
      unfolding local_change_def
      by (auto simp: run_at_def alloc_at_def queue_at_def lookup_append rows_ok_def
          schedule_insert_def queue_row_ok_def lookup_None_iff [symmetric] split: option.splits)
  next
    case (Some q)
    then have "update_queue (\<lambda>q. qr_id q = aid) (schedule_update req ?next now) db = Inr db'"
      using run assms by (auto simp: ScheduleReconcile_def Let_def split: if_splits)
    moreover have "touches aid rid (update_queue (\<lambda>q. qr_id q = aid) (schedule_update req ?next now))"
      by (rule touches_update_queue) (auto simp: schedule_update_def Let_def)
    ultimately show ?thesis by (simp add: touches_def)
  qed
qed

lemma touches_ScheduleClaimedReconcile:
  assumes "ScheduleClaimedReconcile req owner now db = Inr (db', b)" "trim_space (sr_AllocationID req) = aid"
  shows "local_change aid rid db db'"
proof -
  let ?next = "if is_zero_time (sr_NextRunAt req) then now else sr_NextRunAt req"
  let ?p = "\<lambda>q. qr_id q = trim_space (sr_AllocationID req) \<and> claim_held (trim_space owner) now q \<and>
              allocation_accepts (sr_Intent req) (qr_id q) db"
  have "touches aid rid (update_queue ?p (\<lambda>q. q\<lparr>qr_next_run_at := ?next,
      qr_attempts := (if sr_IncrementAttempts req then qr_attempts q + 1 else qr_attempts q),
      qr_last_error := trim_space (sr_LastReconcileError req),
      qr_claim_owner := [], qr_claim_expires_at := None, qr_updated_at := now\<rparr>))"
    using assms(2) by (intro touches_update_queue) auto
  with assms(1) show ?thesis
    by (auto simp: ScheduleClaimedReconcile_def Let_def touches_def)
qed

lemma touches_reschedule_claimed:
  "trim_space (sr_AllocationID req) = aid \<Longrightarrow> touches aid rid (reschedule_claimed req owner now)"
  unfolding touches_def reschedule_claimed_def
  by (auto split: if_splits intro: touches_ScheduleClaimedReconcile)

lemma touches_delete_claimed: "trim_space aid' = aid \<Longrightarrow> touches aid rid (delete_claimed aid' owner)"
  using touches_delete_queue [of "\<lambda>q. qr_id q = trim_space aid' \<and> qr_claim_owner q = trim_space owner" aid rid]
  by (auto simp: touches_def delete_claimed_def Let_def split: if_splits)

lemma touches_release_for_acknowledgement: "touches aid rid (release_for_acknowledgement aid owner now)"
  using touches_update_queue [of "\<lambda>q. qr_id q = aid \<and> qr_claim_owner q = trim_space owner" aid
      "\<lambda>q. q\<lparr>qr_claim_owner := [], qr_claim_expires_at := None, qr_next_run_at := now, qr_updated_at := now\<rparr>" rid]
  by (auto simp: touches_def release_for_acknowledgement_def Let_def split: if_splits)

section \<open>What a statement leaves at a key\<close>

lemma update_runs_at:
  assumes "update_runs p f db = Inr db'" "\<And>x. rr_id (f x) = rr_id x"
  shows "run_at db' k = map_option (\<lambda>r. if p r then f r else r) (run_at db k)"
    "alloc_at db' = alloc_at db" "queue_at db' = queue_at db"
  using assms by (auto simp: store_simps run_at_def alloc_at_def queue_at_def lookup_update_where fun_eq_iff)

lemma update_allocations_at:
  assumes "update_allocations p f db = Inr db'" "\<And>x. ar_id (f x) = ar_id x"
  shows "alloc_at db' k = map_option (\<lambda>a. if p a then freeze_allocation_output_expiry (Some a) (f a) else a) (alloc_at db k)"
    "run_at db' = run_at db" "queue_at db' = queue_at db"
  using assms by (auto simp: store_simps run_at_def alloc_at_def queue_at_def lookup_update_where fun_eq_iff)

lemma update_queue_at:
  assumes "update_queue p f db = Inr db'" "\<And>x. qr_id (f x) = qr_id x"
  shows "queue_at db' k = map_option (\<lambda>q. if p q then f q else q) (queue_at db k)"
    "run_at db' = run_at db" "alloc_at db' = alloc_at db"
  using assms by (auto simp: store_simps run_at_def alloc_at_def queue_at_def lookup_update_where fun_eq_iff)

lemma allocation_accepts_at:
  "allocation_accepts intent k db \<longleftrightarrow> (\<exists>a. alloc_at db k = Some a \<and> intent_accepts intent (ar_state a))"
  by (auto simp: allocation_accepts_def alloc_at_def split: option.splits)

lemma holds_claim_at:
  "holds_claim aid owner intent now db \<longleftrightarrow>
     (\<exists>q a. queue_at db (trim_space aid) = Some q \<and> claim_held (trim_space owner) now q \<and>
            alloc_at db (trim_space aid) = Some a \<and> intent_accepts intent (ar_state a))"
  by (auto simp: holds_claim_def queue_at_def allocation_accepts_at split: option.splits)

lemma ScheduleReconcile_at:
  assumes "ScheduleReconcile req now db = Inr db'" "trim_space (sr_AllocationID req) = aid"
  shows "queue_at db' aid \<noteq> None" "run_at db' = run_at db" "alloc_at db' = alloc_at db"
proof -
  let ?next = "if is_zero_time (sr_NextRunAt req) then now else sr_NextRunAt req"
  consider "db' = db\<lparr>db_queue := db_queue db @ [schedule_insert req ?next now]\<rparr>"
    | "queue_at db aid \<noteq> None" "update_queue (\<lambda>q. qr_id q = aid) (schedule_update req ?next now) db = Inr db'"
    using assms by (auto simp: ScheduleReconcile_def Let_def queue_at_def split: if_splits)
  then have "queue_at db' aid \<noteq> None \<and> run_at db' = run_at db \<and> alloc_at db' = alloc_at db"
  proof cases
    case 1
    then show ?thesis
      using assms(2) by (auto simp: queue_at_def run_at_def alloc_at_def fun_eq_iff lookup_append schedule_insert_def
          split: option.splits)
  next
    case 2
    then show ?thesis
      using update_queue_at [OF 2(2)] by (simp add: schedule_update_def Let_def)
  qed
  then show "queue_at db' aid \<noteq> None" "run_at db' = run_at db" "alloc_at db' = alloc_at db" by auto
qed

lemma rows_affected_one:
  assumes "distinct (map key rows)" "rows_affected (\<lambda>r. key r = k \<and> p r) rows = 1"
  shows "\<exists>r. lookup key k rows = Some r \<and> p r"
  using assms by (auto simp: rows_affected_key of_bool_def split: option.splits if_splits)

lemma update_queue_frame:
  assumes "update_queue p f db = Inr db'" "\<And>x. qr_id (f x) = qr_id x"
  shows "run_at db' = run_at db \<and> alloc_at db' = alloc_at db \<and> (\<forall>k. queue_at db' k = None \<longleftrightarrow> queue_at db k = None)"
  using update_queue_at [OF assms] by simp

lemma ScheduleClaimedReconcile_at:
  assumes "ScheduleClaimedReconcile req owner now db = Inr (db', b)"
  shows "run_at db' = run_at db" "alloc_at db' = alloc_at db" "queue_at db' k = None \<longleftrightarrow> queue_at db k = None"
  using assms by (auto simp: ScheduleClaimedReconcile_def Let_def dest!: update_queue_frame)

lemma reschedule_claimed_at:
  assumes "reschedule_claimed req owner now db = Inr db'"
  shows "run_at db' = run_at db" "alloc_at db' = alloc_at db" "queue_at db' k = None \<longleftrightarrow> queue_at db k = None"
  using assms ScheduleClaimedReconcile_at by (auto simp: reschedule_claimed_def split: if_splits)

lemma delete_claimed_at:
  assumes "delete_claimed aid owner db = Inr db'" "distinct (map qr_id (db_queue db))"
  shows "queue_at db' (trim_space aid) = None" "run_at db' = run_at db" "alloc_at db' = alloc_at db"
proof -
  let ?p = "\<lambda>q. qr_claim_owner q = trim_space owner"
  from assms(1) have one: "rows_affected (\<lambda>q. qr_id q = trim_space aid \<and> ?p q) (db_queue db) = 1"
    and db': "db' = db\<lparr>db_queue := delete_where (\<lambda>q. qr_id q = trim_space aid \<and> ?p q) (db_queue db)\<rparr>"
    by (auto simp: delete_claimed_def Let_def store_simps split: if_splits)
  show "queue_at db' (trim_space aid) = None"
    using rows_affected_one [OF assms(2) one] lookup_delete_same [OF assms(2), of "trim_space aid" ?p]
    by (auto simp: db' queue_at_def)
  show "run_at db' = run_at db" "alloc_at db' = alloc_at db"
    by (auto simp: db' run_at_def alloc_at_def)
qed

lemma release_for_acknowledgement_at:
  assumes "release_for_acknowledgement aid owner now db = Inr db'"
  shows "run_at db' = run_at db" "alloc_at db' = alloc_at db" "queue_at db' k = None \<longleftrightarrow> queue_at db k = None"
  using assms by (auto simp: release_for_acknowledgement_def Let_def dest!: update_queue_frame split: if_splits)

lemma touches_core_statements [simp]:
  "touches aid rid (RevokeInteractiveAccessGrants x)"
  "touches aid rid (RevokeActiveForAllocationsTx xs reason now)"
  "touches aid rid (deleteRunSecretReferences x)"
  "touches aid rid (deleteAllocationRunSecretReferences x)"
  "touches aid rid (insertAdminAuditEvent x y z now)"
  "touches aid rid (insert_environment e)"
  "touches aid rid (ReplaceCapabilityConditions ul col x cset now)"
  by (rule touches_core; auto dest: core_statements simp: insertAdminAuditEvent_def insert_environment_def
      same_core_def split: if_splits)+

lemmas touches_intros =
  touches_exec_all touches_update_runs touches_update_allocations touches_update_queue touches_delete_queue
  touches_ScheduleReconcile touches_reschedule_claimed touches_delete_claimed touches_release_for_acknowledgement

section \<open>Transactions as moves of the machine\<close>

text \<open>A move of an allocation that exists.\<close>

definition lc_move :: "lifecycle option \<Rightarrow> lifecycle option \<Rightarrow> bool" where
  "lc_move l l' \<longleftrightarrow> lc_step l l' \<and> l \<noteq> None"

definition refines :: "store_db \<Rightarrow> store_db \<Rightarrow> bool" where
  "refines db db' \<longleftrightarrow> store_wf db' \<and> (\<forall>k. lc_move\<^sup>*\<^sup>* (lifecycle_at db k) (lifecycle_at db' k))"

text \<open>Admission adds one allocation and leaves the others where they are.\<close>

definition admits :: "string \<Rightarrow> store_db \<Rightarrow> store_db \<Rightarrow> bool" where
  "admits aid db db' \<longleftrightarrow>
     store_wf db' \<and> lifecycle_at db aid = None \<and> lc_step None (lifecycle_at db' aid) \<and>
     (\<forall>k. k \<noteq> aid \<longrightarrow> lifecycle_at db' k = lifecycle_at db k)"

lemma lc_steps_ok: "lc_step\<^sup>*\<^sup>* l l' \<Longrightarrow> pred_option lc_ok l \<Longrightarrow> pred_option lc_ok l'"
  by (induction rule: rtranclp_induct) (auto intro: lc_step_ok)

lemma lc_moves_steps: "lc_move\<^sup>*\<^sup>* l l' \<Longrightarrow> lc_step\<^sup>*\<^sup>* l l'"
  by (erule rtranclp_mono [THEN predicate2D, rotated]) (auto simp: lc_move_def)

lemma refines_ok: "store_ok db \<Longrightarrow> refines db db' \<Longrightarrow> store_ok db'"
  unfolding store_ok_def refines_def using lc_steps_ok lc_moves_steps by blast

lemma refines_trans: "refines a b \<Longrightarrow> refines b c \<Longrightarrow> refines a c"
  unfolding refines_def by (meson rtranclp_trans)

lemma refines_same: "store_wf db' \<Longrightarrow> (\<And>k. lifecycle_at db' k = lifecycle_at db k) \<Longrightarrow> refines db db'"
  by (simp add: refines_def)

lemma refines_refl: "store_ok db \<Longrightarrow> refines db db"
  by (simp add: refines_same store_ok_def)

lemma refines_core: "store_ok db \<Longrightarrow> same_core db db' \<Longrightarrow> refines db db'"
  using same_core_at [of db db'] by (auto simp: refines_def store_ok_def)

lemma local_change_wf:
  assumes wf: "store_wf db" and change: "local_change aid rid db db'" and aid: "alloc_at db aid \<noteq> None"
  shows "store_wf db'"
proof -
  have runs: "map rr_id (db_runs db') = map rr_id (db_runs db)" and
    allocs: "map (\<lambda>a. (ar_id a, ar_run_id a, ar_node_id a)) (db_allocations db') =
      map (\<lambda>a. (ar_id a, ar_run_id a, ar_node_id a)) (db_allocations db)"
    using change by (auto simp: local_change_def)
  have ids: "map ar_id (db_allocations db') = map ar_id (db_allocations db)"
    using arg_cong [OF allocs, of "map fst"] by (simp add: comp_def)
  have rids: "map ar_run_id (db_allocations db') = map ar_run_id (db_allocations db)"
    using arg_cong [OF allocs, of "map (fst \<circ> snd)"] by (simp add: comp_def)
  have run_ex: "run_at db' k = None \<longleftrightarrow> run_at db k = None" for k
    using arg_cong [OF runs, of set] by (simp add: run_at_def lookup_None_iff)
  have alloc_ex: "alloc_at db' k = None \<longleftrightarrow> alloc_at db k = None" for k
    using arg_cong [OF ids, of set] by (simp add: alloc_at_def lookup_None_iff)
  have sets: "ar_id ` set (db_allocations db') = ar_id ` set (db_allocations db)"
    "ar_run_id ` set (db_allocations db') = ar_run_id ` set (db_allocations db)"
    using arg_cong [OF ids, of set] arg_cong [OF rids, of set] by simp_all
  have "alloc_at db' (qr_id q) \<noteq> None" if q: "q \<in> set (db_queue db')" for q
  proof (cases "qr_id q = aid")
    case False
    have "queue_at db' (qr_id q) \<noteq> None" using q by (auto simp: queue_at_def lookup_None_iff)
    with False change have "queue_at db (qr_id q) \<noteq> None" by (simp add: local_change_def)
    then obtain q' where "q' \<in> set (db_queue db)" "qr_id q' = qr_id q" by (auto dest: queue_atD)
    with store_wf_queue [OF wf, of q'] show ?thesis by (simp add: alloc_ex)
  next
    case True
    then show ?thesis using aid by (simp add: alloc_ex)
  qed
  moreover have "trim_space (ar_id a) = ar_id a \<and> trim_space (ar_run_id a) = ar_run_id a \<and> run_at db' (ar_run_id a) \<noteq> None"
    if "a \<in> set (db_allocations db')" for a
  proof -
    have "ar_id a \<in> ar_id ` set (db_allocations db)" "ar_run_id a \<in> ar_run_id ` set (db_allocations db)"
      unfolding sets [symmetric] using that by simp_all
    then obtain b c where bc: "b \<in> set (db_allocations db)" "ar_id a = ar_id b"
      "c \<in> set (db_allocations db)" "ar_run_id a = ar_run_id c" by blast
    show ?thesis
      using store_wf_alloc(2) [OF wf bc(1)] store_wf_alloc(3,4) [OF wf bc(3)] by (simp add: bc(2,4) run_ex)
  qed
  moreover have "distinct (map qr_id (db_queue db'))" "rows_ok db'"
    using wf change by (simp_all add: store_wf_def local_change_def)
  ultimately show ?thesis
    using wf unfolding store_wf_def runs ids rids by (elim conjE, intro conjI ballI) simp_all
qed

lemma lifecycle_at_Some:
  "alloc_at db k = Some a \<Longrightarrow> run_at db (ar_run_id a) = Some r \<Longrightarrow>
   lifecycle_at db k = Some (lifecycle_view a r (queue_at db k))"
  by (simp add: lifecycle_at_def)

lemma local_refines:
  assumes ok: "store_ok db" and change: "local_change aid rid db db'"
    and old: "alloc_at db aid = Some a" "ar_run_id a = rid" "run_at db rid = Some r"
    and new: "alloc_at db' aid = Some a'" "ar_run_id a' = rid" "run_at db' rid = Some r'"
    and move: "lc_step\<^sup>=\<^sup>= (Some (lifecycle_view a r (queue_at db aid))) (Some (lifecycle_view a' r' (queue_at db' aid)))"
  shows "refines db db'"
  unfolding refines_def
proof (intro conjI allI)
  have wf: "store_wf db" using ok by (simp add: store_ok_def)
  then show "store_wf db'" by (rule local_change_wf [OF _ change]) (simp add: old)
  fix k
  show "lc_move\<^sup>*\<^sup>* (lifecycle_at db k) (lifecycle_at db' k)"
  proof (cases "k = aid")
    case True
    then show ?thesis using old new move by (auto simp: lifecycle_at_Some lc_move_def)
  next
    case False
    have "run_at db' (ar_run_id b) = run_at db (ar_run_id b)" if "alloc_at db k = Some b" for b
      using store_wf_same_run [OF wf that old(1)] old(2) False change by (auto simp: local_change_def)
    with False change have "lifecycle_at db' k = lifecycle_at db k"
      by (auto simp: lifecycle_at_def local_change_def split: option.splits)
    then show ?thesis by simp
  qed
qed

text \<open>The pair of rows behind an allocation.\<close>

lemma run_by_id_at:
  assumes "store_wf db" "run_by_id db k = Some (r, a)"
  shows "run_at db k = Some r" "rr_id r = k" "alloc_at db (ar_id a) = Some a" "ar_run_id a = k" "trim_space (ar_id a) = ar_id a"
proof -
  from assms(2) have r: "lookup rr_id k (db_runs db) = Some r" and a: "lookup ar_run_id k (db_allocations db) = Some a"
    by (auto simp: run_by_id_def split: option.splits Option.bind_splits)
  from lookup_SomeD [OF a] show "alloc_at db (ar_id a) = Some a" "ar_run_id a = k" "trim_space (ar_id a) = ar_id a"
    using store_wf_alloc [OF assms(1)] by auto
  from r lookup_SomeD [OF r] show "run_at db k = Some r" "rr_id r = k" by (auto simp: run_at_def)
qed

lemma runByAllocation_at:
  "runByAllocation db aid = Some (r, a) \<longleftrightarrow>
     alloc_at db (trim_space aid) = Some a \<and> run_at db (ar_run_id a) = Some r"
  by (auto simp: runByAllocation_def alloc_at_def run_at_def split: Option.bind_splits)

lemma same_core_chain:
  assumes "same_core d1 d2"
  shows "run_at d2 = run_at d1" "alloc_at d2 = alloc_at d1" "queue_at d2 = queue_at d1"
  by (rule same_core_at [OF assms])+

text \<open>Ending a run: what the tables hold afterwards decides the move.\<close>

lemma terminate_move:
  assumes ok: "lc_ok (lifecycle_view a r q)" and live: "live_state (ar_state a)"
    and new: "ar_state a' = LS_RELEASING" "IsTerminal (rr_status r')" "ar_node_id a' = ar_node_id a"
      "ar_output_expires_at a' \<noteq> None" "q' \<noteq> None"
  shows "lc_step\<^sup>=\<^sup>= (Some (lifecycle_view a r q)) (Some (lifecycle_view a' r' q'))"
proof -
  obtain t where t: "ar_output_expires_at a' = Some t" using new(4) by auto
  have "lifecycle_view a' r' q' = (lifecycle_view a r q)
      \<lparr>lc_state := LS_RELEASING, lc_status := rr_status r', lc_exit := rr_exit_code r', lc_code := rr_diagnostic_code r',
       lc_message := rr_message r', lc_queued := True, lc_expiry := Some t\<rparr>"
    using new t by (simp add: lifecycle_view_def)
  moreover have "lc_step (Some (lifecycle_view a r q)) (Some ((lifecycle_view a r q)
      \<lparr>lc_state := LS_RELEASING, lc_status := rr_status r', lc_exit := rr_exit_code r', lc_code := rr_diagnostic_code r',
       lc_message := rr_message r', lc_queued := True, lc_expiry := Some t\<rparr>))"
    using live new(2) by (intro lc_terminate) (simp_all add: lifecycle_view_def)
  ultimately show ?thesis by simp
qed

lemma freeze_releasing_expiry: "ar_state x \<in> {LS_RELEASING, LS_RELEASED} \<Longrightarrow>
    ar_output_expires_at (freeze_allocation_output_expiry old x) \<noteq> None"
  by (auto simp: freeze_allocation_output_expiry_def split: option.splits)

lemma terminate_refines:
  assumes ok: "store_ok db" and change: "local_change aid (ar_run_id a) db db'"
    and old: "alloc_at db aid = Some a" "run_at db (ar_run_id a) = Some r" "\<not> IsTerminal (rr_status r)"
    and new: "alloc_at db' aid = Some (freeze_allocation_output_expiry (Some a) a')" "run_at db' (ar_run_id a) = Some r'"
      "queue_at db' aid \<noteq> None"
    and fields: "ar_state a' = LS_RELEASING" "IsTerminal (rr_status r')" "ar_node_id a' = ar_node_id a" "ar_run_id a' = ar_run_id a"
  shows "refines db db'"
proof (rule local_refines [OF ok change old(1) refl old(2) new(1) _ new(2)])
  have lc: "lc_ok (lifecycle_view a r (queue_at db aid))"
    using store_ok_lc [OF ok] lifecycle_at_Some [OF old(1,2)] by simp
  then have "live_state (ar_state a)" using lc_ok_live [OF lc] old(3) by (simp add: lifecycle_view_def)
  then show "lc_step\<^sup>=\<^sup>= (Some (lifecycle_view a r (queue_at db aid)))
      (Some (lifecycle_view (freeze_allocation_output_expiry (Some a) a') r' (queue_at db' aid)))"
    using fields new(3) by (intro terminate_move [OF lc]) (auto simp: freeze_releasing_expiry)
qed (simp add: fields)

end
