(* ===== verification/Run_Refinement.thy ===== *)
theory Run_Refinement
  imports Run_Lifecycle
begin

text \<open>
  The proof that every transaction of the run store is a move of the lifecycle machine of
  \<open>Run_Lifecycle\<close>: each lemma \<open>..._refines\<close> takes a store that satisfies the
  invariant and a successful transaction, and shows that the new store is well-formed and that
  every allocation made at most moves of the machine.
\<close>

section \<open>Changes that move nothing\<close>

lemma update_queue_wf:
  assumes "store_wf db" "update_queue p f db = Inr db'" "\<And>x. qr_id (f x) = qr_id x"
  shows "store_wf db'"
  using assms update_queue_at [OF assms(2,3)] unfolding store_wf_def rows_ok_def
  by (auto simp: store_simps map_update_where set_update_where)

lemma update_queue_refines:
  assumes ok: "store_ok db" and run: "update_queue p f db = Inr db'" and ids: "\<And>x. qr_id (f x) = qr_id x"
  shows "refines db db'"
proof (rule refines_same)
  note frame = update_queue_at [OF run ids]
  show "store_wf db'" using ok update_queue_wf [OF _ run ids] by (simp add: store_ok_def)
  show "lifecycle_at db' k = lifecycle_at db k" for k
    by (auto simp: lifecycle_at_def lifecycle_view_def frame split: option.splits)
qed

lemma RenewReconcileClaim_refines:
  "store_ok db \<Longrightarrow> RenewReconcileClaim aid owner intent now ttl db = Inr (db', held) \<Longrightarrow> refines db db'"
  by (auto simp: RenewReconcileClaim_def Let_def elim!: update_queue_refines split: if_splits)

lemma ScheduleClaimedReconcile_refines:
  "store_ok db \<Longrightarrow> ScheduleClaimedReconcile req owner now db = Inr (db', b) \<Longrightarrow> refines db db'"
  by (auto simp: ScheduleClaimedReconcile_def Let_def elim!: update_queue_refines)

lemma ClaimDueReconcileItems_refines:
  "store_ok db \<Longrightarrow> ClaimDueReconcileItems owner limit now ttl db = (db', items) \<Longrightarrow> refines db db'"
  by (auto simp: ClaimDueReconcileItems_def Let_def refines_refl elim!: update_queue_refines
      split: if_splits sum.splits)

lemma insertAdminAuditEvent_core: "insertAdminAuditEvent op aid reason now db = Inr db' \<Longrightarrow> same_core db db'"
  by (auto simp: insertAdminAuditEvent_def same_core_def)

lemma ForceAllocationLifecycleRetry_refines:
  assumes ok: "store_ok db" and run: "ForceAllocationLifecycleRetry req now db = Inr (db', x)"
  shows "refines db db'"
proof -
  from run obtain d aid runAt where core: "same_core db d" and
    upd: "update_queue (\<lambda>q. qr_id q = aid)
      (\<lambda>q. q\<lparr>qr_next_run_at := runAt, qr_updated_at := now, qr_claim_owner := [], qr_claim_expires_at := None\<rparr>) d = Inr db'"
    by (auto simp: ForceAllocationLifecycleRetry_def Let_def store_simps dest!: insertAdminAuditEvent_core
        split: option.splits)
  have "refines db d" by (rule refines_core [OF ok core])
  moreover from this ok have "store_ok d" by (rule refines_ok [rotated])
  then have "refines d db'" by (rule update_queue_refines [OF _ upd]) simp
  ultimately show ?thesis by (rule refines_trans)
qed

section \<open>The end of a run\<close>

lemma local_change_core: "same_core db db' \<Longrightarrow> local_change aid rid db db'"
  unfolding local_change_def by (simp add: same_core_at) (simp add: same_core_def)

lemma CancelRun_refines:
  assumes ok: "store_ok db" and run: "CancelRun runID now db = Inr (db', v)"
  shows "refines db db'"
proof -
  have wf: "store_wf db" using ok by (simp add: store_ok_def)
  obtain r a where view: "run_by_id db (trim_space runID) = Some (r, a)"
    using run by (auto simp: CancelRun_def split: option.splits)
  note at = run_by_id_at [OF wf view]
  show ?thesis
  proof (cases "IsTerminal (rr_status r)")
    case True
    then have "db' = db" using run view by (auto simp: CancelRun_def split: option.splits)
    then show ?thesis using ok by (simp add: refines_refl)
  next
    case False
    let ?ss = "[update_runs (\<lambda>x. rr_id x = rr_id r)
                  (\<lambda>x. x\<lparr>rr_status := RUN_CANCELLED, rr_version := rr_version x + 1, rr_updated_at := now\<rparr>),
                update_allocations (\<lambda>x. ar_id x = ar_id a)
                  (\<lambda>x. x\<lparr>ar_state := LS_RELEASING, ar_updated_at := now\<rparr>),
                RevokeInteractiveAccessGrants (ar_id a),
                RevokeActiveForAllocationsTx [ar_id a] ''run cancelled'' now,
                deleteRunSecretReferences (rr_id r),
                ScheduleReconcile (ScheduleDeleteRequest (ar_id a) now) now]"
    have exec: "exec_all ?ss db = Inr db'"
      using run view False by (auto simp: CancelRun_def split: option.splits)
    have "touches (ar_id a) (ar_run_id a) (exec_all ?ss)"
      by (rule touches_exec_all) (auto intro!: touches_intros simp: ScheduleDeleteRequest_def at)
    with exec have change: "local_change (ar_id a) (ar_run_id a) db db'" by (simp add: touches_def)
    from exec obtain d1 d2 d3 d4 d5 where
      u1: "update_runs (\<lambda>x. rr_id x = rr_id r)
        (\<lambda>x. x\<lparr>rr_status := RUN_CANCELLED, rr_version := rr_version x + 1, rr_updated_at := now\<rparr>) db = Inr d1" and
      u2: "update_allocations (\<lambda>x. ar_id x = ar_id a) (\<lambda>x. x\<lparr>ar_state := LS_RELEASING, ar_updated_at := now\<rparr>) d1 = Inr d2" and
      c: "same_core d2 d3" "same_core d3 d4" "same_core d4 d5" and
      u6: "ScheduleReconcile (ScheduleDeleteRequest (ar_id a) now) now d5 = Inr db'"
      by (auto dest!: core_statements)
    show ?thesis
      by (rule terminate_refines [OF ok change, where r = r and a' = "a\<lparr>ar_state := LS_RELEASING, ar_updated_at := now\<rparr>"
            and r' = "r\<lparr>rr_status := RUN_CANCELLED, rr_version := rr_version r + 1, rr_updated_at := now\<rparr>"])
        (use False update_runs_at [OF u1] update_allocations_at [OF u2] same_core_chain [OF c(1)]
          same_core_chain [OF c(2)] same_core_chain [OF c(3)] ScheduleReconcile_at [OF u6, of "ar_id a"]
         in \<open>auto simp: at ScheduleDeleteRequest_def\<close>)
  qed
qed

text \<open>A live claim with the intent to start shows that the run has not ended.\<close>

lemma present_claim_live:
  assumes ok: "store_ok db" and claim: "holds_claim aid owner IntentEnsurePresent now db"
  obtains a r where "alloc_at db (trim_space aid) = Some a" "run_at db (ar_run_id a) = Some r"
    "live_state (ar_state a)" "\<not> IsTerminal (rr_status r)" "ar_id a = trim_space aid"
proof -
  from claim obtain a where a: "alloc_at db (trim_space aid) = Some a" and live: "live_state (ar_state a)"
    by (auto simp: holds_claim_at intent_accepts_def live_state_def)
  have "store_wf db" using ok by (simp add: store_ok_def)
  with alloc_atD [OF a] obtain r where r: "run_at db (ar_run_id a) = Some r"
    using store_wf_alloc(4) [of db a] by auto
  have "lc_ok (lifecycle_view a r (queue_at db (trim_space aid)))"
    using store_ok_lc [OF ok] lifecycle_at_Some [OF a r] by simp
  from lc_ok_live [OF this] live have "\<not> IsTerminal (rr_status r)" by (simp add: lifecycle_view_def)
  with a r live alloc_atD [OF a] that show thesis by blast
qed

lemma reschedule_claimed_accepts:
  assumes "reschedule_claimed req owner now db = Inr db'"
  shows "\<exists>a. alloc_at db (trim_space (sr_AllocationID req)) = Some a \<and> intent_accepts (sr_Intent req) (ar_state a)"
    "queue_at db (trim_space (sr_AllocationID req)) \<noteq> None"
proof -
  let ?aid = "trim_space (sr_AllocationID req)"
  let ?p = "\<lambda>q. qr_id q = ?aid \<and> claim_held (trim_space owner) now q \<and> allocation_accepts (sr_Intent req) (qr_id q) db"
  from assms have "rows_affected ?p (db_queue db) = 1"
    by (auto simp: reschedule_claimed_def ScheduleClaimedReconcile_def Let_def split: if_splits)
  then have "filter ?p (db_queue db) \<noteq> []" by (auto simp: rows_affected_def)
  then obtain q where q: "q \<in> set (db_queue db)" "qr_id q = ?aid" "allocation_accepts (sr_Intent req) ?aid db"
    by (auto simp: filter_empty_conv)
  from q(3) show "\<exists>a. alloc_at db ?aid = Some a \<and> intent_accepts (sr_Intent req) (ar_state a)"
    by (simp add: allocation_accepts_at)
  have "qr_id q \<in> qr_id ` set (db_queue db)" using q(1) by simp
  then show "queue_at db ?aid \<noteq> None" unfolding q(2) queue_at_def lookup_None_iff by blast
qed

lemma MarkAllocationCreateFailed_refines:
  assumes ok: "store_ok db" and run: "MarkAllocationCreateFailed aid owner message now db = Inr (db', v)"
  shows "refines db db'"
proof -
  have wf: "store_wf db" using ok by (simp add: store_ok_def)
  let ?p = "\<lambda>d x. Some (rr_id x) = map_option ar_run_id (lookup ar_id aid (db_allocations d)) \<and> \<not> IsTerminal (rr_status x)"
  let ?fr = "\<lambda>x. x\<lparr>rr_status := RUN_FAILED, rr_diagnostic_code := diagnostic_String DIAG_RUNTIME_START_ERROR,
                     rr_message := message, rr_version := rr_version x + 1, rr_updated_at := now\<rparr>"
  let ?fa = "\<lambda>x. x\<lparr>ar_state := LS_RELEASING, ar_updated_at := now\<rparr>"
  let ?req = "\<lparr>sr_AllocationID = aid, sr_Intent = IntentEnsureAbsent, sr_NextRunAt = now,
              sr_LastReconcileError = [], sr_IncrementAttempts = False\<rparr>"
  from run obtain d1 d2 d3 where claim: "holds_claim aid owner IntentEnsurePresent now db" and
    u1: "update_allocations (\<lambda>x. ar_id x = aid \<and> ar_state x \<notin> {LS_RELEASING, LS_RELEASED}) ?fa db = Inr d1" and
    u2: "update_runs (?p d1) ?fr d1 = Inr d2" and
    core: "same_core d2 d3" and u4: "reschedule_claimed ?req owner now d3 = Inr db'"
    by (auto simp: MarkAllocationCreateFailed_def RequireReconcileClaim_def require_Inr
        dest!: core_statements split: if_splits option.splits)
  from present_claim_live [OF ok claim] obtain a r where
    a: "alloc_at db (trim_space aid) = Some a" and r: "run_at db (ar_run_id a) = Some r" and
    live: "live_state (ar_state a)" "\<not> IsTerminal (rr_status r)" and id: "ar_id a = trim_space aid" by blast
  note e1 = update_allocations_at [OF u1] and e2 = update_runs_at [OF u2] and e3 = same_core_chain [OF core]
    and e4 = reschedule_claimed_at [OF u4]
  have trim: "trim_space aid = aid"
  proof (rule ccontr)
    assume untrimmed: "trim_space aid \<noteq> aid"
    with e1(1) [of "trim_space aid"] a id have "alloc_at d1 (trim_space aid) = Some a" by simp
    with e2(2) e3(2) have "alloc_at d3 (trim_space aid) = Some a" by simp
    with reschedule_claimed_accepts(1) [OF u4] live(1) show False
      by (auto simp: intent_accepts_def live_state_def)
  qed
  have rid: "rr_id r = ar_run_id a" using run_atD [OF r] by simp
  have d1: "lookup ar_id aid (db_allocations d1) = Some (freeze_allocation_output_expiry (Some a) (?fa a))"
    using e1(1) [of aid] a id trim live(1) by (auto simp: alloc_at_def live_state_def)
  have s1: "local_change aid (ar_run_id a) db d1"
    using touches_update_allocations [of "\<lambda>x. ar_id x = aid \<and> ar_state x \<notin> {LS_RELEASING, LS_RELEASED}" aid ?fa] u1
    by (simp add: touches_def)
  have s2: "local_change aid (ar_run_id a) d1 d2"
    using touches_update_runs [of "?p d1" "ar_run_id a" ?fr] u2 d1 by (simp add: touches_def)
  have s3: "local_change aid (ar_run_id a) d2 d3"
    by (rule local_change_core [OF core])
  have s4: "local_change aid (ar_run_id a) d3 db'"
    using touches_reschedule_claimed [of ?req aid] u4 trim by (simp add: touches_def)
  have change: "local_change aid (ar_run_id a) db db'"
    by (rule local_change_trans [OF s1 local_change_trans [OF s2 local_change_trans [OF s3 s4]]])
  show ?thesis
  proof (rule terminate_refines [OF ok change, where r = r and a' = "?fa a" and r' = "?fr r"])
    show "alloc_at db' aid = Some (freeze_allocation_output_expiry (Some a) (?fa a))"
      using d1 e2(2) e3(2) e4(2) by (simp add: alloc_at_def)
    show "run_at db' (ar_run_id a) = Some (?fr r)"
      using e2(1) [of "ar_run_id a"] e1(2) e3(1) e4(1) d1 r rid live(2) by simp
    show "queue_at db' aid \<noteq> None"
      using reschedule_claimed_accepts(2) [OF u4] e4(3) [of aid] trim by simp
  qed (use a r live trim in simp_all)
qed

lemma failRunLifecycleRetry_refines:
  assumes ok: "store_ok db" and run: "failRunLifecycleRetry aid rid message now db = Inr db'"
    and a: "alloc_at db aid = Some a" "ar_run_id a = rid" "queue_at db aid \<noteq> None" and live: "live_state (ar_state a)"
  shows "refines db db'"
proof -
  have wf: "store_wf db" using ok by (simp add: store_ok_def)
  have id: "ar_id a = aid" using alloc_atD [OF a(1)] by simp
  obtain r where r: "run_at db rid = Some r" "rr_id r = rid"
    using store_wf_alloc(4) [OF wf, of a] alloc_atD [OF a(1)] a(2) by (auto dest: run_atD)
  have "lc_ok (lifecycle_view a r (queue_at db aid))"
    using store_ok_lc [OF ok] lifecycle_at_Some [OF a(1)] r a(2) by simp
  from lc_ok_live [OF this] live have open_run: "\<not> IsTerminal (rr_status r)" by (simp add: lifecycle_view_def)
  let ?fa = "\<lambda>x. x\<lparr>ar_state := LS_RELEASING, ar_updated_at := now\<rparr>"
  let ?fr = "\<lambda>x. x\<lparr>rr_status := RUN_FAILED, rr_diagnostic_code := diagnostic_String DIAG_RUNTIME_START_ERROR,
                   rr_message := trim_space message, rr_version := rr_version x + 1, rr_updated_at := now\<rparr>"
  let ?fq = "\<lambda>q. q\<lparr>qr_attempts := 0, qr_next_run_at := now, qr_last_error := [], qr_claim_owner := [],
                qr_claim_expires_at := None, qr_updated_at := now\<rparr>"
  from run obtain d1 d2 d3 d4 where
    u1: "update_allocations (\<lambda>x. ar_id x = aid \<and> ar_run_id x = rid) ?fa db = Inr d1" and
    u2: "update_runs (\<lambda>x. rr_id x = rid \<and> \<not> IsTerminal (rr_status x)) ?fr d1 = Inr d2" and
    core: "same_core d2 d3" "same_core d3 d4" and u5: "update_queue (\<lambda>q. qr_id q = aid) ?fq d4 = Inr db'"
    by (auto simp: failRunLifecycleRetry_def Let_def dest!: core_statements split: if_splits)
  note e1 = update_allocations_at [OF u1] and e2 = update_runs_at [OF u2] and e3 = same_core_chain [OF core(1)]
    and e4 = same_core_chain [OF core(2)] and e5 = update_queue_at [OF u5]
  have s1: "local_change aid rid db d1"
    using touches_update_allocations [of "\<lambda>x. ar_id x = aid \<and> ar_run_id x = rid" aid ?fa] u1 by (simp add: touches_def)
  have s2: "local_change aid rid d1 d2"
    using touches_update_runs [of "\<lambda>x. rr_id x = rid \<and> \<not> IsTerminal (rr_status x)" rid ?fr] u2 by (simp add: touches_def)
  have s5: "local_change aid rid d4 db'"
    using touches_update_queue [of "\<lambda>q. qr_id q = aid" aid ?fq] u5 by (simp add: touches_def)
  have change: "local_change aid rid db db'"
    by (rule local_change_trans [OF s1 local_change_trans [OF s2 local_change_trans
          [OF local_change_core [OF core(1)] local_change_trans [OF local_change_core [OF core(2)] s5]]]])
  show ?thesis
  proof (rule terminate_refines [where a = a and r = r and a' = "?fa a" and r' = "?fr r", OF ok])
    show "alloc_at db' aid = Some (freeze_allocation_output_expiry (Some a) (?fa a))"
      using e1(1) [of aid] e2(2) e3(2) e4(2) e5(3) a id by simp
    show "run_at db' (ar_run_id a) = Some (?fr r)"
      using e2(1) [of rid] e1(2) e3(1) e4(1) e5(2) r a(2) open_run by simp
    show "queue_at db' aid \<noteq> None" using e5(1) [of aid] e4(3) e3(3) e2(3) e1(3) a(3) by simp
  qed (use a r open_run change in simp_all)
qed

lemma lockLifecycleRetry_at:
  assumes "store_wf db" "lockLifecycleRetry db aid = Some (q, a, r, n)"
  shows "queue_at db (trim_space aid) = Some q" "qr_id q = trim_space aid" "alloc_at db (trim_space aid) = Some a"
proof -
  have found: "List.find P xs = Some x \<Longrightarrow> x \<in> set xs \<and> P x" for P xs and x :: joined_row
    by (auto simp: find_Some_iff)
  from found [OF assms(2) [unfolded lockLifecycleRetry_def]]
  have id: "qr_id q = trim_space aid" and "(q, a, r, n) \<in> set (join_queue db)" by simp_all
  then have q: "q \<in> set (db_queue db)" and a: "lookup ar_id (qr_id q) (db_allocations db) = Some a"
    by (auto simp: join_queue_def set_present bind_eq_Some_conv dest!: sym [of "Some _"])
  show "qr_id q = trim_space aid" by (rule id)
  show "queue_at db (trim_space aid) = Some q"
    using lookup_distinct [of qr_id "db_queue db" q] assms(1) q id by (simp add: store_wf_def queue_at_def)
  show "alloc_at db (trim_space aid) = Some a" using a id by (simp add: alloc_at_def)
qed

lemma FailAllocationLifecycleRetry_refines:
  assumes ok: "store_ok db" and run: "FailAllocationLifecycleRetry req now db = Inr (db', x)"
  shows "refines db db'"
proof -
  let ?aid = "opr_AllocationID (NormalizeFailLifecycleRetryRequest req)"
  from run obtain q a r n d reason where lock: "lockLifecycleRetry db ?aid = Some (q, a, r, n)" and
    live: "ReconcileIntentForLifecycle (ar_state a) = IntentEnsurePresent" and
    core: "same_core db d" and fail: "failRunLifecycleRetry (qr_id q) (ar_run_id a) reason now d = Inr db'"
    by (auto simp: FailAllocationLifecycleRetry_def Let_def dest!: insertAdminAuditEvent_core
        split: option.splits if_splits)
  have wf: "store_wf db" using ok by (simp add: store_ok_def)
  note at = lockLifecycleRetry_at [OF wf lock]
  have "refines db d" by (rule refines_core [OF ok core])
  moreover from this ok have "store_ok d" by (rule refines_ok [rotated])
  then have "refines d db'"
    using at live same_core_chain [OF core]
    by (intro failRunLifecycleRetry_refines [OF _ fail, where a = a]) (auto simp: ReconcileIntent_present live_state_def)
  ultimately show ?thesis by (rule refines_trans)
qed

text \<open>A queue entry that is done with.\<close>

lemma dequeue_refines:
  assumes ok: "store_ok db" and change: "local_change aid (ar_run_id a) db db'"
    and at: "alloc_at db aid = Some a" "ar_state a \<noteq> LS_RELEASING"
    and new: "alloc_at db' aid = alloc_at db aid" "run_at db' = run_at db" "queue_at db' aid = None"
  shows "refines db db'"
proof -
  have wf: "store_wf db" using ok by (simp add: store_ok_def)
  obtain r where r: "run_at db (ar_run_id a) = Some r"
    using store_wf_alloc(4) [OF wf, of a] alloc_atD [OF at(1)] by auto
  let ?l = "lifecycle_view a r (queue_at db aid)"
  have "lifecycle_view a r (queue_at db' aid) = ?l\<lparr>lc_queued := False\<rparr>"
    using new(3) by (simp add: lifecycle_view_def)
  moreover have "lc_step (Some ?l) (Some (?l\<lparr>lc_queued := False\<rparr>))"
    by (rule lc_dequeue) (simp add: lifecycle_view_def at(2))
  ultimately show ?thesis
    using at new r by (intro local_refines [OF ok change at(1) refl r, where a' = a and r' = r]) simp_all
qed

lemma ClearAllocationLifecycleRetry_refines:
  assumes ok: "store_ok db" and run: "ClearAllocationLifecycleRetry req now db = Inr (db', x)"
  shows "refines db db'"
proof -
  let ?aid = "opr_AllocationID (NormalizeClearLifecycleRetryRequest req)"
  from run obtain q a r n d where lock: "lockLifecycleRetry db ?aid = Some (q, a, r, n)" and
    released: "ar_state a = LS_RELEASED" and
    core: "same_core db d" and del: "delete_queue (\<lambda>x. qr_id x = ?aid) d = Inr db'"
    by (auto simp: ClearAllocationLifecycleRetry_def Let_def dest!: insertAdminAuditEvent_core
        split: option.splits if_splits)
  have wf: "store_wf db" using ok by (simp add: store_ok_def)
  have trim: "trim_space ?aid = ?aid" by (simp add: NormalizeClearLifecycleRetryRequest_def)
  note at = lockLifecycleRetry_at [OF wf lock, unfolded trim] and core_at = same_core_chain [OF core]
  have step: "refines db d" and ok': "store_ok d"
    using refines_core [OF ok core] refines_ok [OF ok] by auto
  have db': "db' = d\<lparr>db_queue := delete_where (\<lambda>x. qr_id x = ?aid) (db_queue d)\<rparr>" using del by (simp add: store_simps)
  have "refines d db'"
  proof (rule dequeue_refines [OF ok'])
    show "local_change ?aid (ar_run_id a) d db'"
      using touches_delete_queue [of "\<lambda>x. qr_id x = ?aid" ?aid] del by (simp add: touches_def)
    show "queue_at db' ?aid = None" by (auto simp: db' queue_at_def lookup_None_iff)
  qed (use at core_at released in \<open>simp_all add: db' alloc_at_def run_at_def fun_eq_iff\<close>)
  with step show ?thesis by (rule refines_trans)
qed

section \<open>Start completion and release\<close>

lemma CompleteAllocationStart_refines:
  assumes ok: "store_ok db" and run: "CompleteAllocationStart ul col aid owner conditions now db = Inr db'"
  shows "refines db db'"
proof -
  let ?s = "if conditions = None then Inr else ReplaceCapabilityConditions ul col aid conditions now"
  from run obtain d where claim: "holds_claim aid owner IntentEnsurePresent now db" and
    s: "?s db = Inr d" and del: "delete_claimed aid owner d = Inr db'"
    unfolding CompleteAllocationStart_def RequireReconcileClaim_def exec_all.simps bind_result_Inr_iff require_Inr
    by (auto simp: require_Inr split: if_splits)
  have core: "same_core db d" using s by (auto dest: core_statements split: if_splits)
  from present_claim_live [OF ok claim] obtain a where a: "alloc_at db (trim_space aid) = Some a" and
    live: "live_state (ar_state a)" by blast
  have step: "refines db d" and ok': "store_ok d"
    using refines_core [OF ok core] refines_ok [OF ok] by auto
  have distinct: "distinct (map qr_id (db_queue d))" using ok' by (simp add: store_ok_def store_wf_def)
  note eff = delete_claimed_at [OF del distinct]
  have "refines d db'"
  proof (rule dequeue_refines [OF ok'])
    show "local_change (trim_space aid) (ar_run_id a) d db'"
      using touches_delete_claimed [OF refl] del by (simp add: touches_def)
    show "ar_state a \<noteq> LS_RELEASING" using live by (auto simp: live_state_def)
  qed (use a eff same_core_chain [OF core] in simp_all)
  with step show ?thesis by (rule refines_trans)
qed

text \<open>The acknowledgement is called for allocations seen as released.\<close>

lemma CompleteAllocationReleaseAcknowledgement_refines:
  assumes ok: "store_ok db" and run: "CompleteAllocationReleaseAcknowledgement aid owner now db = Inr db'"
    and released: "\<And>a. alloc_at db (trim_space aid) = Some a \<Longrightarrow> ar_state a = LS_RELEASED"
  shows "refines db db'"
proof -
  from run have claim: "holds_claim aid owner IntentEnsureAbsent now db" and del: "delete_claimed aid owner db = Inr db'"
    by (auto simp: CompleteAllocationReleaseAcknowledgement_def RequireReconcileClaim_def require_Inr)
  then obtain a where a: "alloc_at db (trim_space aid) = Some a" by (auto simp: holds_claim_at)
  have distinct: "distinct (map qr_id (db_queue db))" using ok by (simp add: store_ok_def store_wf_def)
  note eff = delete_claimed_at [OF del distinct]
  show ?thesis
  proof (rule dequeue_refines [OF ok])
    show "local_change (trim_space aid) (ar_run_id a) db db'"
      using touches_delete_claimed [OF refl] del by (simp add: touches_def)
  qed (use a released eff in simp_all)
qed

text \<open>A published snapshot result changes nothing the machine sees.\<close>

lemma publish_snapshot_at:
  assumes "publish_snapshot rid s now db = Inr db'"
  shows "alloc_at db' = alloc_at db" "queue_at db' = queue_at db"
    "run_at db' k = map_option (\<lambda>r. if rr_id r = rid then r\<lparr>rr_snapshot := s, rr_version := rr_version r + 1, rr_updated_at := now\<rparr> else r) (run_at db k)"
  using update_runs_at [OF assms [unfolded publish_snapshot_def]] by simp_all

lemma touches_publish_snapshot [simp]: "touches aid rid (publish_snapshot rid s now)"
  unfolding publish_snapshot_def by (rule touches_update_runs) simp_all

text \<open>Rows of a run that the machine does not tell apart.\<close>

definition same_outcome :: "run_row \<Rightarrow> run_row \<Rightarrow> bool" where
  "same_outcome r r' \<longleftrightarrow>
     rr_status r' = rr_status r \<and> rr_exit_code r' = rr_exit_code r \<and>
     rr_diagnostic_code r' = rr_diagnostic_code r \<and> rr_message r' = rr_message r"

lemma lifecycle_view_outcome: "same_outcome r r' \<Longrightarrow> lifecycle_view a r' q = lifecycle_view a r q"
  by (simp add: same_outcome_def lifecycle_view_def)

lemma MarkRootfsSnapshotFailed_refines:
  assumes ok: "store_ok db" and run: "MarkRootfsSnapshotFailed aid owner message now db = Inr db'"
  shows "refines db db'"
proof -
  let ?aid = "trim_space aid"
  from run obtain a where a: "alloc_at db ?aid = Some a"
    by (auto simp: MarkRootfsSnapshotFailed_def RequireReconcileClaim_def require_Inr holds_claim_at)
  have wf: "store_wf db" using ok by (simp add: store_ok_def)
  obtain r where r: "run_at db (ar_run_id a) = Some r"
    using store_wf_alloc(4) [OF wf, of a] alloc_atD [OF a] by auto
  let ?p = "\<lambda>x. Some (rr_id x) = map_option ar_run_id (lookup ar_id ?aid (db_allocations db)) \<and>
                 rsr_Status (rr_snapshot x) = SNAP_PENDING"
  let ?f = "\<lambda>x. x\<lparr>rr_snapshot := snapshot_with SNAP_FAILED (trim_space message), rr_version := rr_version x + 1, rr_updated_at := now\<rparr>"
  from run have u: "update_runs ?p ?f db = Inr db'"
    by (auto simp: MarkRootfsSnapshotFailed_def RequireReconcileClaim_def require_Inr Let_def split: if_splits)
  note eff = update_runs_at [OF u]
  have change: "local_change ?aid (ar_run_id a) db db'"
    using touches_update_runs [of ?p "ar_run_id a" ?f ?aid] u a by (simp add: touches_def alloc_at_def)
  let ?r = "if ?p r then ?f r else r"
  have "lifecycle_view a ?r q = lifecycle_view a r q" for q
    by (rule lifecycle_view_outcome) (simp add: same_outcome_def)
  then show ?thesis
    using a r eff by (intro local_refines [OF ok change a refl r, where a' = a and r' = ?r]) simp_all
qed

lemma touches_release_snapshot:
  assumes "trim_space aid = aid"
  shows "touches aid (rr_id r) (release_snapshot sha1_id aid owner r snapshot now)"
proof -
  have "touches aid (rr_id r) (\<lambda>_. Inl e)" for e by (simp add: touches_def)
  then show ?thesis
    unfolding release_snapshot_def using assms
    by (auto intro!: touches_intros split: option.splits)
qed

text \<open>The three ways a successful release ends.\<close>

lemma release_snapshot_cases:
  assumes "release_snapshot sha1_id aid owner r snapshot now db = Inr db'"
  obtains (acknowledge) d1 d2 s where "same_core db d1" "publish_snapshot (rr_id r) s now d1 = Inr d2"
      "release_for_acknowledgement aid owner now d2 = Inr db'"
  | (failed) d1 s where "publish_snapshot (rr_id r) s now db = Inr d1" "delete_claimed aid owner d1 = Inr db'"
  | (plain) "delete_claimed aid owner db = Inr db'"
proof (cases snapshot)
  case None
  with assms failed plain show ?thesis
    by (auto simp: release_snapshot_def split: if_splits)
next
  case (Some s)
  with assms obtain d1 d2 where "insert_environment (snapshot_environment sha1_id aid r s) db = Inr d1"
    "publish_snapshot (rr_id r) (ready_snapshot (''env-'' @ sha1_id aid) s) now d1 = Inr d2"
    "release_for_acknowledgement aid owner now d2 = Inr db'"
    by (auto simp: release_snapshot_def require_Inr)
  moreover from this(1) have "same_core db d1"
    by (auto simp: insert_environment_def same_core_def split: if_splits)
  ultimately show ?thesis using acknowledge by blast
qed

lemma release_snapshot_effect:
  assumes run: "release_snapshot sha1_id aid owner r snapshot now db = Inr db'" and wf: "store_wf db"
    and trim: "trim_space aid = aid"
  shows "alloc_at db' = alloc_at db \<and> (queue_at db' aid = None \<or> queue_at db aid \<noteq> None) \<and>
     (\<forall>r0. run_at db (rr_id r) = Some r0 \<longrightarrow> (\<exists>r'. run_at db' (rr_id r) = Some r' \<and> same_outcome r0 r'))"
  using run
proof (cases rule: release_snapshot_cases)
  case (acknowledge d1 d2 s)
  note e = same_core_chain [OF acknowledge(1)] publish_snapshot_at [OF acknowledge(2)]
    release_for_acknowledgement_at [OF acknowledge(3)]
  show ?thesis
    using e(1-6) e(7) e(8) e(9) [of aid] by (auto simp: same_outcome_def)
next
  case (failed d1 s)
  have distinct: "distinct (map qr_id (db_queue d1))"
    using wf failed(1) by (auto simp: publish_snapshot_def store_simps store_wf_def)
  note e = publish_snapshot_at [OF failed(1)] delete_claimed_at [OF failed(2) distinct, unfolded trim]
  show ?thesis using e by (auto simp: same_outcome_def)
next
  case plain
  have distinct: "distinct (map qr_id (db_queue db))" using wf by (simp add: store_wf_def)
  show ?thesis
    using delete_claimed_at [OF plain distinct, unfolded trim] by (auto simp: same_outcome_def)
qed

lemma release_move:
  assumes lc: "lc_ok (lifecycle_view a r q)" and state: "ar_state a = LS_RELEASING \<or> ar_state a = LS_RELEASED"
    and q': "q' = None \<or> q \<noteq> None" and b: "ar_state a = LS_RELEASING \<Longrightarrow> ar_state b = LS_RELEASED \<and> ar_node_id b = ar_node_id a"
  shows "lc_step\<^sup>=\<^sup>= (Some (lifecycle_view a r q))
    (Some (lifecycle_view (if ar_state a = LS_RELEASING then freeze_allocation_output_expiry (Some a) b else a) r q'))"
proof (cases "ar_state a = LS_RELEASING")
  case True
  obtain t where t: "ar_output_expires_at a = Some t"
    using lc True by (auto simp: lc_ok_def lifecycle_view_def IsCleanupState_def)
  let ?l = "lifecycle_view a r q"
  have "lc_step (Some ?l) (Some (?l\<lparr>lc_state := LS_RELEASED, lc_queued := (q' \<noteq> None)\<rparr>))"
    by (rule lc_release) (simp add: lifecycle_view_def True)
  moreover have "lifecycle_view (freeze_allocation_output_expiry (Some a) b) r q' =
      ?l\<lparr>lc_state := LS_RELEASED, lc_queued := (q' \<noteq> None)\<rparr>"
    using b [OF True] t by (simp add: lifecycle_view_def freeze_allocation_output_expiry_def)
  ultimately show ?thesis using True by simp
next
  case False
  let ?l = "lifecycle_view a r q"
  have "lc_step (Some ?l) (Some (?l\<lparr>lc_queued := False\<rparr>))"
    by (rule lc_dequeue) (simp add: lifecycle_view_def False)
  moreover have "lifecycle_view a r q' = (if q' = None then ?l\<lparr>lc_queued := False\<rparr> else ?l)"
    using q' by (auto simp: lifecycle_view_def)
  ultimately show ?thesis using False by simp
qed

lemma CompleteAllocationRelease_refines:
  assumes ok: "store_ok db" and run: "CompleteAllocationRelease sha1_id aid0 owner snapshot now db = Inr db'"
  shows "refines db db'"
    "\<exists>a. alloc_at db' (trim_space aid0) = Some a \<and> ar_state a = LS_RELEASED"
proof -
  let ?aid = "trim_space aid0" and ?f = "\<lambda>x. x\<lparr>ar_state := LS_RELEASED, ar_updated_at := now\<rparr>"
  have wf: "store_wf db" using ok by (simp add: store_ok_def)
  let ?s = "\<lambda>a. if ar_state a = LS_RELEASING then update_allocations (\<lambda>x. ar_id x = ?aid) ?f else Inr"
  from run obtain r a d where view: "runByAllocation db ?aid = Some (r, a)" and
    state: "ar_state a = LS_RELEASING \<or> ar_state a = LS_RELEASED" and
    s: "?s a db = Inr d" and rel: "release_snapshot sha1_id ?aid owner r snapshot now d = Inr db'"
    unfolding CompleteAllocationRelease_def Let_def RequireReconcileClaim_def
    by (auto simp: require_Inr split: option.splits)
  from view have a: "alloc_at db ?aid = Some a" and r: "run_at db (ar_run_id a) = Some r"
    by (simp_all add: runByAllocation_at)
  have id: "ar_id a = ?aid" and rid: "rr_id r = ar_run_id a" using alloc_atD [OF a] run_atD [OF r] by simp_all
  let ?a = "if ar_state a = LS_RELEASING then freeze_allocation_output_expiry (Some a) (?f a) else a"
  have d: "alloc_at d ?aid = Some ?a" "run_at d = run_at db" "queue_at d = queue_at db"
    using s update_allocations_at [of "\<lambda>x. ar_id x = ?aid" ?f db d] a id by (auto split: if_splits)
  have change1: "local_change ?aid (ar_run_id a) db d"
    using s touches_update_allocations [of "\<lambda>x. ar_id x = ?aid" ?aid ?f] by (auto simp: touches_def split: if_splits)
  have wf': "store_wf d" by (rule local_change_wf [OF wf change1]) (simp add: a)
  have change2: "local_change ?aid (ar_run_id a) d db'"
    using touches_release_snapshot [of ?aid r] rel rid by (simp add: touches_def)
  from release_snapshot_effect [OF rel wf'] d r rid obtain r' where
    new: "alloc_at db' ?aid = Some ?a" "run_at db' (ar_run_id a) = Some r'" "same_outcome r r'" and
    q: "queue_at db' ?aid = None \<or> queue_at db ?aid \<noteq> None" by auto
  have lc: "lc_ok (lifecycle_view a r (queue_at db ?aid))"
    using store_ok_lc [OF ok] lifecycle_at_Some [OF a r] by simp
  show "\<exists>a. alloc_at db' ?aid = Some a \<and> ar_state a = LS_RELEASED" using new(1) state by auto
  have move: "lc_step\<^sup>=\<^sup>= (Some (lifecycle_view a r (queue_at db ?aid))) (Some (lifecycle_view ?a r' (queue_at db' ?aid)))"
    unfolding lifecycle_view_outcome [OF new(3)] by (rule release_move [OF lc state q]) simp
  show "refines db db'"
    by (rule local_refines [OF ok local_change_trans [OF change1 change2] a refl r new(1) _ new(2) move]) simp
qed

section \<open>Reports of the node\<close>

text \<open>A reported projection that agrees with the tables.\<close>

definition projection_agrees :: "store_db \<Rightarrow> reported_allocation \<Rightarrow> bool" where
  "projection_agrees db x \<longleftrightarrow>
     (\<exists>a. alloc_at db (ra_allocationID x) = Some a \<and> ar_run_id a = ra_runID x \<and> ar_node_id a = ra_nodeID x \<and>
          ar_state a = ra_lifecycleState x)"

lemma progress_move:
  assumes live: "live_state (ar_state a)" and s: "s = LS_STARTING \<or> s = LS_ACTIVE"
    and forward: "lifecycle_rank (ar_state a) \<le> lifecycle_rank s" and lc: "lc_ok (lifecycle_view a r q)"
    and b: "ar_state b = s" "ar_node_id b = ar_node_id a"
    and r': "rr_status r' = RunStatusFromObservation s e d" and q: "q' = q"
  shows "lc_step\<^sup>=\<^sup>= (Some (lifecycle_view a r q)) (Some (lifecycle_view (freeze_allocation_output_expiry (Some a) b) r' q'))"
proof -
  let ?l = "lifecycle_view a r q"
  have "ar_output_expires_at a = None"
    using lc live by (auto simp: lc_ok_def lifecycle_view_def IsCleanupState_def live_state_def)
  then have "lifecycle_view (freeze_allocation_output_expiry (Some a) b) r' q' =
      ?l\<lparr>lc_state := s, lc_status := RunStatusFromObservation s e d, lc_exit := rr_exit_code r',
         lc_code := rr_diagnostic_code r', lc_message := rr_message r'\<rparr>"
    using s b r' q by (auto simp: lifecycle_view_def freeze_allocation_output_expiry_def)
  moreover have "lc_step (Some ?l) (Some (?l\<lparr>lc_state := s, lc_status := RunStatusFromObservation s e d,
      lc_exit := rr_exit_code r', lc_code := rr_diagnostic_code r', lc_message := rr_message r'\<rparr>))"
    using live s forward by (intro lc_progress) (simp_all add: lifecycle_view_def)
  ultimately show ?thesis by simp
qed

text \<open>The writes of one accepted observation.\<close>

lemma apply_observation_at:
  assumes run: "apply_observation x obs status now db = Inr db'"
    and at: "alloc_at db (ra_allocationID x) = Some a" "run_at db (ra_runID x) = Some r" "\<not> IsTerminal (rr_status r)"
    and trim: "trim_space (ra_allocationID x) = ra_allocationID x"
  obtains b r' where "alloc_at db' (ra_allocationID x) = Some (freeze_allocation_output_expiry (Some a) b)"
    "ar_id b = ar_id a" "ar_run_id b = ar_run_id a" "ar_node_id b = ar_node_id a" "ar_state b = persisted_state (obs_State obs)"
    "run_at db' (ra_runID x) = Some r'" "rr_status r' = status"
    "if IsTerminal status then queue_at db' (ra_allocationID x) \<noteq> None else queue_at db' = queue_at db"
proof -
  let ?aid = "ra_allocationID x" and ?rid = "ra_runID x" and ?state = "persisted_state (obs_State obs)"
  let ?fa = "\<lambda>y. y\<lparr>ar_state := ?state, ar_updated_at := now,
                   ar_node_active_at := (if ar_node_active_at y = None \<and> ?state \<in> {LS_STARTING, LS_ACTIVE}
                                         then Some (NodeActiveObservationTime (Some obs) now) else ar_node_active_at y)\<rparr>"
  let ?fr = "\<lambda>y. y\<lparr>rr_status := status, rr_exit_code := obs_ExitCode obs,
                   rr_diagnostic_code := diagnostic_String (obs_DiagnosticCode obs),
                   rr_message := trim_space (obs_Message obs), rr_version := rr_version y + 1, rr_updated_at := now\<rparr>"
  let ?req = "\<lparr>sr_AllocationID = ?aid, sr_Intent = IntentEnsureAbsent, sr_NextRunAt = now,
               sr_LastReconcileError = [], sr_IncrementAttempts = False\<rparr>"
  from run obtain d1 d2 where
    u1: "update_allocations (\<lambda>y. ar_id y = ?aid) ?fa db = Inr d1" and
    u2: "update_runs (\<lambda>y. rr_id y = ?rid \<and> \<not> IsTerminal (rr_status y)) ?fr d1 = Inr d2" and
    tail: "exec_all (if IsTerminal status
            then [deleteRunSecretReferences ?rid, RevokeActiveForAllocationsTx [?aid] ''run allocation terminated'' now,
                  RevokeInteractiveAccessGrants ?aid, ScheduleReconcile ?req now] else []) d2 = Inr db'"
    unfolding apply_observation_def Let_def by auto
  have rest: "if IsTerminal status then \<exists>d5. same_core d2 d5 \<and> ScheduleReconcile ?req now d5 = Inr db' else db' = d2"
  proof (cases "IsTerminal status")
    case True
    with tail obtain d3 d4 d5 where "same_core d2 d3" "same_core d3 d4" "same_core d4 d5"
      "ScheduleReconcile ?req now d5 = Inr db'" by (auto dest!: core_statements)
    with True show ?thesis using same_core_trans by metis
  qed (use tail in simp)
  have d2: "alloc_at d2 ?aid = Some (freeze_allocation_output_expiry (Some a) (?fa a))" "run_at d2 ?rid = Some (?fr r)"
    "queue_at d2 = queue_at db"
    using update_allocations_at [OF u1] update_runs_at [OF u2] at alloc_atD [OF at(1)] run_atD [OF at(2)] by simp_all
  have new: "alloc_at db' = alloc_at d2 \<and> run_at db' = run_at d2 \<and>
      (if IsTerminal status then queue_at db' ?aid \<noteq> None else queue_at db' = queue_at d2)"
    using rest ScheduleReconcile_at [of ?req now _ db' ?aid] trim
    by (auto simp: same_core_chain split: if_splits)
  show thesis
    by (rule that [of "?fa a" "?fr r"]) (use d2 new in \<open>auto split: if_splits\<close>)
qed

lemma touches_apply_observation:
  "trim_space (ra_allocationID x) = ra_allocationID x \<Longrightarrow>
   touches (ra_allocationID x) (ra_runID x) (apply_observation x obs status now)"
  unfolding apply_observation_def Let_def
  by (rule touches_exec_all) (auto intro!: touches_intros split: if_splits)

lemma apply_observation_refines:
  assumes ok: "store_ok db" and agrees: "projection_agrees db x"
    and accepts: "AcceptsObservation (ra_lifecycleState x) n1 n2 (Some obs)"
    and run: "apply_observation x obs (RunStatusFromObservation (obs_State obs) (obs_ExitCode obs) (obs_DiagnosticCode obs)) now db
       = Inr db'" (is "apply_observation x obs ?status now db = _")
  shows "refines db db'" "projection_agrees db' (observed_projection x obs ?status)"
    "y \<noteq> ra_allocationID x \<Longrightarrow> alloc_at db' y = alloc_at db y"
proof -
  have wf: "store_wf db" using ok by (simp add: store_ok_def)
  let ?aid = "ra_allocationID x" and ?rid = "ra_runID x"
  from agrees obtain a where a: "alloc_at db ?aid = Some a" "ar_run_id a = ?rid" "ar_node_id a = ra_nodeID x"
    "ar_state a = ra_lifecycleState x" by (auto simp: projection_agrees_def)
  have row: "a \<in> set (db_allocations db)" "ar_id a = ?aid" using alloc_atD [OF a(1)] by auto
  have trim: "trim_space ?aid = ?aid" using store_wf_alloc(2) [OF wf row(1)] by (simp only: row(2))
  obtain r where r: "run_at db ?rid = Some r" using store_wf_alloc(4) [OF wf row(1)] by (auto simp only: a(2))
  have lc: "lc_ok (lifecycle_view a r (queue_at db ?aid))"
    using store_ok_lc [OF ok] lifecycle_at_Some [OF a(1)] r a(2) by simp
  note acc = AcceptsObservation_cases [OF accepts] and forward = AcceptsObservation_forward [OF accepts]
  have live: "live_state (ar_state a)" using acc(1) a(4) by (auto simp: live_state_def)
  have open_run: "\<not> IsTerminal (rr_status r)" using lc_ok_live [OF lc] live by (simp add: lifecycle_view_def)
  have change: "local_change ?aid ?rid db db'"
    using touches_apply_observation [OF trim] run by (simp add: touches_def)
  obtain b r' where new_a: "alloc_at db' ?aid = Some (freeze_allocation_output_expiry (Some a) b)" and
    b: "ar_id b = ar_id a" "ar_run_id b = ar_run_id a" "ar_node_id b = ar_node_id a" "ar_state b = persisted_state (obs_State obs)" and
    new_r: "run_at db' ?rid = Some r'" and r': "rr_status r' = ?status" and
    q: "if IsTerminal ?status then queue_at db' ?aid \<noteq> None else queue_at db' = queue_at db"
    by (rule apply_observation_at [OF run a(1) r open_run trim], rule that)
  note new = new_a new_r
  show "alloc_at db' y = alloc_at db y" if "y \<noteq> ?aid" using change that by (simp add: local_change_def)
  show "projection_agrees db' (observed_projection x obs ?status)"
    using new a b by (simp add: projection_agrees_def observed_projection_def)
  show "refines db db'"
  proof (cases "obs_State obs = LS_STOPPED")
    case True
    then have "IsTerminal ?status" by (simp add: RunStatusFromObservation_terminal)
    with True show ?thesis
      using change new b r' q a r open_run
      by (intro terminate_refines [OF ok, of ?aid a db' r b r']) (simp_all add: persisted_state_def)
  next
    case False
    with acc(2) have s: "obs_State obs = LS_STARTING \<or> obs_State obs = LS_ACTIVE" by auto
    have "\<not> IsTerminal ?status" using False by (simp add: RunStatusFromObservation_terminal)
    then have move: "lc_step\<^sup>=\<^sup>= (Some (lifecycle_view a r (queue_at db ?aid)))
        (Some (lifecycle_view (freeze_allocation_output_expiry (Some a) b) r' (queue_at db' ?aid)))"
      using live s forward lc b r' q a(4) False
      by (intro progress_move [where s = "obs_State obs"]) (simp_all add: persisted_state_def)
    show ?thesis
      by (rule local_refines [OF ok change a(1,2) r new(1) _ new(2) move]) (simp add: b a)
  qed
qed

text \<open>The projections that the loop carries along agree with the tables throughout.\<close>

definition projections_agree :: "store_db \<Rightarrow> (string \<times> reported_allocation) list \<Rightarrow> bool" where
  "projections_agree db allocations \<longleftrightarrow>
     (\<forall>k x. map_of allocations k = Some x \<longrightarrow> ra_allocationID x = k \<and> projection_agrees db x)"

lemma projections_agree_update:
  assumes "projections_agree db allocations" "ra_allocationID x' = aid" "projection_agrees db' x'"
    and "\<And>k. k \<noteq> aid \<Longrightarrow> alloc_at db' k = alloc_at db k"
  shows "projections_agree db' ((aid, x') # allocations)"
  unfolding projections_agree_def
proof (intro allI impI)
  fix k x
  assume x: "map_of ((aid, x') # allocations) k = Some x"
  show "ra_allocationID x = k \<and> projection_agrees db' x"
  proof (cases "k = aid")
    case False
    with x assms(1) have "ra_allocationID x = k" "projection_agrees db x" by (simp_all add: projections_agree_def)
    with False assms(4) show ?thesis by (simp add: projection_agrees_def)
  qed (use x assms(2,3) in auto)
qed

lemma reportLoop_refines:
  "reportLoop node now allocations observations db = Inr db' \<Longrightarrow> store_ok db \<Longrightarrow> projections_agree db allocations \<Longrightarrow>
   refines db db'"
proof (induction observations arbitrary: allocations db)
  case (Cons obs rest)
  let ?status = "\<lambda>o1. RunStatusFromObservation (obs_State o1) (obs_ExitCode o1) (obs_DiagnosticCode o1)"
  from Cons.prems(1) consider "reportLoop node now allocations rest db = Inr db'"
    | x o1 d where "obs = Some o1" "map_of allocations (observation_id obs) = Some x"
        "AcceptsObservation (ra_lifecycleState x) (ra_nodeID x) node (Some o1)"
        "apply_observation x o1 (?status o1) now db = Inr d"
        "reportLoop node now ((ra_allocationID x, observed_projection x o1 (?status o1)) # allocations) rest d = Inr db'"
    by (auto simp: Let_def split: option.splits if_splits)
  then show ?case
  proof cases
    case 1
    then show ?thesis using Cons.IH Cons.prems(2,3) by blast
  next
    case (2 x o1 d)
    have agrees: "projection_agrees db x" using 2(2) Cons.prems(3) by (simp add: projections_agree_def)
    note step = apply_observation_refines [OF Cons.prems(2) agrees 2(3,4)]
    have "projections_agree d ((ra_allocationID x, observed_projection x o1 (?status o1)) # allocations)"
      by (rule projections_agree_update [OF Cons.prems(3) _ step(2,3)]) (simp_all add: observed_projection_def)
    from Cons.IH [OF 2(5) refines_ok [OF Cons.prems(2) step(1)] this] step(1) show ?thesis
      by (rule refines_trans [rotated])
  qed
qed (simp add: refines_refl)

lemma lockReportedAllocations_agree:
  assumes "store_wf db"
  shows "projections_agree db (lockReportedAllocations db ids)"
  unfolding projections_agree_def
proof (intro allI impI)
  fix k x
  assume "map_of (lockReportedAllocations db ids) k = Some x"
  then have "(k, x) \<in> set (lockReportedAllocations db ids)" by (rule map_of_SomeD)
  then obtain a where a: "a \<in> set (db_allocations db)" "reported db a = Some x" "k = ra_allocationID x"
    by (auto simp: lockReportedAllocations_def set_present dest!: sym [of "Some _"])
  then show "ra_allocationID x = k \<and> projection_agrees db x"
    using store_wf_alloc(1) [OF assms a(1)] by (auto simp: reported_def projection_agrees_def)
qed

lemma BatchReportAllocationLifecycle_refines:
  "store_ok db \<Longrightarrow> BatchReportAllocationLifecycle node observations now db = Inr db' \<Longrightarrow> refines db db'"
  unfolding BatchReportAllocationLifecycle_def
  by (erule reportLoop_refines) (simp_all add: lockReportedAllocations_agree store_ok_def)

lemma report_each_refines:
  "store_ok db \<Longrightarrow> report_each node message now ids db = (db', e) \<Longrightarrow> refines db db'"
proof (induction node message now ids db rule: report_each.induct)
  case (2 node message now aid rest db)
  show ?case
  proof (cases "BatchReportAllocationLifecycle node [Some (stopped_report aid message now)] now db")
    case (Inl e')
    with "2.prems" show ?thesis by (simp add: refines_refl)
  next
    case (Inr d)
    with "2.prems"(1) have step: "refines db d" by (rule BatchReportAllocationLifecycle_refines)
    from refines_ok [OF "2.prems"(1) step] have "refines d db'" using "2.IH" [OF Inr] "2.prems"(2) Inr by simp
    with step show ?thesis by (rule refines_trans)
  qed
qed (simp add: refines_refl)

lemma ReconcileNodeInventory_refines:
  "store_ok db \<Longrightarrow> ReconcileNodeInventory snapshot now db = (db', e) \<Longrightarrow> refines db db'"
  by (auto simp: ReconcileNodeInventory_def Let_def refines_refl intro: report_each_refines split: if_splits)

lemma ReconcileNodeUnavailable_refines:
  "store_ok db \<Longrightarrow> ReconcileNodeUnavailable node now db = (db', e) \<Longrightarrow> refines db db'"
  by (auto simp: ReconcileNodeUnavailable_def Let_def refines_refl intro: report_each_refines split: if_splits)

section \<open>Retention\<close>

lemma delete_runs_at:
  assumes wf: "store_wf db"
  shows "run_at (delete_runs ids db) k = (if k \<in> set ids then None else run_at db k)"
    "alloc_at (delete_runs ids db) k =
       (case alloc_at db k of None \<Rightarrow> None | Some a \<Rightarrow> if ar_run_id a \<in> set ids then None else Some a)"
    "queue_at (delete_runs ids db) k =
       (if k \<in> ar_id ` {a \<in> set (db_allocations db). ar_run_id a \<in> set ids} then None else queue_at db k)"
proof -
  have "distinct (map rr_id (db_runs db))" "distinct (map ar_id (db_allocations db))" "distinct (map qr_id (db_queue db))"
    using wf by (simp_all add: store_wf_def)
  note lookups = this [THEN lookup_delete_where]
  show "run_at (delete_runs ids db) k = (if k \<in> set ids then None else run_at db k)"
    by (auto simp: run_at_def delete_runs_def Let_def lookups dest: lookup_SomeD split: option.splits)
  show "alloc_at (delete_runs ids db) k =
      (case alloc_at db k of None \<Rightarrow> None | Some a \<Rightarrow> if ar_run_id a \<in> set ids then None else Some a)"
    by (simp add: alloc_at_def delete_runs_def Let_def lookups)
  show "queue_at (delete_runs ids db) k =
      (if k \<in> ar_id ` {a \<in> set (db_allocations db). ar_run_id a \<in> set ids} then None else queue_at db k)"
    by (auto simp: queue_at_def delete_runs_def Let_def lookups dest!: lookup_SomeD split: option.splits)
qed

lemma delete_runs_wf:
  assumes wf: "store_wf db"
  shows "store_wf (delete_runs ids db)"
proof -
  let ?db = "delete_runs ids db"
  have parts: "db_runs ?db = delete_where (\<lambda>r. rr_id r \<in> set ids) (db_runs db)"
    "db_allocations ?db = delete_where (\<lambda>a. ar_run_id a \<in> set ids) (db_allocations db)"
    "set (db_queue ?db) = {q \<in> set (db_queue db). qr_id q \<notin> ar_id ` {a \<in> set (db_allocations db). ar_run_id a \<in> set ids}}"
    by (auto simp: delete_runs_def Let_def)
  have queue: "distinct (map qr_id (db_queue ?db))"
    using wf by (simp add: delete_runs_def Let_def distinct_map_delete_where store_wf_def)
  have "alloc_at ?db (qr_id q) \<noteq> None" if q: "q \<in> set (db_queue ?db)" for q
  proof -
    from q parts(3) store_wf_queue [OF wf, of q] obtain a where a: "alloc_at db (qr_id q) = Some a" by auto
    have "qr_id q \<notin> ar_id ` {a \<in> set (db_allocations db). ar_run_id a \<in> set ids}" using q parts(3) by blast
    then have "ar_run_id a \<notin> set ids"
      using alloc_atD [OF a] image_eqI [of "qr_id q" ar_id a] by auto
    with a show ?thesis by (simp add: delete_runs_at(2) [OF wf])
  qed
  moreover have "run_at ?db (ar_run_id a) \<noteq> None" if "a \<in> set (db_allocations ?db)" for a
    using that store_wf_alloc(4) [OF wf, of a] by (simp add: parts delete_runs_at(1) [OF wf])
  moreover have "rows_ok ?db" using wf by (auto simp: rows_ok_def store_wf_def parts)
  ultimately show ?thesis
    using wf queue by (simp add: store_wf_def parts(1,2) distinct_map_delete_where)
qed

lemma candidateTerminalRuns_released:
  assumes wf: "store_wf db" and id: "rid \<in> set (candidateTerminalRuns db cutoff now n)"
    and a: "alloc_at db k = Some a" "ar_run_id a = rid"
  shows "ar_state a = LS_RELEASED" "queue_at db k = None"
proof -
  from id obtain r where r: "retention_candidate db cutoff now r" "rr_id r = rid"
    by (auto simp: candidateTerminalRuns_def dest!: in_set_takeD)
  then obtain b where b: "lookup ar_run_id rid (db_allocations db) = Some b" "ar_state b = LS_RELEASED"
    "\<not> list_ex (\<lambda>q. qr_id q = ar_id b) (db_queue db)"
    by (auto simp: retention_candidate_def split: option.splits)
  have "alloc_at db (ar_id b) = Some b" "ar_run_id b = rid"
    using lookup_SomeD [OF b(1)] store_wf_alloc(1) [OF wf, of b] by auto
  with store_wf_same_run [OF wf a(1), of "ar_id b" b] a have "b = a" "ar_id b = k" by auto
  with b(2,3) show "ar_state a = LS_RELEASED" "queue_at db k = None"
    by (auto simp: queue_at_def lookup_None_iff list_ex_iff)
qed

lemma deleteTerminalRuns_refines:
  assumes ok: "store_ok db"
  shows "refines db (deleteTerminalRuns cutoff now n db)"
  unfolding refines_def deleteTerminalRuns_def
proof (intro conjI allI)
  have wf: "store_wf db" using ok by (simp add: store_ok_def)
  let ?ids = "candidateTerminalRuns db cutoff now n"
  let ?db = "delete_runs ?ids db"
  show "store_wf ?db" by (rule delete_runs_wf [OF wf])
  fix k
  show "lc_move\<^sup>*\<^sup>* (lifecycle_at db k) (lifecycle_at ?db k)"
  proof (cases "alloc_at db k")
    case None
    then show ?thesis by (simp add: lifecycle_at_def delete_runs_at(2) [OF wf])
  next
    case (Some a)
    then obtain r where r: "run_at db (ar_run_id a) = Some r"
      using store_wf_alloc(4) [OF wf, of a] alloc_atD [OF Some] by auto
    show ?thesis
    proof (cases "ar_run_id a \<in> set ?ids")
      case True
      from candidateTerminalRuns_released [OF wf True Some refl]
      have "lc_move (Some (lifecycle_view a r (queue_at db k))) None"
        unfolding lc_move_def by (intro conjI lc_forget) (simp_all add: lifecycle_view_def)
      with Some r True show ?thesis
        by (auto simp: lifecycle_at_Some lifecycle_at_def [of ?db] delete_runs_at(2) [OF wf])
    next
      case False
      have "queue_at ?db k = queue_at db k"
        using False Some store_wf_alloc(1) [OF wf] by (auto simp: delete_runs_at(3) [OF wf])
      with False Some r have "lifecycle_at ?db k = lifecycle_at db k"
        by (simp add: lifecycle_at_def delete_runs_at(1,2) [OF wf])
      then show ?thesis by simp
    qed
  qed
qed

section \<open>Admission\<close>

lemma insert_admits:
  assumes ok: "store_ok db"
    and db': "db_runs db' = db_runs db @ [r]" "db_allocations db' = db_allocations db @ [a]" "db_queue db' = db_queue db @ [q]"
    and fresh: "run_at db (rr_id r) = None" "alloc_at db (ar_id a) = None"
      "lookup ar_run_id (rr_id r) (db_allocations db) = None" "queue_at db (ar_id a) = None"
    and ids: "ar_run_id a = rr_id r" "qr_id q = ar_id a" "trim_space (ar_id a) = ar_id a" "trim_space (rr_id r) = rr_id r"
    and rows: "run_row_ok r" "allocation_row_ok a" "queue_row_ok q"
    and initial: "ar_state a = LS_BOUND" "rr_status r = RUN_PLACED" "rr_exit_code r = None" "ar_output_expires_at a = None"
  shows "admits (ar_id a) db db'"
  unfolding admits_def
proof (intro conjI allI impI)
  have wf: "store_wf db" using ok by (simp add: store_ok_def)
  have run: "run_at db' k = (if k = rr_id r then Some r else run_at db k)" for k
    using fresh(1) by (auto simp: run_at_def db' lookup_append split: option.splits)
  have alloc: "alloc_at db' k = (if k = ar_id a then Some a else alloc_at db k)" for k
    using fresh(2) by (auto simp: alloc_at_def db' lookup_append split: option.splits)
  have queue: "queue_at db' k = (if k = ar_id a then Some q else queue_at db k)" for k
    using fresh(4) ids(2) by (auto simp: queue_at_def db' lookup_append split: option.splits)
  have "rr_id r \<notin> rr_id ` set (db_runs db)" "ar_id a \<notin> ar_id ` set (db_allocations db)"
    "rr_id r \<notin> ar_run_id ` set (db_allocations db)" "ar_id a \<notin> qr_id ` set (db_queue db)"
    using fresh by (simp_all only: run_at_def alloc_at_def queue_at_def lookup_None_iff not_False_eq_True)
  then have "distinct (map rr_id (db_runs db'))" "distinct (map ar_id (db_allocations db'))"
    "distinct (map ar_run_id (db_allocations db'))" "distinct (map qr_id (db_queue db'))"
    using wf ids(1,2) by (simp_all add: db' store_wf_def)
  moreover have "run_at db' (ar_run_id b) \<noteq> None \<and> trim_space (ar_id b) = ar_id b \<and> trim_space (ar_run_id b) = ar_run_id b"
    if "b \<in> set (db_allocations db')" for b
    using that store_wf_alloc(2-4) [OF wf, of b] ids by (auto simp: db' run)
  moreover have "alloc_at db' (qr_id x) \<noteq> None" if "x \<in> set (db_queue db')" for x
    using that store_wf_queue [OF wf, of x] ids by (auto simp: db' alloc)
  moreover have "rows_ok db'" using wf rows by (auto simp: rows_ok_def store_wf_def db')
  ultimately show "store_wf db'" unfolding store_wf_def by blast
  show "lifecycle_at db (ar_id a) = None" using fresh(2) by (simp add: lifecycle_at_def)
  have "lc_step None (Some (lifecycle_view a r (Some q)))"
    using initial by (intro lc_admit) (simp_all add: lifecycle_view_def)
  then show "lc_step None (lifecycle_at db' (ar_id a))" using ids(1) by (simp add: lifecycle_at_def run alloc queue)
  fix k
  assume other: "k \<noteq> ar_id a"
  have "ar_run_id b \<noteq> rr_id r" if "alloc_at db k = Some b" for b
    using alloc_atD [OF that] store_wf_alloc(4) [OF wf, of b] fresh(1) by auto
  with other show "lifecycle_at db' k = lifecycle_at db k"
    by (auto simp: lifecycle_at_def run alloc queue split: option.splits)
qed

lemma AdmitRun_admits:
  assumes ok: "store_ok db" and run: "AdmitRun ul idna admit p now db = Inr db'"
    and trim: "trim_space (ap_RunID p) = ap_RunID p" "trim_space (ap_AllocationID p) = ap_AllocationID p"
  shows "admits (ap_AllocationID p) db db'"
proof -
  have wf: "store_wf db" using ok by (simp add: store_ok_def)
  let ?aid = "ap_AllocationID p" and ?rid = "ap_RunID p"
  let ?req = "\<lparr>sr_AllocationID = ?aid, sr_Intent = IntentEnsurePresent, sr_NextRunAt = now,
               sr_LastReconcileError = [], sr_IncrementAttempts = False\<rparr>"
  from run obtain c env nodeID d1 d2 d3 d4 where
    i1: "insert_run (admitted_run p c env now) db = Inr d1" and c1: "same_core d1 d2" and
    i2: "insert_allocation (admitted_allocation p c nodeID now) d2 = Inr d3" and c2: "same_core d3 d4" and
    i3: "ScheduleReconcile ?req now d4 = Inr db'"
    by (auto simp: AdmitRun_def Let_def dest!: core_statements split: option.splits if_splits)
  let ?r = "admitted_run p c env now" and ?a = "admitted_allocation p c nodeID now"
  have ids: "rr_id ?r = ?rid" "ar_id ?a = ?aid" "ar_run_id ?a = ?rid" "ar_state ?a = LS_BOUND" "ar_output_expires_at ?a = None"
    by (simp_all add: admitted_run_def admitted_allocation_def Let_def freeze_allocation_output_expiry_def)
  have r: "run_row_ok ?r" "run_at db ?rid = None" "d1 = db\<lparr>db_runs := db_runs db @ [?r]\<rparr>"
    using i1 ids(1) by (auto simp: insert_run_def run_at_def split: if_splits)
  have core1: "db_allocations d2 = db_allocations db" "db_queue d2 = db_queue db" "db_runs d2 = db_runs db @ [?r]"
    using c1 r(3) by (simp_all add: same_core_def)
  have a: "allocation_row_ok ?a" "alloc_at db ?aid = None" "lookup ar_run_id ?rid (db_allocations db) = None"
    "d3 = d2\<lparr>db_allocations := db_allocations db @ [?a]\<rparr>"
    using i2 ids core1 by (auto simp: insert_allocation_def alloc_at_def split: if_splits)
  have core2: "db_runs d4 = db_runs db @ [?r]" "db_allocations d4 = db_allocations db @ [?a]" "db_queue d4 = db_queue db"
    using c2 core1 a(4) by (simp_all add: same_core_def)
  have noq: "queue_at db ?aid = None"
    using store_wf_queue [OF wf] a(2) by (metis not_None_eq queue_atD)
  let ?q = "schedule_insert ?req (if is_zero_time now then now else now) now"
  have q: "qr_id ?q = ?aid" "queue_row_ok ?q" using trim by (simp_all add: schedule_insert_def queue_row_ok_def)
  have db': "db_runs db' = db_runs db @ [?r]" "db_allocations db' = db_allocations db @ [?a]" "db_queue db' = db_queue db @ [?q]"
    using i3 noq core2 trim by (auto simp: ScheduleReconcile_def Let_def queue_at_def split: if_splits)
  have "admits (ar_id ?a) db db'"
    by (rule insert_admits [OF ok db']) (use r a q ids noq trim in \<open>simp_all add: admitted_run_def\<close>)
  then show ?thesis by (simp only: ids)
qed

section \<open>Grants and conditions\<close>

lemma IssueAllocationAccessGrant_refines:
  assumes "store_ok db" "IssueAllocationAccessGrant gid hash aid purpose ttl now db = Inr (db', g)"
  shows "refines db db'"
proof (rule refines_core [OF assms(1)])
  from assms(2) obtain n g' where g': "insert_grant g' (fst (NextAccessGrantRevision n db)) = Inr db'"
    unfolding IssueAllocationAccessGrant_def Let_def by (auto simp: case_prod_beta split: option.splits if_splits)
  show "same_core db db'"
    using NextAccessGrantRevision_core [of n db, OF surjective_pairing] g' by (auto simp: insert_grant_def same_core_def split: if_splits)
qed

lemma conditionReportLoop_core: "conditionReportLoop ul col node now reports db = Inr db' \<Longrightarrow> same_core db db'"
proof (induction reports arbitrary: db)
  case (Cons report rest)
  from Cons.prems consider "conditionReportLoop ul col node now rest db = Inr db'"
    | d where "same_core db d" "conditionReportLoop ul col node now rest d = Inr db'"
    by (auto simp: Let_def dest!: core_statements split: option.splits if_splits)
  then show ?case by cases (auto dest!: Cons.IH intro: same_core_trans)
qed simp

lemma BatchReportAllocationCapabilityConditions_refines:
  "store_ok db \<Longrightarrow> BatchReportAllocationCapabilityConditions ul col node reports now db = Inr db' \<Longrightarrow> refines db db'"
  unfolding BatchReportAllocationCapabilityConditions_def by (intro refines_core) (auto dest: conditionReportLoop_core)

lemma deleteExpiredAccessGrants_refines: "store_ok db \<Longrightarrow> refines db (deleteExpiredAccessGrants cutoff now n db)"
  by (rule refines_core) (simp_all add: deleteExpiredAccessGrants_def Let_def same_core_def)

end
