(* ===== verification/Run_Reconciler.thy ===== *)
theory Run_Reconciler
  imports Run_Refinement
begin

text \<open>
  The reconcile worker (\<open>application/run/reconciler.go\<close>) and the creation of a run
  (\<open>application/run/controller.go\<close>) on top of the store.

  Calls to the node are the record \<open>allocation_lifecycle\<close> of functions, an argument of the
  worker.  Every store call is a transaction of \<open>Run_Store\<close>; its result is committed before
  the next call, and an error leaves the database of the last commit.  The items of one claimed
  batch run in parallel in the source; they name different allocations, so the model runs them in
  the order of the batch.  \<open>at\<close> gives the time the worker reads when it acts on an item.
  Timeouts and the goroutine that renews the claim meanwhile have no state of their own; the
  renewal itself is \<open>RenewReconcileClaim\<close>.

  The lemmas show that a pass of the worker ends, and what one pass over an item achieves.
\<close>

section \<open>Calls to the node\<close>

datatype grpc_code =
    CodeOK | CodeCanceled | CodeUnknown | CodeInvalidArgument | CodeDeadlineExceeded | CodeNotFound
  | CodeAlreadyExists | CodePermissionDenied | CodeResourceExhausted | CodeFailedPrecondition | CodeAborted
  | CodeOutOfRange | CodeUnimplemented | CodeInternal | CodeUnavailable | CodeDataLoss | CodeUnauthenticated

record rpc_error =
  rpc_Code :: grpc_code
  rpc_Error :: string

record allocation_lifecycle =
  al_CreateAllocation ::
    "string \<Rightarrow> run_view \<Rightarrow> environment \<Rightarrow> string \<Rightarrow> capability_requirement list \<Rightarrow> rpc_error + condition_set option"
  al_DeleteAllocation ::
    "string \<Rightarrow> string \<Rightarrow> string \<Rightarrow> output_sealing option \<Rightarrow> snapshot_sealing option \<Rightarrow> rpc_error + snapshot_result option"
  al_AcknowledgeAllocationRelease :: "string \<Rightarrow> string \<Rightarrow> string \<Rightarrow> rpc_error option"

datatype reconcile_error = StoreError store_error | NonReconcilable string | OwnerRequired

definition commit :: "store_db \<Rightarrow> store_error + store_db \<Rightarrow> store_db \<times> reconcile_error option" where
  "commit db result = (case result of Inl e \<Rightarrow> (db, Some (StoreError e)) | Inr db' \<Rightarrow> (db', None))"

definition claimedUpdateError ::
  "store_db \<Rightarrow> store_error + store_db \<times> bool \<Rightarrow> store_db \<times> reconcile_error option" where
  "claimedUpdateError db result =
     (case result of
        Inl e \<Rightarrow> (db, Some (StoreError e))
      | Inr (db', updated) \<Rightarrow> (db', if updated then None else Some (StoreError ReconcileClaimLost)))"

section \<open>Starting an allocation\<close>

definition reconcileStart ::
  "(string \<Rightarrow> string) \<Rightarrow> (gotime \<Rightarrow> gotime) \<Rightarrow> allocation_lifecycle \<Rightarrow> reconcile_item \<Rightarrow> gotime \<Rightarrow> store_db \<Rightarrow>
   store_db \<times> reconcile_error option" where
  "reconcileStart ul col node item now db =
     (let aid = rit_AllocationID item; owner = rit_ClaimOwner item
      in case LoadStartAllocation db aid of
           Inl e \<Rightarrow>
             if e = NotFoundError then commit db (CompleteAllocationStart ul col aid owner None now db)
             else (db, Some (StoreError e))
         | Inr start \<Rightarrow>
             if IsTerminal (rr_status (fst (sa_Run start)))
             then commit db (CompleteAllocationStart ul col aid owner None now db)
             else case sa_Allocation start of (alloc, nrow, requirements) \<Rightarrow>
               (case al_CreateAllocation node (nr_target nrow) (sa_Run start) (sa_Environment start) (ar_node_id alloc) requirements of
                  Inl err \<Rightarrow>
                    (case ScheduleCreateRetryRequest aid (rit_ReconcileAttempts item) (rpc_Error err) now of
                       Some req \<Rightarrow> claimedUpdateError db (ScheduleClaimedReconcile req owner now db)
                     | None \<Rightarrow> commit db (map_sum id fst (MarkAllocationCreateFailed (ar_id alloc) owner (rpc_Error err) now db)))
                | Inr conditions \<Rightarrow> commit db (CompleteAllocationStart ul col aid owner conditions now db)))"

section \<open>Releasing an allocation\<close>

definition rootfsSnapshotFailureIsPermanent :: "rpc_error \<Rightarrow> bool" where
  "rootfsSnapshotFailureIsPermanent err \<longleftrightarrow>
     rpc_Code err \<in> {CodeFailedPrecondition, CodeInvalidArgument, CodeResourceExhausted, CodeUnimplemented}"

definition rootfsSnapshotPublicationRetry :: "rpc_error \<Rightarrow> bool" where
  "rootfsSnapshotPublicationRetry err \<longleftrightarrow> rpc_Code err = CodeAborted"

definition rootfsSnapshotFailureMessage :: "rpc_error \<Rightarrow> string" where
  "rootfsSnapshotFailureMessage err =
     (if rpc_Code err = CodeResourceExhausted then ''rootfs snapshot exceeds the node resource limit''
      else if rootfsSnapshotFailureIsPermanent err then ''rootfs snapshot sealing contract is unavailable''
      else ''rootfs snapshot publication failed after bounded retries'')"

definition reconcileDeleteRetry ::
  "(string \<Rightarrow> string) \<Rightarrow> allocation_lifecycle \<Rightarrow> reconcile_item \<Rightarrow> gotime \<Rightarrow> store_db \<Rightarrow> store_db \<times> reconcile_error option" where
  "reconcileDeleteRetry sha1_id node item now db =
     (let aid = rit_AllocationID item; owner = rit_ClaimOwner item;
          retry = (\<lambda>err d. claimedUpdateError d
                    (ScheduleClaimedReconcile (ScheduleDeleteRetryRequest aid (rpc_Error err) now) owner now d));
          delete = al_DeleteAllocation node (rit_NodeTarget item) aid (rit_NodeID item) (OutputSealingRequest item)
      in if rit_LifecycleState item = LS_RELEASED
         then (case al_AcknowledgeAllocationRelease node (rit_NodeTarget item) aid (rit_NodeID item) of
                 Some err \<Rightarrow> retry err db
               | None \<Rightarrow> commit db (CompleteAllocationReleaseAcknowledgement aid owner now db))
         else (case delete (RootfsSnapshotSealingRequest item) of
                 Inr snapshot \<Rightarrow> commit db (CompleteAllocationRelease sha1_id aid owner snapshot now db)
               | Inl err \<Rightarrow>
                   if rit_RootfsSnapshotRequested item \<and>
                      (rootfsSnapshotFailureIsPermanent err \<or>
                       rootfsSnapshotPublicationRetry err \<and> RootfsSnapshotRetryExhausted (rit_ReconcileAttempts item))
                   then (case MarkRootfsSnapshotFailed aid owner (rootfsSnapshotFailureMessage err) now db of
                           Inl e \<Rightarrow> (db, Some (StoreError e))
                         | Inr d \<Rightarrow>
                             (case delete None of
                                Inl cleanupErr \<Rightarrow> retry cleanupErr d
                              | Inr _ \<Rightarrow> commit d (CompleteAllocationRelease sha1_id aid owner None now d)))
                   else retry err db))"

definition reconcileAllocation ::
  "(string \<Rightarrow> string) \<Rightarrow> (gotime \<Rightarrow> gotime) \<Rightarrow> (string \<Rightarrow> string) \<Rightarrow> allocation_lifecycle \<Rightarrow> reconcile_item \<Rightarrow> gotime \<Rightarrow>
   store_db \<Rightarrow> store_db \<times> reconcile_error option" where
  "reconcileAllocation ul col sha1_id node item now db =
     (case ReconcileIntentForLifecycle (rit_LifecycleState item) of
        IntentEnsurePresent \<Rightarrow> reconcileStart ul col node item now db
      | IntentEnsureAbsent \<Rightarrow> reconcileDeleteRetry sha1_id node item now db
      | IntentUnspecified \<Rightarrow> (db, Some (NonReconcilable (rit_AllocationID item))))"

section \<open>A pass of the worker\<close>

fun reconcile_batch ::
  "(reconcile_item \<Rightarrow> store_db \<Rightarrow> store_db \<times> reconcile_error option) \<Rightarrow> reconcile_item list \<Rightarrow> store_db \<Rightarrow>
   store_db \<times> reconcile_error list" where
  "reconcile_batch handle [] db = (db, [])"
| "reconcile_batch handle (item # items) db =
     (case handle item db of (d, e) \<Rightarrow>
        case reconcile_batch handle items d of (db', es) \<Rightarrow> (db', (case e of None \<Rightarrow> es | Some x \<Rightarrow> x # es)))"

partial_function (option) reconcilePendingLoop ::
  "(reconcile_item \<Rightarrow> store_db \<Rightarrow> store_db \<times> reconcile_error option) \<Rightarrow> string \<Rightarrow> gotime \<Rightarrow> reconcile_error list \<Rightarrow>
   store_db \<Rightarrow> (store_db \<times> reconcile_error list) option" where
  [code]: "reconcilePendingLoop handle owner now errs db =
     (case ClaimDueReconcileItems owner ReconcileWorkerCount now ReconcileClaimTTL db of
        (d, Inl e) \<Rightarrow> Some (d, errs @ [StoreError e])
      | (d, Inr items) \<Rightarrow>
          if items = [] then Some (d, errs)
          else (case reconcile_batch handle items d of
                  (d', es) \<Rightarrow> reconcilePendingLoop handle owner now (errs @ es) d'))"

definition ReconcilePending ::
  "(string \<Rightarrow> string) \<Rightarrow> (gotime \<Rightarrow> gotime) \<Rightarrow> (string \<Rightarrow> string) \<Rightarrow> allocation_lifecycle \<Rightarrow> (reconcile_item \<Rightarrow> gotime) \<Rightarrow>
   string \<Rightarrow> gotime \<Rightarrow> store_db \<Rightarrow> (store_db \<times> reconcile_error list) option" where
  "ReconcilePending ul col sha1_id node at owner0 now db =
     (let owner = trim_space owner0
      in if owner = [] then Some (db, [OwnerRequired])
         else reconcilePendingLoop (\<lambda>item. reconcileAllocation ul col sha1_id node item (at item)) owner now [] db)"

section \<open>Creating a run\<close>

datatype create_error = CreateStore store_error | CreateConfig execution_error | CreateSelection selection_error

record create_params =
  cp_Namespace :: string
  cp_EnvironmentID :: string
  cp_Config :: "execution_config option"
  cp_Labels :: "(string \<times> string) list"

definition GetEnvironment :: "store_db \<Rightarrow> string \<Rightarrow> store_error + environment" where
  "GetEnvironment db i =
     (case lookup env_ID (trim_space i) (db_environments db) of None \<Rightarrow> Inl NotFoundError | Some e \<Rightarrow> Inr e)"

text \<open>\<open>select\<close> is the selector's answer and \<open>admit\<close> the resource admission of its
  candidates; the two identifiers are those \<open>AdmitRun\<close> draws.\<close>

definition CreateRun ::
  "(string \<Rightarrow> string) \<Rightarrow> (string \<Rightarrow> string option) \<Rightarrow>
   (environment \<Rightarrow> execution_config \<Rightarrow> selection_error + candidate list) \<Rightarrow>
   (candidate list \<Rightarrow> store_db \<Rightarrow> store_error + string \<times> capability_requirement option list) \<Rightarrow>
   string \<Rightarrow> string \<Rightarrow> create_params \<Rightarrow> gotime \<Rightarrow> store_db \<Rightarrow> create_error + store_db" where
  "CreateRun ul idna select admit runID allocationID p now db =
     (let environmentID = trim_space (cp_EnvironmentID p)
      in if environmentID = [] then Inl (CreateStore (InvalidArgument ''environment_id is required''))
         else case GetEnvironment db environmentID of
                Inl e \<Rightarrow> Inl (CreateStore e)
              | Inr env \<Rightarrow>
                  let namespace = NormalizeNamespace (cp_Namespace p)
                  in if namespace \<noteq> env_Namespace env
                     then Inl (CreateStore (InvalidArgument ''run namespace does not own environment''))
                     else case NormalizeConfigForRootfs ul idna (cp_Config p) (resolvedReadonly env) of
                            Inl e \<Rightarrow> Inl (CreateConfig e)
                          | Inr config \<Rightarrow>
                              (case select env config of
                                 Inl e \<Rightarrow> Inl (CreateSelection e)
                               | Inr candidates \<Rightarrow>
                                   map_sum CreateStore id
                                     (AdmitRun ul idna admit
                                        \<lparr>ap_RunID = runID, ap_AllocationID = allocationID, ap_Namespace = namespace,
                                         ap_EnvironmentID = env_ID env, ap_Config = Some config, ap_Labels = cp_Labels p,
                                         ap_Candidates = candidates\<rparr> now db)))"

section \<open>A pass ends\<close>

text \<open>The entries a claim at a time can take.  Acting later than that time adds none.\<close>

definition claimable_ids :: "gotime \<Rightarrow> store_db \<Rightarrow> string set" where
  "claimable_ids now db = qr_id ` {q \<in> set (db_queue db). claimable now q}"

definition quiet :: "gotime \<Rightarrow> statement \<Rightarrow> bool" where
  "quiet now s \<longleftrightarrow> (\<forall>db db'. s db = Inr db' \<longrightarrow> claimable_ids now db' \<subseteq> claimable_ids now db)"

lemma quiet_exec_all: "(\<And>s. s \<in> set ss \<Longrightarrow> quiet now s) \<Longrightarrow> quiet now (exec_all ss)"
proof (induction ss)
  case (Cons s ss)
  then have "quiet now s" "quiet now (exec_all ss)" by auto
  then show ?case unfolding quiet_def exec_all.simps bind_result_Inr_iff by blast
qed (simp add: quiet_def)

lemma quiet_same_queue: "(\<And>db db'. s db = Inr db' \<Longrightarrow> db_queue db' = db_queue db) \<Longrightarrow> quiet now s"
  by (auto simp: quiet_def claimable_ids_def)

lemma quiet_simple [simp]:
  "quiet now Inr" "quiet now (\<lambda>_. Inl e)" "quiet now (require e' p)" "quiet now (update_runs pr fr)" "quiet now (update_allocations pa fa)"
  "quiet now (publish_snapshot rid s t)"
  by (rule quiet_same_queue; auto simp: store_simps publish_snapshot_def)+

lemma quiet_core [simp]:
  "quiet now (deleteAllocationRunSecretReferences aid)" "quiet now (ReplaceCapabilityConditions ul col aid cset t)"
  "quiet now (insert_environment env)"
  by (rule quiet_same_queue; auto dest!: core_statements simp: same_core_def insert_environment_def split: if_splits)+

lemma claimable_ids_update_queue:
  assumes "update_queue p f db = Inr db'" "\<And>q. qr_id (f q) = qr_id q" "\<And>q. \<not> claimable now (f q)"
  shows "claimable_ids now db' = qr_id ` {q \<in> set (db_queue db). claimable now q \<and> \<not> p q}"
  using assms by (auto simp: claimable_ids_def store_simps set_update_where)

lemma claimable_ids_update_queue_subset:
  assumes "update_queue p f db = Inr db'" "\<And>q. qr_id (f q) = qr_id q" "\<And>q. \<not> claimable now (f q)"
  shows "claimable_ids now db' \<subseteq> claimable_ids now db"
  unfolding claimable_ids_update_queue [OF assms] by (auto simp: claimable_ids_def)

lemma quiet_delete_claimed [simp]: "quiet now (delete_claimed aid owner)"
  by (auto simp: quiet_def delete_claimed_def Let_def store_simps claimable_ids_def split: if_splits)

lemma quiet_release_for_acknowledgement: "now < t \<Longrightarrow> quiet now (release_for_acknowledgement aid owner t)"
  by (auto simp: quiet_def release_for_acknowledgement_def Let_def claimable_def
      dest!: claimable_ids_update_queue_subset [where now = now] split: if_splits)

lemma ScheduleClaimedReconcile_quiet:
  assumes "ScheduleClaimedReconcile req owner t db = Inr (db', b)" "now < t" "now < sr_NextRunAt req"
  shows "claimable_ids now db' \<subseteq> claimable_ids now db"
  using assms by (auto simp: ScheduleClaimedReconcile_def Let_def claimable_def
      dest!: claimable_ids_update_queue_subset [where now = now] split: if_splits)

lemma quiet_reschedule_claimed:
  "now < t \<Longrightarrow> now < sr_NextRunAt req \<Longrightarrow> quiet now (reschedule_claimed req owner t)"
  unfolding quiet_def reschedule_claimed_def
  by (auto split: if_splits dest: ScheduleClaimedReconcile_quiet)

lemmas quiet_intros = quiet_exec_all quiet_reschedule_claimed quiet_release_for_acknowledgement

lemma quietD: "quiet now s \<Longrightarrow> s db = Inr db' \<Longrightarrow> claimable_ids now db' \<subseteq> claimable_ids now db"
  by (simp add: quiet_def)

lemma quiet_CompleteAllocationStart [simp]: "quiet now (CompleteAllocationStart ul col aid owner conditions t)"
proof -
  have "quiet now (exec_all [RequireReconcileClaim aid owner IntentEnsurePresent t,
      if conditions = None then Inr else ReplaceCapabilityConditions ul col aid conditions t, delete_claimed aid owner])"
    by (rule quiet_exec_all) (auto simp: RequireReconcileClaim_def)
  then show ?thesis unfolding quiet_def CompleteAllocationStart_def by (simp split: if_splits)
qed

lemma quiet_MarkAllocationCreateFailed:
  assumes "MarkAllocationCreateFailed aid owner message t db = Inr (db', v)" "now < t"
  shows "claimable_ids now db' \<subseteq> claimable_ids now db"
proof -
  from assms(1) obtain pa fa pr fr req d1 d2 d3 where
    "update_allocations pa fa db = Inr d1" "update_runs pr fr d1 = Inr d2" "same_core d2 d3" and
    last: "reschedule_claimed req owner t d3 = Inr db'" "sr_NextRunAt req = t"
    by (force simp: MarkAllocationCreateFailed_def RequireReconcileClaim_def require_Inr
        dest!: core_statements split: if_splits option.splits)
  then have "db_queue d3 = db_queue db" by (simp add: store_simps same_core_def)
  then show ?thesis
    using quietD [OF quiet_reschedule_claimed [of now t req owner] last(1)] assms(2) last(2)
    by (simp add: claimable_ids_def)
qed

lemma quiet_release_snapshot: "now < t \<Longrightarrow> quiet now (release_snapshot sha1_id aid owner r snapshot t)"
  unfolding release_snapshot_def by (auto intro!: quiet_intros split: option.splits)

lemma quiet_CompleteAllocationRelease:
  assumes "now < t"
  shows "quiet now (CompleteAllocationRelease sha1_id aid owner snapshot t)"
  unfolding quiet_def
proof (intro allI impI)
  fix db db'
  let ?ss = "\<lambda>r a. [RequireReconcileClaim (trim_space aid) owner IntentEnsureAbsent t,
      require (FailedPrecondition ''allocation cannot be released from its lifecycle state'')
        (\<lambda>_. ar_state a = LS_RELEASING \<or> ar_state a = LS_RELEASED),
      if ar_state a = LS_RELEASING
      then update_allocations (\<lambda>x. ar_id x = trim_space aid) (\<lambda>x. x\<lparr>ar_state := LS_RELEASED, ar_updated_at := t\<rparr>) else Inr,
      release_snapshot sha1_id (trim_space aid) owner r snapshot t]"
  assume ran: "CompleteAllocationRelease sha1_id aid owner snapshot t db = Inr db'"
  then obtain r a where view: "runByAllocation db (trim_space aid) = Some (r, a)"
    by (cases "runByAllocation db (trim_space aid)") (auto simp: CompleteAllocationRelease_def Let_def)
  from ran have run: "exec_all (?ss r a) db = Inr db'"
    unfolding CompleteAllocationRelease_def Let_def view by (simp del: exec_all.simps)
  have "quiet now (exec_all (?ss r a))"
    by (rule quiet_exec_all) (auto simp: RequireReconcileClaim_def quiet_release_snapshot [OF assms])
  from quietD [OF this run] show "claimable_ids now db' \<subseteq> claimable_ids now db" .
qed

lemma quiet_rest [simp]:
  "quiet now (CompleteAllocationReleaseAcknowledgement aid owner t)"
  "quiet now (MarkRootfsSnapshotFailed aid owner message t)"
proof -
  show "quiet now (CompleteAllocationReleaseAcknowledgement aid owner t)"
    unfolding CompleteAllocationReleaseAcknowledgement_def RequireReconcileClaim_def by (auto intro!: quiet_exec_all)
  show "quiet now (MarkRootfsSnapshotFailed aid owner message t)"
    by (rule quiet_same_queue)
      (auto simp: MarkRootfsSnapshotFailed_def RequireReconcileClaim_def store_simps Let_def split: if_splits)
qed

lemma commit_quiet: "quiet now s \<Longrightarrow> claimable_ids now (fst (commit db (s db))) \<subseteq> claimable_ids now db"
  by (auto simp: commit_def quiet_def split: sum.splits)

lemma claimedUpdateError_quiet:
  "now < t \<Longrightarrow> now < sr_NextRunAt req \<Longrightarrow>
   claimable_ids now (fst (claimedUpdateError db (ScheduleClaimedReconcile req owner t db))) \<subseteq> claimable_ids now db"
  by (auto simp: claimedUpdateError_def split: sum.splits dest: ScheduleClaimedReconcile_quiet)

lemma create_retry_later: "ScheduleCreateRetryRequest aid attempts err t = Some req \<Longrightarrow> t < sr_NextRunAt req"
  using CreateRetryDelay_bounds(1) [of "attempts + 1"]
  by (auto simp: ScheduleCreateRetryRequest_def PlanCreateRetry_def Let_def CreateRetryInitialDelay_def second_def
      split: if_splits)

lemma reconcileStart_quiet:
  assumes "now < t"
  shows "claimable_ids now (fst (reconcileStart ul col node item t db)) \<subseteq> claimable_ids now db"
proof -
  have complete: "claimable_ids now (fst (commit db (CompleteAllocationStart ul col aid owner c t db))) \<subseteq> claimable_ids now db"
    for aid owner c by (rule commit_quiet) simp
  have mark: "claimable_ids now (fst (commit db (map_sum id fst (MarkAllocationCreateFailed aid owner m t db)))) \<subseteq> claimable_ids now db"
    for aid owner m
    using quiet_MarkAllocationCreateFailed [OF _ assms, of aid owner m db]
    by (cases "MarkAllocationCreateFailed aid owner m t db") (auto simp: commit_def)
  have retry: "claimable_ids now (fst (claimedUpdateError db (ScheduleClaimedReconcile req owner t db))) \<subseteq> claimable_ids now db"
    if "ScheduleCreateRetryRequest aid n e t = Some req" for req aid n e owner
    using claimedUpdateError_quiet [OF assms, of req db owner] create_retry_later [OF that] assms by simp
  show ?thesis
    unfolding reconcileStart_def Let_def by (simp add: complete mark retry split: sum.split option.split prod.split)
qed

lemma reconcileDeleteRetry_quiet:
  assumes "now < t"
  shows "claimable_ids now (fst (reconcileDeleteRetry sha1_id node item t db)) \<subseteq> claimable_ids now db"
proof -
  let ?aid = "rit_AllocationID item" and ?owner = "rit_ClaimOwner item"
  have retry: "claimable_ids now (fst (claimedUpdateError d (ScheduleClaimedReconcile
      (ScheduleDeleteRetryRequest ?aid e t) ?owner t d))) \<subseteq> claimable_ids now d" for d e
    using assms by (intro claimedUpdateError_quiet) (simp_all add: ScheduleDeleteRetryRequest_def DeleteRetryDelay_def second_def)
  have ack: "claimable_ids now (fst (commit d (CompleteAllocationReleaseAcknowledgement ?aid ?owner t d))) \<subseteq> claimable_ids now d" for d
    by (rule commit_quiet) simp
  have release: "claimable_ids now (fst (commit d (CompleteAllocationRelease sha1_id ?aid ?owner s t d))) \<subseteq> claimable_ids now d" for d s
    by (rule commit_quiet [OF quiet_CompleteAllocationRelease [OF assms]])
  have mark: "claimable_ids now d \<subseteq> claimable_ids now db" if "MarkRootfsSnapshotFailed ?aid ?owner m t db = Inr d" for m d
    by (rule quietD [OF quiet_rest(2) that])
  show ?thesis
    unfolding reconcileDeleteRetry_def Let_def
    by (simp add: retry ack release subset_trans [OF retry mark] subset_trans [OF release mark] split: sum.split option.split)
qed

lemma reconcileAllocation_quiet:
  "now < t \<Longrightarrow> claimable_ids now (fst (reconcileAllocation ul col sha1_id node item t db)) \<subseteq> claimable_ids now db"
  by (simp add: reconcileAllocation_def reconcileStart_quiet reconcileDeleteRetry_quiet split: reconcile_intent.split)

lemma reconcile_batch_quiet:
  assumes "\<And>item d. claimable_ids now (fst (handle item d)) \<subseteq> claimable_ids now d"
  shows "claimable_ids now (fst (reconcile_batch handle items db)) \<subseteq> claimable_ids now db"
proof (induction items arbitrary: db)
  case (Cons item items)
  have "fst (reconcile_batch handle (item # items) db) = fst (reconcile_batch handle items (fst (handle item db)))"
    by (simp add: case_prod_beta)
  with Cons.IH [of "fst (handle item db)"] assms [of item db] show ?case by auto
qed simp

text \<open>A claim that returns items takes their entries out of reach until it expires.\<close>

lemma claim_reduces:
  assumes claim: "ClaimDueReconcileItems owner limit now ttl db = (d, Inr items)" and items: "items \<noteq> []"
  shows "claimable_ids now d \<subset> claimable_ids now db"
proof -
  let ?n = "if limit \<le> 0 then DefaultReconcileLimit else limit"
  let ?cs = "claim_candidates db ?n now"
  let ?p = "\<lambda>q. qr_id q \<in> set (map (\<lambda>x. qr_id (fst x)) ?cs) \<and> claimable now q"
  let ?f = "\<lambda>q. q\<lparr>qr_claim_owner := trim_space owner, qr_claim_expires_at := Some (now + ttl), qr_updated_at := now\<rparr>"
  from claim have ttl: "0 < ttl" and upd: "update_queue ?p ?f db = Inr d"
    and its: "map_result (claimed_item db (trim_space owner)) (sort_slice (\<lambda>x y. qr_id (fst x) < qr_id (fst y)) ?cs) = Inr items"
    by (auto simp: ClaimDueReconcileItems_def Let_def split: if_splits sum.splits)
  have "?cs \<noteq> []" using its items by (cases ?cs) auto
  then obtain x where x: "x \<in> set ?cs" by (cases ?cs) auto
  have sub: "set ?cs \<subseteq> {x \<in> set (join_queue db). claimable now (fst x)}"
    by (auto simp: claim_candidates_def Let_def dest!: in_set_takeD)
  have joined: "fst y \<in> set (db_queue db)" if "y \<in> set (join_queue db)" for y
    using that by (auto simp: join_queue_def set_present bind_eq_Some_conv dest!: sym [of "Some _"])
  have new: "claimable_ids now d = qr_id ` {q \<in> set (db_queue db). claimable now q \<and> \<not> ?p q}"
    by (rule claimable_ids_update_queue [OF upd]) (use ttl in \<open>simp_all add: claimable_def\<close>)
  have "x \<in> set (join_queue db)" "claimable now (fst x)" using x sub by blast+
  with joined [OF this(1)] have "qr_id (fst x) \<in> claimable_ids now db" unfolding claimable_ids_def by blast
  moreover have "qr_id (fst x) \<notin> claimable_ids now d" unfolding new set_map using imageI [OF x, of "\<lambda>x. qr_id (fst x)"] by force
  moreover have "claimable_ids now d \<subseteq> claimable_ids now db" unfolding new by (auto simp: claimable_ids_def)
  ultimately show ?thesis by blast
qed

lemma reconcilePendingLoop_returns:
  assumes "\<And>item d. claimable_ids now (fst (handle item d)) \<subseteq> claimable_ids now d"
  shows "\<exists>result. reconcilePendingLoop handle owner now errs db = Some result"
proof (induction "card (claimable_ids now db)" arbitrary: errs db rule: less_induct)
  case less
  obtain d r where claim: "ClaimDueReconcileItems owner ReconcileWorkerCount now ReconcileClaimTTL db = (d, r)"
    by (cases "ClaimDueReconcileItems owner ReconcileWorkerCount now ReconcileClaimTTL db")
  show ?case
  proof (cases r)
    case (Inr items)
    show ?thesis
    proof (cases "items = []")
      case False
      obtain d' es where batch: "reconcile_batch handle items d = (d', es)"
        by (cases "reconcile_batch handle items d")
      have "claimable_ids now d' \<subseteq> claimable_ids now d"
        using reconcile_batch_quiet [where handle = handle and items = items and db = d and now = now, OF assms] batch by simp
      also have "\<dots> \<subset> claimable_ids now db" using claim_reduces [OF claim [unfolded Inr] False] .
      finally have "card (claimable_ids now d') < card (claimable_ids now db)"
        by (rule psubset_card_mono [rotated]) (simp add: claimable_ids_def)
      from less [OF this, of "errs @ es"] show ?thesis
        using claim Inr False batch by (subst reconcilePendingLoop.simps) simp
    qed (use claim Inr in \<open>subst reconcilePendingLoop.simps; simp\<close>)
  qed (use claim in \<open>subst reconcilePendingLoop.simps; simp\<close>)
qed

lemma ReconcilePending_returns:
  "(\<And>item. now < at item) \<Longrightarrow> \<exists>result. ReconcilePending ul col sha1_id node at owner now db = Some result"
  unfolding ReconcilePending_def Let_def
  by (simp add: reconcileAllocation_quiet reconcilePendingLoop_returns del: split_paired_Ex)

section \<open>What the worker achieves for a claimed item\<close>

lemma map_result_source: "map_result f xs = Inr ys \<Longrightarrow> y \<in> set ys \<Longrightarrow> \<exists>x\<in>set xs. f x = Inr y"
  by (induction xs arbitrary: ys) auto

lemma claimed_item_facts:
  assumes wf: "store_wf db" and claim: "ClaimDueReconcileItems owner limit now ttl db = (d, Inr items)"
    and item: "item \<in> set items"
  obtains q a r n ref where "item = scanned_item db (trim_space owner) q a r n ref" "qr_id q = ar_id a"
    "alloc_at d (ar_id a) = Some a" "run_at d (ar_run_id a) = Some r"
    "queue_at d (ar_id a) = Some (q\<lparr>qr_claim_owner := trim_space owner, qr_claim_expires_at := Some (now + ttl), qr_updated_at := now\<rparr>)"
    "lookup nr_id (ar_node_id a) (db_nodes d) = Some n" "db_environments d = db_environments db" "store_wf d"
proof -
  let ?n = "if limit \<le> 0 then DefaultReconcileLimit else limit"
  let ?cs = "claim_candidates db ?n now"
  let ?p = "\<lambda>q. qr_id q \<in> set (map (\<lambda>x. qr_id (fst x)) ?cs) \<and> claimable now q"
  let ?f = "\<lambda>q. q\<lparr>qr_claim_owner := trim_space owner, qr_claim_expires_at := Some (now + ttl), qr_updated_at := now\<rparr>"
  from claim have upd: "update_queue ?p ?f db = Inr d"
    and its: "map_result (claimed_item db (trim_space owner)) (sort_slice (\<lambda>x y. qr_id (fst x) < qr_id (fst y)) ?cs) = Inr items"
    by (auto simp: ClaimDueReconcileItems_def Let_def split: if_splits sum.splits)
  from map_result_source [OF its item]
  obtain x where x: "x \<in> set ?cs" and scanned: "claimed_item db (trim_space owner) x = Inr item"
    unfolding set_sort_slice by blast
  obtain q a r n where x_eq: "x = (q, a, r, n)" by (cases x)
  from scanned x_eq obtain ref where it: "item = scanned_item db (trim_space owner) q a r n ref"
    by (auto split: if_splits sum.splits)
  have joined: "(q, a, r, n) \<in> set (join_queue db)" and due: "claimable now q"
    using x unfolding x_eq claim_candidates_def Let_def by (auto dest!: in_set_takeD)
  then have rows: "q \<in> set (db_queue db)" "lookup ar_id (qr_id q) (db_allocations db) = Some a"
    "lookup rr_id (ar_run_id a) (db_runs db) = Some r" "lookup nr_id (ar_node_id a) (db_nodes db) = Some n"
    by (auto simp: join_queue_def set_present bind_eq_Some_conv dest!: sym [of "Some _"])
  have id: "qr_id q = ar_id a" using lookup_SomeD [OF rows(2)] by simp
  note frame = update_queue_at [OF upd]
  have "queue_at db (ar_id a) = Some q"
    using lookup_distinct [of qr_id "db_queue db" q] wf rows(1) id by (simp add: queue_at_def store_wf_def)
  then have queue: "queue_at d (ar_id a) = Some (?f q)"
    using frame(1) [of "ar_id a"] due x id by (force simp: x_eq)
  have rest: "db_nodes d = db_nodes db" "db_environments d = db_environments db" "store_wf d"
    using upd update_queue_wf [OF wf upd] by (simp_all add: store_simps)
  show thesis
    using rows id it queue rest frame(2,3) by (intro that [of q a r n ref]) (simp_all add: alloc_at_def run_at_def)
qed

text \<open>Statements that succeed, from the row they touch.\<close>

lemma update_allocations_succeeds:
  assumes "store_wf db" "alloc_at db k = Some a" "allocation_row_ok (freeze_allocation_output_expiry (Some a) (f a))"
  shows "\<exists>d. update_allocations (\<lambda>x. ar_id x = k) f db = Inr d"
proof -
  have "x = a" if "x \<in> set (db_allocations db)" "ar_id x = k" for x
    using store_wf_alloc(1) [OF assms(1) that(1)] that(2) assms(2) by simp
  then show ?thesis using assms(3) by (auto simp: store_simps)
qed

lemma update_runs_succeeds:
  assumes "store_wf db" "run_at db k = Some r" "run_row_ok (f r)"
  shows "\<exists>d. update_runs (\<lambda>x. rr_id x = k) f db = Inr d"
proof -
  have "x = r" if "x \<in> set (db_runs db)" "rr_id x = k" for x
    using lookup_distinct [of rr_id "db_runs db" x] that assms(1,2) by (simp add: store_wf_def run_at_def)
  then show ?thesis using assms(3) by (auto simp: store_simps)
qed

lemma delete_claimed_succeeds:
  assumes "store_wf db" "queue_at db k = Some q" "qr_claim_owner q = trim_space owner" "trim_space k = k"
  shows "\<exists>d. delete_claimed k owner db = Inr d"
proof -
  have "distinct (map qr_id (db_queue db))" using assms(1) by (simp add: store_wf_def)
  from rows_affected_key [OF this, of k "\<lambda>q. qr_claim_owner q = trim_space owner"] assms(2-4)
  show ?thesis by (simp add: delete_claimed_def queue_at_def delete_queue_def)
qed

lemma release_for_acknowledgement_succeeds:
  assumes wf: "store_wf db" and q: "queue_at db k = Some q" "qr_claim_owner q = trim_space owner" "qr_created_at q \<le> t"
  shows "\<exists>d. release_for_acknowledgement k owner t db = Inr d"
proof -
  have distinct: "distinct (map qr_id (db_queue db))" using wf by (simp add: store_wf_def)
  have "x = q" if "x \<in> set (db_queue db)" "qr_id x = k" for x
    using lookup_distinct [OF distinct that(1)] that(2) q(1) by (simp add: queue_at_def)
  moreover have "queue_row_ok q" using queue_atD [OF q(1)] wf by (simp add: store_wf_def rows_ok_def)
  ultimately show ?thesis
    using rows_affected_key [OF distinct, of k "\<lambda>q. qr_claim_owner q = trim_space owner"] q
    by (auto simp: release_for_acknowledgement_def queue_at_def store_simps queue_row_ok_def)
qed

text \<open>The answer a node gives to a successful deletion: an image for a requested snapshot,
  nothing otherwise.\<close>

definition sealed_as_requested :: "run_row \<Rightarrow> snapshot_result option \<Rightarrow> bool" where
  "sealed_as_requested r snapshot =
     (if snapshot_requested r
      then (case snapshot of None \<Rightarrow> False | Some s \<Rightarrow> trim_space (srs_ImageRef s) \<noteq> [] \<and> srs_ImageDescriptor s \<noteq> None)
      else snapshot = None)"

lemma publish_snapshot_succeeds:
  assumes wf: "store_wf db" and r: "run_at db (rr_id r) = Some r" and a: "alloc_at db k \<noteq> None"
    and row: "run_row_ok (r\<lparr>rr_snapshot := s, rr_version := rr_version r + 1, rr_updated_at := t\<rparr>)"
  obtains d where "publish_snapshot (rr_id r) s t db = Inr d" "store_wf d" "queue_at d = queue_at db"
proof -
  from update_runs_succeeds [OF wf r, of "\<lambda>x. x\<lparr>rr_snapshot := s, rr_version := rr_version x + 1, rr_updated_at := t\<rparr>"] row
  obtain d where d: "publish_snapshot (rr_id r) s t db = Inr d" by (auto simp: publish_snapshot_def)
  have "local_change k (rr_id r) db d" using touches_publish_snapshot d unfolding touches_def by blast
  from local_change_wf [OF wf this a] d publish_snapshot_at(2) [OF d] that show thesis by blast
qed

lemma release_snapshot_succeeds:
  assumes wf: "store_wf db" and a: "alloc_at db k \<noteq> None" and r: "run_at db (rr_id r) = Some r"
    and ended: "IsTerminal (rr_status r)" "rr_created_at r \<le> t"
    and q: "queue_at db k = Some q" "qr_claim_owner q = trim_space owner" "qr_created_at q \<le> t" and trim: "trim_space k = k"
    and sealed: "sealed_as_requested r snapshot"
    and fresh: "snapshot_requested r \<Longrightarrow> lookup env_ID (''env-'' @ sha1_id k) (db_environments db) = None"
  shows "\<exists>d. release_snapshot sha1_id k owner r snapshot t db = Inr d"
proof (cases "snapshot_requested r")
  case True
  then obtain s where s: "snapshot = Some s" "trim_space (srs_ImageRef s) \<noteq> []" "srs_ImageDescriptor s \<noteq> None"
    using sealed by (auto simp: sealed_as_requested_def split: option.splits)
  have row: "run_row_ok r" using run_atD [OF r] wf by (simp add: store_wf_def rows_ok_def)
  let ?d1 = "db\<lparr>db_environments := db_environments db @ [snapshot_environment sha1_id k r s]\<rparr>"
  have ins: "insert_environment (snapshot_environment sha1_id k r s) db = Inr ?d1"
    using fresh [OF True] by (simp add: insert_environment_def snapshot_environment_def)
  have core: "same_core db ?d1" by (simp add: same_core_def)
  note at = same_core_at [OF core]
  let ?ready = "ready_snapshot (''env-'' @ sha1_id k) s"
  have "rsr_Status ?ready = SNAP_READY" by (simp add: ready_snapshot_def)
  then have row': "run_row_ok (r\<lparr>rr_snapshot := ?ready, rr_version := rr_version r + 1, rr_updated_at := t\<rparr>)"
    using row True ended(2) by (simp add: run_row_ok_def snapshot_requested_def)
  have "store_wf ?d1" "run_at ?d1 (rr_id r) = Some r" "alloc_at ?d1 k \<noteq> None" using wf r a by (simp_all only: at not_False_eq_True)
  from publish_snapshot_succeeds [OF this row']
  obtain d2 where d2: "publish_snapshot (rr_id r) ?ready t ?d1 = Inr d2" "store_wf d2" "queue_at d2 = queue_at ?d1" .
  from release_for_acknowledgement_succeeds [OF d2(2), of k q owner t] q d2(3) at
  obtain d where "release_for_acknowledgement k owner t d2 = Inr d" by auto
  then show ?thesis
    using True s ins d2(1) by (auto simp: release_snapshot_def require_def snapshot_requested_def)
next
  case False
  then have none: "snapshot = None" using sealed by (simp add: sealed_as_requested_def)
  have row: "run_row_ok r" using run_atD [OF r] wf by (simp add: store_wf_def rows_ok_def)
  note del = delete_claimed_succeeds [OF _ _ q(2) trim]
  show ?thesis
  proof (cases "ec_RootfsSnapshot (rr_config r) \<and> rr_status r \<noteq> RUN_SUCCEEDED")
    case True
    let ?failed = "snapshot_with SNAP_FAILED ''workload did not succeed''"
    have "rsr_Status ?failed = SNAP_FAILED" by (simp add: snapshot_with_def)
    then have row': "run_row_ok (r\<lparr>rr_snapshot := ?failed, rr_version := rr_version r + 1, rr_updated_at := t\<rparr>)"
      using row True ended by (simp add: run_row_ok_def)
    from publish_snapshot_succeeds [OF wf r a row']
    obtain d1 where d1: "publish_snapshot (rr_id r) ?failed t db = Inr d1" "store_wf d1" "queue_at d1 = queue_at db" .
    from del [OF d1(2)] q(1) d1(3) obtain d where "delete_claimed k owner d1 = Inr d" by auto
    then show ?thesis using True none d1(1) by (simp add: release_snapshot_def)
  next
    case plain: False
    from del [OF wf q(1)] show ?thesis
      using plain False none by (auto simp: release_snapshot_def snapshot_requested_def)
  qed
qed

lemma CompleteAllocationRelease_succeeds:
  assumes ok: "store_ok db" and a: "alloc_at db k = Some a" "ar_state a = LS_RELEASING" and r: "run_at db (ar_run_id a) = Some r"
    and q: "queue_at db k = Some q" "claim_held (trim_space owner) t q"
    and times: "ar_created_at a \<le> t" "rr_created_at r \<le> t" "qr_created_at q \<le> t"
    and sealed: "sealed_as_requested r snapshot"
    and fresh: "snapshot_requested r \<Longrightarrow> lookup env_ID (''env-'' @ sha1_id k) (db_environments db) = None"
  shows "\<exists>d. CompleteAllocationRelease sha1_id k owner snapshot t db = Inr d"
proof -
  have wf: "store_wf db" using ok by (simp add: store_ok_def)
  have row: "a \<in> set (db_allocations db)" "ar_id a = k" using alloc_atD [OF a(1)] by auto
  have trim: "trim_space k = k" using store_wf_alloc(2) [OF wf row(1)] by (simp only: row(2))
  have rid: "rr_id r = ar_run_id a" using run_atD [OF r] by simp
  have "lc_ok (lifecycle_view a r (queue_at db k))" using store_ok_lc [OF ok] lifecycle_at_Some [OF a(1) r] by simp
  then have ended: "IsTerminal (rr_status r)" using a(2) by (simp add: lc_ok_def lifecycle_view_def IsCleanupState_def)
  let ?f = "\<lambda>x. x\<lparr>ar_state := LS_RELEASED, ar_updated_at := t\<rparr>"
  have "allocation_row_ok a" using wf row(1) by (simp add: store_wf_def rows_ok_def)
  then have "allocation_row_ok (freeze_allocation_output_expiry (Some a) (?f a))"
    using times(1) by (auto simp: allocation_row_ok_def freeze_allocation_output_expiry_def split: option.splits)
  from update_allocations_succeeds [of db k a ?f, OF wf a(1) this] obtain d1 where
    u: "update_allocations (\<lambda>x. ar_id x = k) ?f db = Inr d1" by auto
  note e = update_allocations_at [OF u]
  have "local_change k (ar_run_id a) db d1"
    using touches_update_allocations [of "\<lambda>x. ar_id x = k" k ?f] u by (simp add: touches_def)
  from local_change_wf [OF wf this] a(1) have wf1: "store_wf d1" by simp
  have envs: "db_environments d1 = db_environments db" using u by (auto simp: store_simps)
  have owner: "qr_claim_owner q = trim_space owner" using q(2) by (simp add: claim_held_def)
  have "\<exists>d. release_snapshot sha1_id k owner r snapshot t d1 = Inr d"
    using e a(1) r rid q(1) owner times ended trim sealed fresh envs
    by (intro release_snapshot_succeeds [OF wf1]) simp_all
  moreover have "runByAllocation db k = Some (r, a)" using a(1) r trim by (simp add: runByAllocation_at)
  moreover have "holds_claim k owner IntentEnsureAbsent t db"
    using a q trim by (simp add: holds_claim_at intent_accepts_def)
  ultimately show ?thesis
    using u a(2) trim by (auto simp: CompleteAllocationRelease_def Let_def RequireReconcileClaim_def require_def)
qed

lemma claimed_release_completes:
  assumes ok: "store_ok db" and claim: "ClaimDueReconcileItems owner limit now ttl db = (d, Inr items)"
    and item: "item \<in> set items" "rit_LifecycleState item = LS_RELEASING"
    and act: "t < now + ttl"
    and run: "run_at d (rit_RunID item) = Some r" "rr_created_at r \<le> t"
    and created: "\<forall>a\<in>set (db_allocations d). ar_created_at a \<le> t" "\<forall>q\<in>set (db_queue d). qr_created_at q \<le> t"
    and answer: "al_DeleteAllocation node (rit_NodeTarget item) (rit_AllocationID item) (rit_NodeID item)
       (OutputSealingRequest item) (RootfsSnapshotSealingRequest item) = Inr snapshot" "sealed_as_requested r snapshot"
    and fresh: "snapshot_requested r \<Longrightarrow> lookup env_ID (''env-'' @ sha1_id (rit_AllocationID item)) (db_environments d) = None"
  shows "\<exists>d' a. reconcileAllocation ul col sha1_id node item t d = (d', None) \<and>
     alloc_at d' (rit_AllocationID item) = Some a \<and> ar_state a = LS_RELEASED \<and> store_ok d'"
proof -
  have wf: "store_wf db" using ok by (simp add: store_ok_def)
  obtain q a r' n ref where it: "item = scanned_item db (trim_space owner) q a r' n ref" and id: "qr_id q = ar_id a" and
    at: "alloc_at d (ar_id a) = Some a" "run_at d (ar_run_id a) = Some r'"
      "queue_at d (ar_id a) = Some (q\<lparr>qr_claim_owner := trim_space owner, qr_claim_expires_at := Some (now + ttl), qr_updated_at := now\<rparr>)"
    and n: "lookup nr_id (ar_node_id a) (db_nodes d) = Some n" and envs: "db_environments d = db_environments db" and "store_wf d"
    by (rule claimed_item_facts [OF wf claim item(1)], rule that)
  let ?q = "q\<lparr>qr_claim_owner := trim_space owner, qr_claim_expires_at := Some (now + ttl), qr_updated_at := now\<rparr>"
  have fields: "rit_AllocationID item = ar_id a" "rit_ClaimOwner item = trim_space owner" "rit_RunID item = ar_run_id a"
    using it id by (simp_all add: scanned_item_def)
  have state: "ar_state a = LS_RELEASING" and r: "r' = r"
    using it item(2) at(2) run(1) fields(3) by (simp_all add: scanned_item_def)
  have okd: "store_ok d" by (rule refines_ok [OF ok ClaimDueReconcileItems_refines [OF ok claim]])
  have held: "claim_held (trim_space (trim_space owner)) t ?q" using act by (simp add: claim_held_def)
  have times: "ar_created_at a \<le> t" "qr_created_at ?q \<le> t"
    using created alloc_atD [OF at(1)] queue_atD [OF at(3)] by (blast, blast)
  obtain d' where d': "CompleteAllocationRelease sha1_id (ar_id a) (trim_space owner) snapshot t d = Inr d'"
    using CompleteAllocationRelease_succeeds [OF okd at(1) state at(2) at(3) held times(1) _ times(2), of snapshot sha1_id]
      run(2) answer(2) fresh by (auto simp: fields(1) r)
  note done_ = CompleteAllocationRelease_refines [OF okd d']
  have "reconcileAllocation ul col sha1_id node item t d = (d', None)"
    using d' answer(1) fields item(2)
    by (simp add: reconcileAllocation_def ReconcileIntentForLifecycle_def reconcileDeleteRetry_def Let_def commit_def)
  moreover have "trim_space (ar_id a) = ar_id a"
    using store_wf_alloc(2) [of d a] alloc_atD [OF at(1)] okd by (simp add: store_ok_def)
  ultimately show ?thesis
    using done_(2) refines_ok [OF okd done_(1)] fields(1) by auto
qed

end
