(* ===== verification/Run_System.thy ===== *)
theory Run_System
  imports Run_Reconciler
begin

text \<open>
  The control plane as a transition system: any number of API servers, reconcile workers,
  operators and retention jobs whose transactions interleave.  A state is the database with the
  work items handed out so far and the allocation identifiers drawn so far; the last two are what
  the processes themselves remember.  The calls a worker makes to a node happen between its
  transactions, so other steps may come in between.

  The locale \<open>lifecycle_simulation\<close> says what a transition system must show to follow an
  abstract machine, and what follows for its reachable states.  It is interpreted for the
  control plane and the lifecycle machine.  The properties of the run store rest on that
  interpretation.
\<close>

section \<open>Simulation\<close>

locale lifecycle_simulation =
  fixes cstep :: "'c \<Rightarrow> 'c \<Rightarrow> bool" and astep :: "'a \<Rightarrow> 'a \<Rightarrow> bool"
    and inv :: "'c \<Rightarrow> bool" and absf :: "'c \<Rightarrow> 'k \<Rightarrow> 'a"
  assumes inv_step: "inv c \<Longrightarrow> cstep c c' \<Longrightarrow> inv c'"
    and simulates: "inv c \<Longrightarrow> cstep c c' \<Longrightarrow> astep\<^sup>*\<^sup>* (absf c k) (absf c' k)"
begin

lemma inv_steps: "cstep\<^sup>*\<^sup>* c c' \<Longrightarrow> inv c \<Longrightarrow> inv c'"
  by (induction rule: rtranclp_induct) (auto intro: inv_step)

lemma simulates_steps:
  assumes "cstep\<^sup>*\<^sup>* c c'" "inv c"
  shows "astep\<^sup>*\<^sup>* (absf c k) (absf c' k)"
  using assms
proof (induction rule: rtranclp_induct)
  case (step d e)
  then show ?case using simulates [OF inv_steps [OF step.hyps(1)]] by (metis rtranclp_trans)
qed simp

lemma invariant_steps:
  assumes "cstep\<^sup>*\<^sup>* c c'" "inv c" "P c" and "\<And>d e. inv d \<Longrightarrow> cstep d e \<Longrightarrow> P d \<Longrightarrow> P e"
  shows "P c'"
  using assms(1)
proof (induction rule: rtranclp_induct)
  case (step d e)
  then show ?case using assms(4) [OF inv_steps [OF step.hyps(1) assms(2)]] by blast
qed (rule assms(3))

end

section \<open>Transactions and steps\<close>

record control_plane =
  cs_db :: store_db
  cs_items :: "reconcile_item set"
  cs_used :: "string set"

text \<open>The transactions on runs and allocations that exist, with any arguments; \<open>other\<close>
  stands for those of the tables that the run store does not own.\<close>

inductive transaction :: "store_db \<Rightarrow> store_db \<Rightarrow> bool" where
  cancel: "CancelRun runID now db = Inr (db', v) \<Longrightarrow> transaction db db'"
| create_failed: "MarkAllocationCreateFailed aid owner message now db = Inr (db', v) \<Longrightarrow> transaction db db'"
| started: "CompleteAllocationStart ul col aid owner conditions now db = Inr db' \<Longrightarrow> transaction db db'"
| released: "CompleteAllocationRelease sha1_id aid owner snapshot now db = Inr db' \<Longrightarrow> transaction db db'"
| snapshot_failed: "MarkRootfsSnapshotFailed aid owner message now db = Inr db' \<Longrightarrow> transaction db db'"
| reported: "BatchReportAllocationLifecycle nodeID observations now db = Inr db' \<Longrightarrow> transaction db db'"
| inventory: "ReconcileNodeInventory snap now db = (db', e) \<Longrightarrow> transaction db db'"
| unavailable: "ReconcileNodeUnavailable nodeID now db = (db', e) \<Longrightarrow> transaction db db'"
| conditions: "BatchReportAllocationCapabilityConditions ul col nodeID reports now db = Inr db' \<Longrightarrow> transaction db db'"
| grant: "IssueAllocationAccessGrant grantID hash aid purpose ttl now db = Inr (db', g) \<Longrightarrow> transaction db db'"
| renew: "RenewReconcileClaim aid owner intent now ttl db = Inr (db', held) \<Longrightarrow> transaction db db'"
| reschedule: "ScheduleClaimedReconcile req owner now db = Inr (db', b) \<Longrightarrow> transaction db db'"
| force: "ForceAllocationLifecycleRetry freq now db = Inr (db', x) \<Longrightarrow> transaction db db'"
| fail: "FailAllocationLifecycleRetry oreq now db = Inr (db', x) \<Longrightarrow> transaction db db'"
| clear: "ClearAllocationLifecycleRetry oreq now db = Inr (db', x) \<Longrightarrow> transaction db db'"
| retain_runs: "db' = deleteTerminalRuns cutoff now n db \<Longrightarrow> transaction db db'"
| retain_grants: "db' = deleteExpiredAccessGrants cutoff now n db \<Longrightarrow> transaction db db'"
| other: "same_core db db' \<Longrightarrow> transaction db db'"

inductive sys_step :: "control_plane \<Rightarrow> control_plane \<Rightarrow> bool" where
  sys_transaction: "transaction (cs_db s) db' \<Longrightarrow> sys_step s (s\<lparr>cs_db := db'\<rparr>)"
| sys_admit: "AdmitRun ul idna admit p now (cs_db s) = Inr db' \<Longrightarrow>
     trim_space (ap_RunID p) = ap_RunID p \<Longrightarrow> trim_space (ap_AllocationID p) = ap_AllocationID p \<Longrightarrow>
     ap_AllocationID p \<notin> cs_used s \<Longrightarrow>
     sys_step s (s\<lparr>cs_db := db', cs_used := insert (ap_AllocationID p) (cs_used s)\<rparr>)"
| sys_claim: "ClaimDueReconcileItems owner limit now ttl (cs_db s) = (db', result) \<Longrightarrow>
     sys_step s (s\<lparr>cs_db := db', cs_items := cs_items s \<union> (case result of Inl _ \<Rightarrow> {} | Inr items \<Rightarrow> set items)\<rparr>)"
| sys_acknowledge: "item \<in> cs_items s \<Longrightarrow> rit_LifecycleState item = LS_RELEASED \<Longrightarrow>
     CompleteAllocationReleaseAcknowledgement (rit_AllocationID item) owner now (cs_db s) = Inr db' \<Longrightarrow>
     sys_step s (s\<lparr>cs_db := db'\<rparr>)"

definition sys_init :: "control_plane \<Rightarrow> bool" where
  "sys_init s \<longleftrightarrow>
     db_runs (cs_db s) = [] \<and> db_allocations (cs_db s) = [] \<and> db_queue (cs_db s) = [] \<and> cs_items s = {} \<and> cs_used s = {}"

lemma transaction_refines: "transaction db db' \<Longrightarrow> store_ok db \<Longrightarrow> refines db db'"
  by (induction rule: transaction.induct)
    (auto intro: CancelRun_refines MarkAllocationCreateFailed_refines CompleteAllocationStart_refines
      CompleteAllocationRelease_refines(1) MarkRootfsSnapshotFailed_refines BatchReportAllocationLifecycle_refines
      ReconcileNodeInventory_refines ReconcileNodeUnavailable_refines BatchReportAllocationCapabilityConditions_refines
      IssueAllocationAccessGrant_refines RenewReconcileClaim_refines ScheduleClaimedReconcile_refines
      ForceAllocationLifecycleRetry_refines FailAllocationLifecycleRetry_refines ClearAllocationLifecycleRetry_refines
      deleteTerminalRuns_refines deleteExpiredAccessGrants_refines refines_core)

section \<open>The invariant\<close>

definition item_ok :: "control_plane \<Rightarrow> reconcile_item \<Rightarrow> bool" where
  "item_ok s i \<longleftrightarrow>
     rit_AllocationID i \<in> cs_used s \<and> trim_space (rit_AllocationID i) = rit_AllocationID i \<and>
     (rit_LifecycleState i = LS_RELEASED \<longrightarrow>
        (\<forall>l. lifecycle_at (cs_db s) (rit_AllocationID i) = Some l \<longrightarrow> lc_state l = LS_RELEASED))"

definition sys_ok :: "control_plane \<Rightarrow> bool" where
  "sys_ok s \<longleftrightarrow>
     store_ok (cs_db s) \<and> (\<forall>k. k \<notin> cs_used s \<longrightarrow> lifecycle_at (cs_db s) k = None) \<and> (\<forall>i\<in>cs_items s. item_ok s i)"

lemma lc_moves_None: "lc_move\<^sup>*\<^sup>* None l \<Longrightarrow> l = None"
  by (induction rule: rtranclp_induct) (auto simp: lc_move_def)

lemma lc_step_released:
  "lc_step (Some l) (Some l') \<Longrightarrow> lc_state l = LS_RELEASED \<Longrightarrow> lc_state l' = LS_RELEASED"
  by (erule lc_step_SomeE) (simp_all add: live_state_def)

lemma lc_moves_released:
  assumes "lc_move\<^sup>*\<^sup>* l l'" and "\<forall>x. l = Some x \<longrightarrow> lc_state x = LS_RELEASED"
  shows "\<forall>x. l' = Some x \<longrightarrow> lc_state x = LS_RELEASED"
  using assms(1)
proof (induction rule: rtranclp_induct)
  case base
  show ?case by (rule assms(2))
next
  case (step m n)
  from step.hyps(2) obtain x where x: "m = Some x" "lc_step (Some x) n" unfolding lc_move_def by auto
  with step.IH have "lc_state x = LS_RELEASED" by simp
  with x(2) show ?case by (auto dest: lc_step_released)
qed

lemma refines_sys_ok:
  assumes "sys_ok s" "refines (cs_db s) db'"
  shows "sys_ok (s\<lparr>cs_db := db'\<rparr>)"
proof -
  have moves: "lc_move\<^sup>*\<^sup>* (lifecycle_at (cs_db s) k) (lifecycle_at db' k)" for k
    using assms(2) by (simp add: refines_def)
  have "store_ok (cs_db s)" using assms(1) by (simp add: sys_ok_def)
  then have ok: "store_ok db'" by (rule refines_ok [OF _ assms(2)])
  have unused: "lifecycle_at db' k = None" if "k \<notin> cs_used s" for k
  proof -
    have "lifecycle_at (cs_db s) k = None" using assms(1) that by (simp add: sys_ok_def)
    with moves [of k] show ?thesis by (simp add: lc_moves_None)
  qed
  have "item_ok (s\<lparr>cs_db := db'\<rparr>) i" if "i \<in> cs_items s" for i
  proof -
    have i: "item_ok s i" using assms(1) that by (simp add: sys_ok_def)
    have "\<forall>l. lifecycle_at db' (rit_AllocationID i) = Some l \<longrightarrow> lc_state l = LS_RELEASED"
      if "rit_LifecycleState i = LS_RELEASED"
      by (rule lc_moves_released [OF moves]) (use i that in \<open>unfold item_ok_def, blast\<close>)
    moreover have "cs_db (s\<lparr>cs_db := db'\<rparr>) = db'" "cs_used (s\<lparr>cs_db := db'\<rparr>) = cs_used s" by simp_all
    ultimately show ?thesis using i unfolding item_ok_def by simp
  qed
  with ok unused show ?thesis unfolding sys_ok_def by simp
qed

lemma lifecycle_state_alloc:
  assumes "store_wf db" "alloc_at db k = Some a"
  obtains l where "lifecycle_at db k = Some l" "lc_state l = ar_state a"
  using store_wf_alloc(4) [OF assms(1), of a] alloc_atD [OF assms(2)] assms(2) that
  by (auto simp: lifecycle_at_def lifecycle_view_def)

lemma admits_ok:
  assumes "store_ok db" "admits aid db db'"
  shows "store_ok db'"
  unfolding store_ok_def
proof (intro conjI allI)
  show "store_wf db'" using assms(2) by (simp add: admits_def)
  fix k
  show "pred_option lc_ok (lifecycle_at db' k)"
  proof (cases "k = aid")
    case True
    then have "lc_step None (lifecycle_at db' k)" using assms(2) by (simp add: admits_def)
    then show ?thesis by (rule lc_step_ok) simp
  next
    case False
    then have "lifecycle_at db' k = lifecycle_at db k" using assms(2) by (simp add: admits_def)
    then show ?thesis using assms(1) by (simp add: store_ok_def)
  qed
qed

lemma admits_sys_ok:
  assumes ok: "sys_ok s" and adm: "admits aid (cs_db s) db'" and fresh: "aid \<notin> cs_used s"
  shows "sys_ok (s\<lparr>cs_db := db', cs_used := insert aid (cs_used s)\<rparr>)"
proof -
  let ?s = "s\<lparr>cs_db := db', cs_used := insert aid (cs_used s)\<rparr>"
  have same: "lifecycle_at db' k = lifecycle_at (cs_db s) k" if "k \<noteq> aid" for k
    using adm that by (simp add: admits_def)
  have "store_ok db'" using ok admits_ok [OF _ adm] by (simp add: sys_ok_def)
  moreover have "lifecycle_at db' k = None" if "k \<notin> insert aid (cs_used s)" for k
    using ok that same [of k] by (simp add: sys_ok_def)
  moreover have "item_ok ?s i" if "i \<in> cs_items s" for i
  proof -
    have i: "item_ok s i" using ok that by (simp add: sys_ok_def)
    then have "rit_AllocationID i \<noteq> aid" using fresh by (auto simp: item_ok_def)
    with i same [of "rit_AllocationID i"] show ?thesis by (simp add: item_ok_def)
  qed
  ultimately show ?thesis unfolding sys_ok_def by simp
qed

lemma claimed_items_ok:
  assumes ok: "sys_ok s" and claim: "ClaimDueReconcileItems owner limit now ttl (cs_db s) = (d, Inr items)"
    and item: "i \<in> set items"
  shows "item_ok (s\<lparr>cs_db := d\<rparr>) i"
proof -
  have wf: "store_wf (cs_db s)" and sok: "store_ok (cs_db s)" using ok by (simp_all add: sys_ok_def store_ok_def)
  have ok': "sys_ok (s\<lparr>cs_db := d\<rparr>)" by (rule refines_sys_ok [OF ok ClaimDueReconcileItems_refines [OF sok claim]])
  obtain q a r n ref where it: "i = scanned_item (cs_db s) (trim_space owner) q a r n ref" "qr_id q = ar_id a" and
    at: "alloc_at d (ar_id a) = Some a" "run_at d (ar_run_id a) = Some r" and wfd: "store_wf d"
    by (rule claimed_item_facts [OF wf claim item])
  have fields: "rit_AllocationID i = ar_id a" "rit_LifecycleState i = ar_state a" using it by (simp_all add: scanned_item_def)
  have view: "lifecycle_at d (ar_id a) = Some (lifecycle_view a r (queue_at d (ar_id a)))"
    by (rule lifecycle_at_Some [OF at])
  have "ar_id a \<in> cs_used s"
  proof (rule ccontr)
    assume "ar_id a \<notin> cs_used s"
    then have "lifecycle_at d (ar_id a) = None" using ok' by (simp add: sys_ok_def)
    with view show False by simp
  qed
  moreover have "trim_space (ar_id a) = ar_id a" using store_wf_alloc(2) [OF wfd] alloc_atD [OF at(1)] by blast
  ultimately show ?thesis using view by (simp add: item_ok_def fields lifecycle_view_def)
qed

lemma sys_step_cases_ok:
  assumes ok: "sys_ok s" and step: "sys_step s s'"
  shows "sys_ok s' \<and> (refines (cs_db s) (cs_db s') \<and> cs_used s' = cs_used s \<or>
     (\<exists>aid. admits aid (cs_db s) (cs_db s') \<and> aid \<notin> cs_used s \<and> cs_used s' = insert aid (cs_used s)))"
  using step
proof cases
  case (sys_transaction db')
  have "refines (cs_db s) db'" using transaction_refines [OF sys_transaction(2)] ok by (simp add: sys_ok_def)
  with refines_sys_ok [OF ok this] sys_transaction(1) show ?thesis by simp
next
  case (sys_admit ul idna admit p now db')
  have "admits (ap_AllocationID p) (cs_db s) db'"
    using AdmitRun_admits [OF _ sys_admit(2-4)] ok by (simp add: sys_ok_def)
  with admits_sys_ok [OF ok this sys_admit(5)] sys_admit(1,5) show ?thesis by auto
next
  case (sys_claim owner limit now ttl db' result)
  have ref: "refines (cs_db s) db'" using ClaimDueReconcileItems_refines [OF _ sys_claim(2)] ok by (simp add: sys_ok_def)
  note ok' = refines_sys_ok [OF ok ref]
  have "item_ok (s\<lparr>cs_db := db'\<rparr>) i" if "i \<in> (case result of Inl _ \<Rightarrow> {} | Inr items \<Rightarrow> set items)" for i
    using that claimed_items_ok [OF ok] sys_claim(2) by (cases result) auto
  with ok' have "sys_ok s'" unfolding sys_claim(1) sys_ok_def by (auto simp: item_ok_def)
  with ref sys_claim(1) show ?thesis by simp
next
  case (sys_acknowledge item owner now db')
  have "item_ok s item" using ok sys_acknowledge(2) by (simp add: sys_ok_def)
  then have trim: "trim_space (rit_AllocationID item) = rit_AllocationID item" and
    rel: "\<forall>l. lifecycle_at (cs_db s) (rit_AllocationID item) = Some l \<longrightarrow> lc_state l = LS_RELEASED"
    using sys_acknowledge(3) by (simp_all add: item_ok_def)
  have sok: "store_ok (cs_db s)" "store_wf (cs_db s)" using ok by (simp_all add: sys_ok_def store_ok_def)
  have "ar_state a = LS_RELEASED" if "alloc_at (cs_db s) (trim_space (rit_AllocationID item)) = Some a" for a
    using lifecycle_state_alloc [OF sok(2) that] rel trim by metis
  then have ref: "refines (cs_db s) db'"
    by (rule CompleteAllocationReleaseAcknowledgement_refines [OF sok(1) sys_acknowledge(4)])
  with refines_sys_ok [OF ok ref] sys_acknowledge(1) show ?thesis by simp
qed

lemma sys_step_simulates:
  assumes "sys_ok s" "sys_step s s'"
  shows "lc_step\<^sup>*\<^sup>* (lifecycle_at (cs_db s) k) (lifecycle_at (cs_db s') k)"
proof -
  from sys_step_cases_ok [OF assms] consider "refines (cs_db s) (cs_db s')" | aid where "admits aid (cs_db s) (cs_db s')" by blast
  then show ?thesis
  proof cases
    case 1
    then show ?thesis by (simp add: refines_def lc_moves_steps)
  next
    case (2 aid)
    then show ?thesis by (cases "k = aid") (auto simp: admits_def)
  qed
qed

interpretation cp: lifecycle_simulation sys_step lc_step sys_ok "\<lambda>s. lifecycle_at (cs_db s)"
  by unfold_locales (use sys_step_cases_ok sys_step_simulates in blast)+

lemma sys_init_ok: "sys_init s \<Longrightarrow> sys_ok s"
  by (auto simp: sys_init_def sys_ok_def store_ok_def store_wf_def rows_ok_def lifecycle_at_def alloc_at_def)

section \<open>What later states keep\<close>

lemma lc_moves_follow:
  assumes "lc_move\<^sup>*\<^sup>* (Some l) x" "lc_ok l"
  shows "\<forall>l'. x = Some l' \<longrightarrow> lc_ok l' \<and> lc_follows l l'"
  using assms(1)
proof (induction rule: rtranclp_induct)
  case base
  then show ?case using assms(2) by simp
next
  case (step m n)
  from step.hyps(2) obtain y where y: "m = Some y" "lc_step (Some y) n" unfolding lc_move_def by auto
  with step.IH have ok: "lc_ok y" "lc_follows l y" by simp_all
  show ?case
  proof (intro allI impI)
    fix z
    assume z: "n = Some z"
    with y(2) have "lc_step (Some y) (Some z)" by simp
    from lc_step_ok [OF this] lc_step_follows [OF this ok(1)] ok show "lc_ok z \<and> lc_follows l z"
      using lc_follows_trans by simp
  qed
qed

lemma sys_steps_follow:
  assumes ok: "sys_ok s" and steps: "sys_step\<^sup>*\<^sup>* s s'"
    and l: "lifecycle_at (cs_db s) k = Some l" "lifecycle_at (cs_db s') k = Some l'"
  shows "lc_follows l l'"
proof -
  let ?P = "\<lambda>s. k \<in> cs_used s \<and> (\<forall>x. lifecycle_at (cs_db s) k = Some x \<longrightarrow> lc_follows l x)"
  have "k \<in> cs_used s" using ok l(1) unfolding sys_ok_def by fastforce
  then have start: "?P s" using l(1) by simp
  have "?P s'"
  proof (rule cp.invariant_steps [where P = ?P, OF steps ok start])
    fix d e
    assume d: "sys_ok d" "sys_step d e" "?P d"
    from sys_step_cases_ok [OF d(1,2)] consider
      "refines (cs_db d) (cs_db e)" "cs_used e = cs_used d"
    | aid where "admits aid (cs_db d) (cs_db e)" "aid \<notin> cs_used d" "cs_used e = insert aid (cs_used d)" by blast
    then show "?P e"
    proof cases
      case 1
      then have moves: "lc_move\<^sup>*\<^sup>* (lifecycle_at (cs_db d) k) (lifecycle_at (cs_db e) k)" by (simp add: refines_def)
      show ?thesis
      proof (cases "lifecycle_at (cs_db d) k")
        case None
        then have "lifecycle_at (cs_db e) k = None" using moves lc_moves_None by simp
        then show ?thesis using d(3) 1(2) by simp
      next
        case (Some y)
        have "lc_ok y" using d(1) store_ok_lc [OF _ Some] by (simp add: sys_ok_def)
        from lc_moves_follow [OF moves [unfolded Some] this] d(3) Some 1(2) lc_follows_trans show ?thesis by simp blast
      qed
    next
      case (2 aid)
      then have "lifecycle_at (cs_db e) k = lifecycle_at (cs_db d) k" using d(3) by (auto simp: admits_def)
      with d(3) 2(3) show ?thesis by simp
    qed
  qed
  then show ?thesis using l(2) by simp
qed

section \<open>The worker's handlers are steps\<close>

lemma transactions_steps: "transaction\<^sup>*\<^sup>* (cs_db s) db' \<Longrightarrow> sys_step\<^sup>*\<^sup>* s (s\<lparr>cs_db := db'\<rparr>)"
proof (induction rule: rtranclp_induct)
  case (step d e)
  have "sys_step (s\<lparr>cs_db := d\<rparr>) (s\<lparr>cs_db := d\<rparr>\<lparr>cs_db := e\<rparr>)"
    by (rule sys_transaction) (simp add: step.hyps(2))
  with step.IH show ?case by simp
qed simp

lemma commit_transactions:
  "(\<And>d. r = Inr d \<Longrightarrow> transaction db d) \<Longrightarrow> transaction\<^sup>*\<^sup>* db (fst (commit db r))"
  by (cases r) (auto simp: commit_def)

lemma claimedUpdate_transactions:
  "transaction\<^sup>*\<^sup>* db (fst (claimedUpdateError db (ScheduleClaimedReconcile req owner t db)))"
proof (cases "ScheduleClaimedReconcile req owner t db")
  case (Inr x)
  obtain d b where "x = (d, b)" by (cases x)
  with Inr have "transaction db d" by (auto intro: reschedule)
  then show ?thesis using Inr \<open>x = (d, b)\<close> by (simp add: claimedUpdateError_def)
qed (simp add: claimedUpdateError_def)

lemma reconcileStart_transactions: "transaction\<^sup>*\<^sup>* db (fst (reconcileStart ul col node item t db))"
proof -
  have complete: "transaction\<^sup>*\<^sup>* db (fst (commit db (CompleteAllocationStart ul col aid owner c t db)))" for aid owner c
    by (rule commit_transactions) (rule started)
  have mark: "transaction\<^sup>*\<^sup>* db (fst (commit db (map_sum id fst (MarkAllocationCreateFailed aid owner m t db))))" for aid owner m
    by (rule commit_transactions)
      (cases "MarkAllocationCreateFailed aid owner m t db"; auto intro: create_failed)
  show ?thesis
    unfolding reconcileStart_def Let_def
    by (simp add: complete mark claimedUpdate_transactions split: sum.split option.split prod.split)
qed

lemma reconcileDeleteRetry_steps:
  assumes item: "item \<in> cs_items s"
  shows "sys_step\<^sup>*\<^sup>* s (s\<lparr>cs_db := fst (reconcileDeleteRetry sha1_id node item t (cs_db s))\<rparr>)"
proof -
  let ?aid = "rit_AllocationID item" and ?owner = "rit_ClaimOwner item" and ?db = "cs_db s"
  have ack: "sys_step\<^sup>*\<^sup>* s (s\<lparr>cs_db := fst (commit ?db (CompleteAllocationReleaseAcknowledgement ?aid ?owner t ?db))\<rparr>)"
    if "rit_LifecycleState item = LS_RELEASED"
    using sys_acknowledge [OF item that, of ?owner t]
    by (cases "CompleteAllocationReleaseAcknowledgement ?aid ?owner t ?db") (auto simp: commit_def)
  have release: "transaction\<^sup>*\<^sup>* d (fst (commit d (CompleteAllocationRelease sha1_id ?aid ?owner snap t d)))" for d snap
    by (rule commit_transactions) (rule released)
  have mark: "transaction\<^sup>*\<^sup>* ?db d" if "MarkRootfsSnapshotFailed ?aid ?owner m t ?db = Inr d" for m d
    using snapshot_failed [OF that] by blast
  show ?thesis
    unfolding reconcileDeleteRetry_def Let_def
    by (simp add: ack transactions_steps claimedUpdate_transactions release rtranclp_trans [OF mark claimedUpdate_transactions]
        rtranclp_trans [OF mark release] split: sum.split option.split)
qed

lemma reconcileAllocation_steps:
  "item \<in> cs_items s \<Longrightarrow> sys_step\<^sup>*\<^sup>* s (s\<lparr>cs_db := fst (reconcileAllocation ul col sha1_id node item t (cs_db s))\<rparr>)"
  by (simp add: reconcileAllocation_def transactions_steps reconcileStart_transactions reconcileDeleteRetry_steps
      split: reconcile_intent.split)

text \<open>A whole pass of the worker is a sequence of steps.\<close>

lemma reconcile_batch_steps:
  assumes "set items \<subseteq> cs_items s"
  shows "sys_step\<^sup>*\<^sup>* s (s\<lparr>cs_db := fst (reconcile_batch (\<lambda>item. reconcileAllocation ul col sha1_id node item (at item)) items (cs_db s))\<rparr>)"
  using assms
proof (induction items arbitrary: s)
  case (Cons item items)
  let ?h = "\<lambda>item. reconcileAllocation ul col sha1_id node item (at item)"
  let ?d = "fst (?h item (cs_db s))"
  have "sys_step\<^sup>*\<^sup>* s (s\<lparr>cs_db := ?d\<rparr>)" using Cons.prems by (intro reconcileAllocation_steps) simp
  moreover have "sys_step\<^sup>*\<^sup>* (s\<lparr>cs_db := ?d\<rparr>) (s\<lparr>cs_db := fst (reconcile_batch ?h items ?d)\<rparr>)"
    using Cons.IH [of "s\<lparr>cs_db := ?d\<rparr>"] Cons.prems by simp
  moreover have "fst (reconcile_batch ?h (item # items) (cs_db s)) = fst (reconcile_batch ?h items ?d)"
    by (simp add: case_prod_beta)
  ultimately show ?case by (simp add: rtranclp_trans)
qed simp

lemma reconcilePendingLoop_steps:
  assumes "reconcilePendingLoop (\<lambda>item. reconcileAllocation ul col sha1_id node item (at item)) owner now errs db = Some result"
  shows "\<forall>s. cs_db s = db \<longrightarrow> (\<exists>s'. sys_step\<^sup>*\<^sup>* s s' \<and> cs_db s' = fst result)"
proof -
  let ?h = "\<lambda>item. reconcileAllocation ul col sha1_id node item (at item)"
  let ?P = "\<lambda>h owner now errs db result. h = ?h \<longrightarrow> (\<forall>s. cs_db s = db \<longrightarrow> (\<exists>s'. sys_step\<^sup>*\<^sup>* s s' \<and> cs_db s' = fst result))"
  have "?P ?h owner now errs db result"
  proof (rule reconcilePendingLoop.raw_induct [OF _ assms, of ?P], intro impI allI)
    fix loop h owner now errs db result and s :: control_plane
    assume IH: "\<And>h owner now errs db y. loop h owner now errs db = Some y \<Longrightarrow> ?P h owner now errs db y"
      and body: "(case ClaimDueReconcileItems owner ReconcileWorkerCount now ReconcileClaimTTL db of
          (d, Inl e) \<Rightarrow> Some (d, errs @ [StoreError e])
        | (d, Inr items) \<Rightarrow> if items = [] then Some (d, errs)
            else case reconcile_batch h items d of (d', es) \<Rightarrow> loop h owner now (errs @ es) d') = Some result"
      and h: "h = ?h" and s: "cs_db s = db"
    obtain d r where claim: "ClaimDueReconcileItems owner ReconcileWorkerCount now ReconcileClaimTTL (cs_db s) = (d, r)"
      by (cases "ClaimDueReconcileItems owner ReconcileWorkerCount now ReconcileClaimTTL (cs_db s)")
    let ?s = "s\<lparr>cs_db := d, cs_items := cs_items s \<union> (case r of Inl _ \<Rightarrow> {} | Inr items \<Rightarrow> set items)\<rparr>"
    have first: "sys_step s ?s" by (rule sys_claim [OF claim])
    show "\<exists>s'. sys_step\<^sup>*\<^sup>* s s' \<and> cs_db s' = fst result"
    proof (cases "\<exists>items. r = Inr items \<and> items \<noteq> []")
      case False
      then have "fst result = d" using body claim s by (auto split: sum.splits if_splits)
      with first show ?thesis by (intro exI [of _ ?s]) auto
    next
      case True
      then obtain items where items: "r = Inr items" "items \<noteq> []" by blast
      obtain d' es where batch: "reconcile_batch ?h items d = (d', es)" by (cases "reconcile_batch ?h items d")
      have batch_steps: "sys_step\<^sup>*\<^sup>* ?s (?s\<lparr>cs_db := d'\<rparr>)"
        using reconcile_batch_steps [of items ?s ul col sha1_id node at] items(1) batch by simp
      have "loop ?h owner now (errs @ es) d' = Some result"
        using body claim s h items batch by simp
      with IH have "\<forall>s. cs_db s = d' \<longrightarrow> (\<exists>s'. sys_step\<^sup>*\<^sup>* s s' \<and> cs_db s' = fst result)" by blast
      moreover have "cs_db (?s\<lparr>cs_db := d'\<rparr>) = d'" by simp
      ultimately obtain s' where "sys_step\<^sup>*\<^sup>* (?s\<lparr>cs_db := d'\<rparr>) s'" "cs_db s' = fst result" by blast
      with batch_steps first show ?thesis by (meson converse_rtranclp_into_rtranclp rtranclp_trans)
    qed
  qed
  then show ?thesis by simp
qed

lemma ReconcilePending_steps:
  assumes "ReconcilePending ul col sha1_id node at owner now (cs_db s) = Some (db', errs)"
  shows "\<exists>s'. sys_step\<^sup>*\<^sup>* s s' \<and> cs_db s' = db'"
  using assms reconcilePendingLoop_steps [of ul col sha1_id node at "trim_space owner" now "[]" "cs_db s" "(db', errs)"]
  by (auto simp: ReconcilePending_def Let_def split: if_splits)

end
