(* ===== verification/Spec2Isabelle.thy ===== *)
theory Spec2Isabelle
  imports Capability_Requirements Placement_Engine Run_Request Run_System
begin

text \<open>
  A model of the control plane of axern and of the libraries it shares with its nodes.

  \<^bold>\<open>The program.\<close> axern runs workloads in sandboxes on a fleet of nodes. The
  control plane (\<open>control/controld\<close>) accepts a run, chooses a node for it, stores the
  run and its allocation in PostgreSQL, and drives the allocation through its lifecycle by
  means of a queue that reconcile workers share; the node daemon
  (\<open>runtime/axnoded\<close>) starts and stops the sandbox and reports what it observes. The
  libraries under \<open>lib/go\<close> hold the rules both sides must agree on.

  \<^bold>\<open>Theories, from the bottom up.\<close>

  \<^item> \<open>Go_Prelude\<close>, \<open>Go_Text\<close>, \<open>Go_Net\<close>, \<open>Go_Path\<close>: what the source uses
    of Go and its standard library: machine integers, time, sorting and error results;
    strings, UTF-8 and base64; \<open>net/netip\<close>; \<open>path.Clean\<close> and
    \<open>mime.ParseMediaType\<close>.
  \<^item> \<open>Capability_Model\<close>, \<open>Capability_Keys\<close>, \<open>Capability_Snapshot\<close>,
    \<open>Capability_Requirements\<close>: \<open>lib/go/nodecapability\<close>. The registry of platform
    capabilities, the identifiers of keys, evidence and freshness of observations, the
    capabilities a snapshot makes available with all their dependencies, and the
    requirements derived from a workload and resolved on a node.
  \<^item> \<open>Resource_Policy\<close>: \<open>kernel/resource\<close>. Fit of a claim into a node and into a
    namespace quota, with overflow and the overcommit ratio's double arithmetic.
  \<^item> \<open>Node_Model\<close>: \<open>lib/go/memorybudget\<close> and \<open>kernel/node\<close>. Reports of a node,
    their freshness, runtime slots and the registry of nodes.
  \<^item> \<open>Placement_Kernel\<close>, \<open>Placement_Engine\<close>: \<open>kernel/placement\<close> and
    \<open>placement\<close>. Evaluation of every node, ranking, selection and the diagnosis of a
    failed selection.
  \<^item> \<open>Network_Policy\<close>: \<open>lib/go/networkpolicy\<close>. Normal form of egress policies.
  \<^item> \<open>Execution_Config\<close>: \<open>kernel/execution\<close>, \<open>kernel/environment\<close> and
    \<open>placement/selector_request.go\<close>. Normalisation of a run configuration and the
    placement request made from it.
  \<^item> \<open>Run_Request\<close>: \<open>api/publicv1/config_validation.go\<close>, the configuration a run is
    stored with, and the node's checks in
    \<open>runtime/axnoded/internal/service/startplan/builders.go\<close>.
  \<^item> \<open>Image_Ref\<close>: \<open>lib/go/imageref\<close>. Image references and digests.
  \<^item> \<open>Allocation_Kernel\<close>: \<open>kernel/allocation\<close> and \<open>kernel/run\<close>. Lifecycle
    states, acceptance of observations, inventory, retry plans and operator clearance.
  \<^item> \<open>Store_Model\<close>, \<open>Reconcile_Queue\<close>, \<open>Run_Store\<close>: the tables and
    constraints of \<open>postgres/migrations/000001_initial.sql\<close> and the transactions of
    \<open>postgres/allocation\<close>, \<open>postgres/run\<close>, \<open>postgres/admin\<close>,
    \<open>postgres/retention\<close> and \<open>postgres/consistency\<close> on them. A table is the list of
    its rows, a transaction maps the database to a new one or to an error.
  \<^item> \<open>Run_Lifecycle\<close>, \<open>Run_Refinement\<close>: the abstract machine of one allocation, \<open>lc_step\<close>,
    its view of a database, \<open>lifecycle_at\<close>, and the refinement lemma of each transaction.
  \<^item> \<open>Run_Reconciler\<close>: \<open>application/run/reconciler.go\<close> and \<open>CreateRun\<close> of
    \<open>controller.go\<close>. One step of a worker on a claimed entry, \<open>reconcileAllocation\<close>, its
    retry decisions, and the loop of a pass, \<open>ReconcilePending\<close>.
  \<^item> \<open>Run_System\<close>: the control plane as a step relation \<open>sys_step\<close>, in which the
    transactions of all handlers and workers interleave, and the locale
    \<open>lifecycle_simulation\<close>, interpreted on it. This theory holds a sample history of the
    control plane and the properties that span the components.

  \<^bold>\<open>Correspondence.\<close> A Go struct or protobuf message is a record, an enumeration a
  datatype whose last constructor holds undeclared numbers, a pointer an option, a map an
  association list, an error a constructor of an error datatype. \<open>int64\<close> and
  \<open>int32\<close> values are integers with the wrap written out where the source can leave the
  range. Times are nanoseconds. Definitions keep the source's names.

  \<^bold>\<open>Parameters.\<close> Code outside the repository is an argument: \<open>ul\<close>, the case table
  of \<open>strings.ToLower\<close> beyond ASCII (hypothesis \<open>lower_idem\<close>); \<open>idna\<close>, the
  conversion of \<open>golang.org/x/net/idna\<close> (hypothesis \<open>idna_contract\<close>);
  \<open>parse_ref\<close>, the reference parser of \<open>go-containerregistry\<close>; \<open>sha1_id\<close>, the
  name-based identifier of \<open>uuid\<close>; \<open>col\<close>, the rounding of a timestamp column;
  \<open>node\<close>, the answers of the node daemons to the calls of the reconciler; \<open>at\<close>, the clock
  reading at which a worker acts on an entry; \<open>admit\<close> and \<open>select\<close>, the choice of a
  node inside and before the admission transaction.

  \<^bold>\<open>What the lemmas show.\<close> Capabilities: the start-up validation of the
  registry accepts exactly the tables that keep its rules and have no cycle, the registry
  among them, identifiers are injective on normalised keys, a capability is available
  exactly when it and all its dependencies are observed, fresh and healthy, reports lapse
  and the loss is noticed, and resolved requirements satisfy the validator of the store. Resources: a claim fits exactly when the
  exact sum stays within the limit, so no sequence of admissions overcommits, and the reason
  of a quota rejection is exact. Nodes:
  accepted budgets are fresh and consistent, and no sequence of reports revives a retired
  node. Placement: eligibility equals a flat predicate, ranking is a strict total order and
  planning does not depend on the order of the records. Configuration: accepted
  configurations are sound, always yield a placement request, and what is stored keeps
  clear of protected paths where cleaned paths have no space at their ends; otherwise it
  does not, which is one of the findings. Runs: every interleaving of transactions refines
  the lifecycle machine, every reachable database is well formed, the end of a run is final,
  a pass of the worker ends, and a release the node carries out is completed.

  \<^bold>\<open>Bounds and termination.\<close> All definitions but one are total. Loops that are not
  structural have a termination measure: the keys not yet visited for the search through
  dependencies, the remaining retries for the retry delay. The loop of a worker's pass,
  \<open>reconcilePendingLoop\<close>, claims until nothing is due and is a partial function; it is
  shown to return for every answer of the nodes when its clock moves on. No fuel is used.

  \<^bold>\<open>Not modelled.\<close> The API handlers apart from the checks of \<open>CreateRun\<close>, process
  wiring and observability, which hold no state of their own; calls to registries and nodes, whose
  results are arguments; the stores of secrets, namespaces, principals and tunnels; and the
  programs that are input and output throughout: the node daemon's drivers, egress daemon,
  image manager and file system, tunnel relay, gateway, BPF data plane, command line client
  and SDKs.
\<close>

section \<open>A sample history of the control plane\<close>

definition sample_db :: store_db where
  "sample_db =
     \<lparr>db_runs = [], db_allocations = [], db_queue = [], db_grants = [], db_cursors = [], db_tunnels = [],
      db_tunnel_events = [], db_tunnel_revision = 0, db_secret_references = [], db_secrets = [],
      db_nodes = [\<lparr>nr_id = ''node-1'', nr_target = ''10.0.0.1:7000'', nr_lifecycle_status = ''active''\<rparr>],
      db_environments = [sample_environment], db_requirements = [], db_conditions = [], db_audit = []\<rparr>"

definition sample_plane :: control_plane where
  "sample_plane = \<lparr>cs_db = sample_db, cs_items = {}, cs_used = {}\<rparr>"

definition sample_candidate :: candidate where
  "sample_candidate =
     \<lparr>cand_Record = sample_record ''node-1'',
      cand_Evaluation = zero_evaluation\<lparr>pe_NodeID := ''node-1'', pe_State := CandidateStateEligible\<rparr>,
      cand_BaseRequest = Some (Placement_Engine.sample_request 500), cand_Request = Some (Placement_Engine.sample_request 500)\<rparr>"

definition sample_params :: admit_params where
  "sample_params =
     \<lparr>ap_RunID = ''run-1'', ap_AllocationID = ''alloc-1'', ap_Namespace = ''default'', ap_EnvironmentID = ''env-1'',
      ap_Config = Some (empty_config\<lparr>ec_Resources := Some \<lparr>rs_Requests = Some \<lparr>rq_cpu_milli = 500, rq_memory_bytes = 0,
        rq_ephemeral_storage_bytes = 0\<rparr>, rs_Limits = None\<rparr>\<rparr>),
      ap_Labels = [], ap_Candidates = [sample_candidate]\<rparr>"

text \<open>Times in seconds after one hour.\<close>

definition tick :: "int \<Rightarrow> gotime" where
  "tick n = (3600 + n) * second"

definition admit_sample :: "store_db \<Rightarrow> store_db option" where
  "admit_sample db =
     (case AdmitRun (\<lambda>s. s) sample_idna (\<lambda>_ _. Inr (''node-1'', [])) sample_params (tick 0) db of
        Inl _ \<Rightarrow> None | Inr d \<Rightarrow> Some d)"

definition report_active :: "store_db \<Rightarrow> store_db option" where
  "report_active db =
     (case BatchReportAllocationLifecycle ''node-1''
             [Some \<lparr>obs_AllocationID = ''alloc-1'', obs_State = LS_ACTIVE, obs_ExitCode = None, obs_Message = [],
                obs_ObservedAt = None, obs_Ready = True, obs_ReadinessMessage = [], obs_DiagnosticCode = DIAG_UNSPECIFIED\<rparr>]
             (tick 1) db of
        Inl _ \<Rightarrow> None | Inr d \<Rightarrow> Some d)"

definition open_access :: "store_db \<Rightarrow> store_db option" where
  "open_access db =
     (case IssueAllocationAccessGrant ''grant-1'' ''hash'' ''alloc-1'' AP_INTERACTIVE (10 * minute) (tick 2) db of
        Inl _ \<Rightarrow> None | Inr (d, _) \<Rightarrow> Some d)"

definition cancel_sample :: "gotime \<Rightarrow> store_db \<Rightarrow> store_db option" where
  "cancel_sample now db = (case CancelRun ''run-1'' now db of Inl _ \<Rightarrow> None | Inr (d, _) \<Rightarrow> Some d)"

text \<open>A node that loses the answer to every start and carries out every deletion.\<close>

definition lossy_node :: allocation_lifecycle where
  "lossy_node =
     \<lparr>al_CreateAllocation = (\<lambda>_ _ _ _ _. Inl \<lparr>rpc_Code = CodeUnavailable, rpc_Error = ''connection lost''\<rparr>),
      al_DeleteAllocation = (\<lambda>_ _ _ _ _. Inr None), al_AcknowledgeAllocationRelease = (\<lambda>_ _ _. None)\<rparr>"

definition worker_pass :: "gotime \<Rightarrow> store_db \<Rightarrow> (store_db \<times> reconcile_error list) option" where
  "worker_pass now db =
     ReconcilePending (\<lambda>s. s) (\<lambda>t. t) (\<lambda>s. s) lossy_node (\<lambda>_. now + second) ''worker-1'' now db"

fun history :: "(store_db \<Rightarrow> store_db option) list \<Rightarrow> store_db \<Rightarrow> store_db option" where
  "history [] db = Some db"
| "history (f # fs) db = Option.bind (f db) (history fs)"

definition is_steps :: "(store_db \<Rightarrow> store_db option) \<Rightarrow> bool" where
  "is_steps f \<longleftrightarrow> (\<forall>s d. f (cs_db s) = Some d \<longrightarrow> (\<exists>s'. sys_step\<^sup>*\<^sup>* s s' \<and> cs_db s' = d))"

lemma history_steps:
  "list_all is_steps fs \<Longrightarrow> history fs (cs_db s) = Some d \<Longrightarrow> \<exists>s'. sys_step\<^sup>*\<^sup>* s s' \<and> cs_db s' = d"
proof (induction fs arbitrary: s)
  case (Cons f fs)
  from Cons.prems(2) obtain e where e: "f (cs_db s) = Some e" "history fs e = Some d" by (auto simp: bind_eq_Some_conv)
  with Cons.prems(1) obtain t where t: "sys_step\<^sup>*\<^sup>* s t" "cs_db t = e" by (auto simp: is_steps_def)
  with Cons.IH [of t] Cons.prems(1) e(2) show ?case by (auto intro: rtranclp_trans)
qed auto

lemma transaction_is_steps:
  assumes "\<And>db d. f db = Some d \<Longrightarrow> transaction db d"
  shows "is_steps f"
  unfolding is_steps_def
proof (intro allI impI)
  fix s :: control_plane and d
  assume "f (cs_db s) = Some d"
  then have "sys_step s (s\<lparr>cs_db := d\<rparr>)" by (intro sys_transaction assms)
  then show "\<exists>s'. sys_step\<^sup>*\<^sup>* s s' \<and> cs_db s' = d" by (intro exI [of _ "s\<lparr>cs_db := d\<rparr>"]) auto
qed

lemma sample_is_steps [simp]:
  "is_steps report_active" "is_steps open_access" "is_steps (cancel_sample now)"
  "is_steps (\<lambda>db. map_option fst (worker_pass now db))"
proof -
  show "is_steps report_active"
    by (rule transaction_is_steps) (auto simp: report_active_def intro: reported split: sum.splits)
  show "is_steps open_access"
    by (rule transaction_is_steps) (auto simp: open_access_def intro: grant split: sum.splits)
  show "is_steps (cancel_sample now)"
    by (rule transaction_is_steps) (auto simp: cancel_sample_def intro: cancel split: sum.splits)
  show "is_steps (\<lambda>db. map_option fst (worker_pass now db))"
    unfolding is_steps_def worker_pass_def using ReconcilePending_steps by fastforce
qed

lemma sample_init: "sys_init sample_plane" "cs_db sample_plane = sample_db"
  by (simp_all add: sys_init_def sample_plane_def sample_db_def)

lemma sample_reaches:
  assumes "history (admit_sample # fs) sample_db = Some d" "list_all is_steps fs"
  shows "\<exists>s. sys_step\<^sup>*\<^sup>* sample_plane s \<and> cs_db s = d"
proof -
  from assms(1) obtain e where e: "AdmitRun (\<lambda>s. s) sample_idna (\<lambda>_ _. Inr (''node-1'', [])) sample_params (tick 0) sample_db = Inr e"
    and rest: "history fs e = Some d"
    by (auto simp: admit_sample_def bind_eq_Some_conv split: sum.splits)
  have "trim_space (ap_RunID sample_params) = ap_RunID sample_params"
    "trim_space (ap_AllocationID sample_params) = ap_AllocationID sample_params" by code_simp+
  then have "sys_step sample_plane (sample_plane\<lparr>cs_db := e, cs_used := insert (ap_AllocationID sample_params) (cs_used sample_plane)\<rparr>)"
    by (intro sys_admit) (use e in \<open>simp_all add: sample_plane_def\<close>)
  with history_steps [OF assms(2), of "sample_plane\<lparr>cs_db := e, cs_used := insert (ap_AllocationID sample_params) (cs_used sample_plane)\<rparr>" d] rest
  show ?thesis by (auto intro: converse_rtranclp_into_rtranclp)
qed

lemma cancelled_evaluates:
  "(case history [admit_sample, cancel_sample (tick 5)] sample_db of
      None \<Rightarrow> False
    | Some d \<Rightarrow> map ar_state (db_allocations d) = [LS_RELEASING] \<and>
       map_option lc_status (lifecycle_at d ''alloc-1'') = Some RUN_CANCELLED \<and>
       (case worker_pass (tick 10) d of
           None \<Rightarrow> False
         | Some (d', errs) \<Rightarrow> map_option lc_state (lifecycle_at d' ''alloc-1'') = Some LS_RELEASED))"
  by code_simp

text \<open>The sample history with its two ends: a run whose start is retried, and a cancelled run.\<close>

lemma cancelled_reachable:
  obtains s s' l l' where "sys_step\<^sup>*\<^sup>* sample_plane s" "sys_step\<^sup>*\<^sup>* s s'"
    "map ar_state (db_allocations (cs_db s)) = [LS_RELEASING]" "lifecycle_at (cs_db s) ''alloc-1'' = Some l" "lc_status l = RUN_CANCELLED"
    "lifecycle_at (cs_db s') ''alloc-1'' = Some l'" "lc_state l' = LS_RELEASED"
proof -
  from cancelled_evaluates obtain d d' errs l l' where d: "history [admit_sample, cancel_sample (tick 5)] sample_db = Some d"
    "map ar_state (db_allocations d) = [LS_RELEASING]" "lifecycle_at d ''alloc-1'' = Some l" "lc_status l = RUN_CANCELLED" "worker_pass (tick 10) d = Some (d', errs)"
    "lifecycle_at d' ''alloc-1'' = Some l'" "lc_state l' = LS_RELEASED"
    by (auto split: option.splits)
  from sample_reaches [OF d(1)] obtain s where s: "sys_step\<^sup>*\<^sup>* sample_plane s" "cs_db s = d" by auto
  from ReconcilePending_steps [OF d(5) [unfolded worker_pass_def, folded s(2)]]
  obtain s' where s': "sys_step\<^sup>*\<^sup>* s s'" "cs_db s' = d'" by blast
  show thesis
    by (rule that [of s s' l l', unfolded s(2) s'(2), OF s(1) s'(1) d(2-4) d(6,7)])
qed

lemma store_ok_rows:
  assumes ok: "store_ok db"
  shows "distinct (map rr_id (db_runs db)) \<and> distinct (map ar_id (db_allocations db)) \<and> distinct (map qr_id (db_queue db)) \<and>
     (\<forall>r\<in>set (db_runs db). run_row_ok r) \<and> (\<forall>q\<in>set (db_queue db). queue_row_ok q) \<and>
     qr_id ` set (db_queue db) \<subseteq> ar_id ` set (db_allocations db) \<and>
     (\<forall>a\<in>set (db_allocations db).
        allocation_row_ok a \<and>
        (\<exists>r\<in>set (db_runs db). rr_id r = ar_run_id a \<and> (IsTerminal (rr_status r) \<longleftrightarrow> IsCleanupState (ar_state a))) \<and>
        (ar_output_expires_at a \<noteq> None \<longleftrightarrow> IsCleanupState (ar_state a)) \<and>
        (ar_state a = LS_RELEASING \<longrightarrow> ar_id a \<in> qr_id ` set (db_queue db)))"
proof (intro conjI ballI)
  have wf: "store_wf db" using ok by (simp add: store_ok_def)
  then show "distinct (map rr_id (db_runs db))" "distinct (map ar_id (db_allocations db))" "distinct (map qr_id (db_queue db))"
    by (simp_all add: store_wf_def)
  show "run_row_ok r" if "r \<in> set (db_runs db)" for r using wf that by (simp add: store_wf_def rows_ok_def)
  show "queue_row_ok q" if "q \<in> set (db_queue db)" for q using wf that by (simp add: store_wf_def rows_ok_def)
  show "qr_id ` set (db_queue db) \<subseteq> ar_id ` set (db_allocations db)"
    using store_wf_queue [OF wf] by (auto simp: alloc_at_def lookup_None_iff)
  fix a
  assume a: "a \<in> set (db_allocations db)"
  show "allocation_row_ok a" using wf a by (simp add: store_wf_def rows_ok_def)
  have at: "alloc_at db (ar_id a) = Some a" by (rule store_wf_alloc(1) [OF wf a])
  obtain r where r: "run_at db (ar_run_id a) = Some r" using store_wf_alloc(4) [OF wf a] by blast
  have lc: "lc_ok (lifecycle_view a r (queue_at db (ar_id a)))"
    by (rule store_ok_lc [OF ok lifecycle_at_Some [OF at r]])
  show "\<exists>r\<in>set (db_runs db). rr_id r = ar_run_id a \<and> (IsTerminal (rr_status r) \<longleftrightarrow> IsCleanupState (ar_state a))"
    using run_atD [OF r] lc by (intro bexI [of _ r]) (simp_all add: lc_ok_def lifecycle_view_def)
  show "ar_output_expires_at a \<noteq> None \<longleftrightarrow> IsCleanupState (ar_state a)"
    using lc by (simp add: lc_ok_def lifecycle_view_def)
  show "ar_state a = LS_RELEASING \<longrightarrow> ar_id a \<in> qr_id ` set (db_queue db)"
  proof
    assume "ar_state a = LS_RELEASING"
    with lc obtain q where "queue_at db (ar_id a) = Some q" by (auto simp: lc_ok_def lifecycle_view_def)
    then show "ar_id a \<in> qr_id ` set (db_queue db)" by (force simp: queue_at_def dest: lookup_SomeD)
  qed
qed


section \<open>Properties of the run store\<close>

text \<open>C34. The store implements the lifecycle machine: in every reachable state, whichever
  transaction comes next, each allocation makes only moves of the machine. It is admitted, makes
  progress the node reports, ends once with a terminal run status, is released, leaves the queue
  and is forgotten, and never skips or repeats a stage.\<close>

theorem store_refines_lifecycle:
  assumes "sys_init s0" "sys_step\<^sup>*\<^sup>* s0 s" "sys_step s s'"
  shows "lc_step\<^sup>*\<^sup>* (lifecycle_at (cs_db s) k) (lifecycle_at (cs_db s') k)"
  by (rule cp.simulates [OF cp.inv_steps [OF assms(2) sys_init_ok [OF assms(1)]] assms(3)])

theorem store_refines_lifecycle_witness:
  "\<exists>s'. sys_step sample_plane s' \<and>
     lc_step\<^sup>*\<^sup>* (lifecycle_at (cs_db sample_plane) ''alloc-1'') (lifecycle_at (cs_db s') ''alloc-1'')"
proof -
  have "sys_step sample_plane (sample_plane\<lparr>cs_db := cs_db sample_plane\<rparr>)"
    by (rule sys_transaction) (rule other, simp)
  with store_refines_lifecycle [OF sample_init(1) rtranclp.rtrancl_refl this, of "''alloc-1''"] show ?thesis by blast
qed

text \<open>C35. Every reachable database is well formed: keys are unique, each allocation names an
  existing run and each queue entry an existing allocation, all rows satisfy the checks of their
  tables, and run and allocation agree. A run is terminal exactly when its allocation is releasing
  or released, exactly then the output expiry is set, and a releasing allocation has its cleanup
  queued.\<close>

theorem reachable_store_well_formed:
  assumes "sys_init s0" "sys_step\<^sup>*\<^sup>* s0 s"
  shows "distinct (map rr_id (db_runs (cs_db s))) \<and> distinct (map ar_id (db_allocations (cs_db s))) \<and>
     distinct (map qr_id (db_queue (cs_db s))) \<and>
     (\<forall>r\<in>set (db_runs (cs_db s)). run_row_ok r) \<and> (\<forall>q\<in>set (db_queue (cs_db s)). queue_row_ok q) \<and>
     qr_id ` set (db_queue (cs_db s)) \<subseteq> ar_id ` set (db_allocations (cs_db s)) \<and>
     (\<forall>a\<in>set (db_allocations (cs_db s)).
        allocation_row_ok a \<and>
        (\<exists>r\<in>set (db_runs (cs_db s)). rr_id r = ar_run_id a \<and> (IsTerminal (rr_status r) \<longleftrightarrow> IsCleanupState (ar_state a))) \<and>
        (ar_output_expires_at a \<noteq> None \<longleftrightarrow> IsCleanupState (ar_state a)) \<and>
        (ar_state a = LS_RELEASING \<longrightarrow> ar_id a \<in> qr_id ` set (db_queue (cs_db s))))"
  using cp.inv_steps [OF assms(2) sys_init_ok [OF assms(1)]] store_ok_rows [of "cs_db s"] by (simp add: sys_ok_def)

theorem reachable_store_well_formed_witness:
  "\<exists>s a. sys_step\<^sup>*\<^sup>* sample_plane s \<and> a \<in> set (db_allocations (cs_db s)) \<and> ar_state a = LS_RELEASING \<and>
     ar_id a \<in> qr_id ` set (db_queue (cs_db s))"
proof -
  obtain s s' l l' where s: "sys_step\<^sup>*\<^sup>* sample_plane s" "map ar_state (db_allocations (cs_db s)) = [LS_RELEASING]"
    by (rule cancelled_reachable, rule that)
  from s(2) obtain a where a: "a \<in> set (db_allocations (cs_db s))" "ar_state a = LS_RELEASING" by auto
  from reachable_store_well_formed [OF sample_init(1) s(1)] a have "ar_id a \<in> qr_id ` set (db_queue (cs_db s))" by blast
  with s(1) a show ?thesis by blast
qed

text \<open>C36. The end of a run is final: once a run is terminal, its status, exit code, diagnostic
  code, message and output expiry never change for as long as it is stored, its node never changes,
  and its allocation's lifecycle only moves forward, in every interleaving of transactions.\<close>

theorem terminal_outcome_is_final:
  assumes "sys_init s0" "sys_step\<^sup>*\<^sup>* s0 s" "sys_step\<^sup>*\<^sup>* s s'"
    and "lifecycle_at (cs_db s) k = Some l" "lifecycle_at (cs_db s') k = Some l'"
  shows "lifecycle_rank (lc_state l) \<le> lifecycle_rank (lc_state l') \<and> lc_node l' = lc_node l \<and>
     (IsTerminal (lc_status l) \<longrightarrow>
        lc_status l' = lc_status l \<and> lc_exit l' = lc_exit l \<and> lc_code l' = lc_code l \<and>
        lc_message l' = lc_message l \<and> lc_expiry l' = lc_expiry l)"
  using sys_steps_follow [OF cp.inv_steps [OF assms(2) sys_init_ok [OF assms(1)]] assms(3-5)]
  by (simp add: lc_follows_def)

theorem terminal_outcome_is_final_witness:
  "\<exists>s l'. sys_step\<^sup>*\<^sup>* sample_plane s \<and> lifecycle_at (cs_db s) ''alloc-1'' = Some l' \<and>
     lc_state l' = LS_RELEASED \<and> lc_status l' = RUN_CANCELLED"
proof -
  obtain s s' l l' where h: "sys_step\<^sup>*\<^sup>* sample_plane s" "sys_step\<^sup>*\<^sup>* s s'"
    "map ar_state (db_allocations (cs_db s)) = [LS_RELEASING]"
    "lifecycle_at (cs_db s) ''alloc-1'' = Some l" "lc_status l = RUN_CANCELLED"
    "lifecycle_at (cs_db s') ''alloc-1'' = Some l'" "lc_state l' = LS_RELEASED" by (rule cancelled_reachable)
  from terminal_outcome_is_final [OF sample_init(1) h(1,2,4,6)] h(5) have "lc_status l' = RUN_CANCELLED" by simp
  with h rtranclp_trans [OF h(1,2)] show ?thesis by blast
qed

text \<open>C37. A pass of the reconcile worker ends whatever the nodes answer, as long as its clock has
  moved on since the pass began: every entry it claims is finished or put off past the pass's time,
  so each round leaves fewer entries to claim. What it leaves behind is a state of the control plane
  that its transactions reach one by one.\<close>

theorem reconcile_pass_ends:
  assumes "\<forall>item. now < at item"
  shows "\<exists>s' errs. ReconcilePending ul col sha1_id node at owner now (cs_db s) = Some (cs_db s', errs) \<and> sys_step\<^sup>*\<^sup>* s s'"
proof -
  from ReconcilePending_returns [of now at ul col sha1_id node owner "cs_db s"] assms obtain db' errs where
    "ReconcilePending ul col sha1_id node at owner now (cs_db s) = Some (db', errs)" by auto
  with ReconcilePending_steps [OF this] show ?thesis by blast
qed

theorem reconcile_pass_ends_witness:
  "\<exists>s' errs. ReconcilePending (\<lambda>s. s) (\<lambda>t. t) (\<lambda>s. s) lossy_node (\<lambda>_. 11) ''worker-1'' 10 (cs_db sample_plane) =
     Some (cs_db s', errs) \<and> sys_step\<^sup>*\<^sup>* sample_plane s'"
  using reconcile_pass_ends [of 10 "\<lambda>_. 11" "\<lambda>s. s" "\<lambda>t. t" "\<lambda>s. s" lossy_node "''worker-1''" sample_plane] by simp

text \<open>C38. A release the node carries out is completed: from any reachable state, when a worker
  claims a releasing allocation and acts before its claim runs out, with a clock not behind the
  rows' creation times, and the node answers the deletion as requested, the step of the worker
  succeeds and the allocation is released. Where a root file system snapshot was requested, its
  environment identifier must not be taken.\<close>

theorem claimed_release_is_completed:
  assumes "sys_init s0" "sys_step\<^sup>*\<^sup>* s0 s"
    and "ClaimDueReconcileItems owner limit now ttl (cs_db s) = (d, Inr items)"
    and "item \<in> set items" "rit_LifecycleState item = LS_RELEASING" "t < now + ttl"
    and "run_at d (rit_RunID item) = Some r" "rr_created_at r \<le> t"
    and "\<forall>a\<in>set (db_allocations d). ar_created_at a \<le> t" "\<forall>q\<in>set (db_queue d). qr_created_at q \<le> t"
    and "al_DeleteAllocation node (rit_NodeTarget item) (rit_AllocationID item) (rit_NodeID item)
       (OutputSealingRequest item) (RootfsSnapshotSealingRequest item) = Inr snapshot"
    and "sealed_as_requested r snapshot"
    and "snapshot_requested r \<Longrightarrow>
       lookup env_ID (''env-'' @ sha1_id (rit_AllocationID item)) (db_environments d) = None"
  shows "\<exists>d' a. reconcileAllocation ul col sha1_id node item t d = (d', None) \<and>
     alloc_at d' (rit_AllocationID item) = Some a \<and> ar_state a = LS_RELEASED \<and> store_ok d'"
proof -
  have "store_ok (cs_db s)"
    using cp.inv_steps [OF assms(2) sys_init_ok [OF assms(1)]] by (simp add: sys_ok_def)
  then show ?thesis by (rule claimed_release_completes [OF _ assms(3-12)]) (rule assms(13))
qed

definition release_ready :: "store_db \<Rightarrow> bool" where
  "release_ready db =
     (case ClaimDueReconcileItems ''worker-1'' 0 (tick 10) (30 * second) db of
        (d, Inr [item]) \<Rightarrow>
          rit_LifecycleState item = LS_RELEASING \<and> rit_AllocationID item = ''alloc-1'' \<and>
          (case run_at d (rit_RunID item) of
             None \<Rightarrow> False
           | Some r \<Rightarrow> rr_created_at r \<le> tick 11 \<and> sealed_as_requested r None \<and> \<not> snapshot_requested r) \<and>
          list_all (\<lambda>a. ar_created_at a \<le> tick 11) (db_allocations d) \<and>
          list_all (\<lambda>q. qr_created_at q \<le> tick 11) (db_queue d)
      | _ \<Rightarrow> False)"

lemma release_ready_evaluates:
  "(case history [admit_sample, cancel_sample (tick 5)] sample_db of None \<Rightarrow> False | Some d \<Rightarrow> release_ready d)"
  by code_simp

lemma release_readyD:
  assumes "release_ready db"
  obtains d item r where "ClaimDueReconcileItems ''worker-1'' 0 (tick 10) (30 * second) db = (d, Inr [item])"
    "rit_LifecycleState item = LS_RELEASING" "rit_AllocationID item = ''alloc-1''" "run_at d (rit_RunID item) = Some r"
    "rr_created_at r \<le> tick 11" "sealed_as_requested r None" "\<not> snapshot_requested r"
    "\<forall>a\<in>set (db_allocations d). ar_created_at a \<le> tick 11" "\<forall>q\<in>set (db_queue d). qr_created_at q \<le> tick 11"
  using assms unfolding release_ready_def list_all_iff
  by (auto split: prod.splits sum.splits list.splits option.splits)

theorem claimed_release_is_completed_witness:
  "\<exists>s d items item d' a. sys_step\<^sup>*\<^sup>* sample_plane s \<and>
     ClaimDueReconcileItems ''worker-1'' 0 (tick 10) (30 * second) (cs_db s) = (d, Inr items) \<and> item \<in> set items \<and>
     reconcileAllocation (\<lambda>s. s) (\<lambda>t. t) (\<lambda>s. s) lossy_node item (tick 11) d = (d', None) \<and>
     alloc_at d' ''alloc-1'' = Some a \<and> ar_state a = LS_RELEASED"
proof -
  from release_ready_evaluates obtain e where e: "history [admit_sample, cancel_sample (tick 5)] sample_db = Some e"
    and ready: "release_ready e" by (auto split: option.splits)
  from sample_reaches [OF e] obtain s where s: "sys_step\<^sup>*\<^sup>* sample_plane s" "cs_db s = e" by auto
  obtain d item r where c: "ClaimDueReconcileItems ''worker-1'' 0 (tick 10) (30 * second) (cs_db s) = (d, Inr [item])"
    "rit_LifecycleState item = LS_RELEASING" "rit_AllocationID item = ''alloc-1''" "run_at d (rit_RunID item) = Some r"
    "rr_created_at r \<le> tick 11" "sealed_as_requested r None" "\<not> snapshot_requested r"
    "\<forall>a\<in>set (db_allocations d). ar_created_at a \<le> tick 11" "\<forall>q\<in>set (db_queue d). qr_created_at q \<le> tick 11"
    by (rule release_readyD [OF ready [folded s(2)]], rule that)
  have time: "tick 11 < tick 10 + 30 * second" by code_simp
  have answer: "al_DeleteAllocation lossy_node (rit_NodeTarget item) (rit_AllocationID item) (rit_NodeID item)
      (OutputSealingRequest item) (RootfsSnapshotSealingRequest item) = Inr None"
    by (simp add: lossy_node_def)
  have item: "item \<in> set [item]" by simp
  from claimed_release_is_completed [OF sample_init(1) s(1) c(1) item c(2) time c(4,5,8,9) answer c(6),
      of "\<lambda>s. s" "\<lambda>s. s" "\<lambda>t. t"] c(7)
  obtain d' a where "reconcileAllocation (\<lambda>s. s) (\<lambda>t. t) (\<lambda>s. s) lossy_node item (tick 11) d = (d', None)"
    "alloc_at d' (rit_AllocationID item) = Some a" "ar_state a = LS_RELEASED" by blast
  with s(1) c(1,3) item show ?thesis by metis
qed







end
